(* ===== verification/Prelude.thy ===== *)
theory Prelude
  imports Complex_Main "HOL-Library.Word"
begin

text \<open>
  What every component shares: the status codes the C functions return, the result type of
  an operation that may fail, C strings as lists of bytes, the buffer operations of the C
  library that the sources use (\<open>strlen\<close>, \<open>snprintf\<close> with a size, \<open>atoi\<close>, decimal printing),
  and the cursor loop over the lines of a text, which three components run.

  Conventions of the development:
  \<^item> \<open>float\<close> and \<open>double\<close> values are rationals and their arithmetic is exact;
  \<^item> a pointer that the callers never pass as NULL is the object itself, a pointer that can be
    NULL is an \<open>option\<close>;
  \<^item> allocation is a parameter \<open>mem\<close>: \<open>mem n\<close> says whether a request for \<open>n\<close> bytes succeeds;
  \<^item> code outside the repository is a parameter.
\<close>

section \<open>Status codes and results\<close>

text \<open>The codes of the library header \<open>maestroutils/error.h\<close> that the sources return. The code
  only compares them, so a datatype of distinct names is all it needs.\<close>

datatype status =
    SUCCESS
  | ERR_INVALID_ARG
  | ERR_NO_MEMORY
  | ERR_FATAL
  | ERR_NOT_FOUND
  | ERR_IO
  | ERR_INTERNAL
  | ERR_JSON_PARSE
  | ERR_JSON_OBJ_NOT_FOUND
  | ERR_WOULD_BLOCK
  | ERR_CONNECTION_FAIL

type_synonym 'a result = "status + 'a"
type_synonym allocator = "nat \<Rightarrow> bool"
type_synonym dbl = rat
type_synonym flt = rat

definition mem_unlimited :: allocator where
  "mem_unlimited n \<longleftrightarrow> True"

named_theorems text_simps \<comment> \<open>facts about lines and C strings\<close>

section \<open>C strings\<close>

abbreviation NUL :: char where "NUL \<equiv> CHR 0x00"
abbreviation NL :: char where "NL \<equiv> CHR 0x0A"
abbreviation CR :: char where "CR \<equiv> CHR 0x0D"

text \<open>What the string functions of C see of a byte array: everything before the first NUL.\<close>

definition cstr :: "string \<Rightarrow> string" where
  "cstr s = takeWhile (\<lambda>c. c \<noteq> NUL) s"

text \<open>\<open>snprintf(dst, n, "%s", s)\<close> keeps at most \<open>n - 1\<close> bytes.\<close>

definition snprintf_trunc :: "nat \<Rightarrow> string \<Rightarrow> string" where
  "snprintf_trunc n s = take (n - 1) s"

lemma NUL_notin_cstr [simp]: "NUL \<notin> set (cstr s)"
  by (auto simp: cstr_def dest: set_takeWhileD)

lemma cstr_id [simp]: "NUL \<notin> set s \<Longrightarrow> cstr s = s"
  unfolding cstr_def by (rule takeWhile_eq_all_conv [THEN iffD2]) auto

lemma cstr_idem [simp]: "cstr (cstr s) = cstr s"
  by (rule cstr_id) simp

lemma set_cstr_subset: "set (cstr s) \<subseteq> set s"
  by (auto simp: cstr_def dest: set_takeWhileD)

lemma length_cstr_le: "length (cstr s) \<le> length s"
  by (simp add: cstr_def length_takeWhile_le)

lemma cstr_Nil [simp]: "cstr [] = []"
  by (simp add: cstr_def)

lemma snprintf_trunc_short [simp]: "length s < n \<Longrightarrow> snprintf_trunc n s = s"
  by (simp add: snprintf_trunc_def)

lemma length_snprintf_trunc: "0 < n \<Longrightarrow> length (snprintf_trunc n s) < n"
  by (simp add: snprintf_trunc_def)

lemma set_snprintf_trunc: "set (snprintf_trunc n s) \<subseteq> set s"
  by (simp add: snprintf_trunc_def set_take_subset)

section \<open>Lines of a text\<close>

text \<open>
  Three loops of the server walk a text line by line with a cursor: up to the next newline, or
  to the end when there is none, then past it. \<open>text_lines\<close> is that walk: each line without its
  newline, and whether it had one.
\<close>

definition line_of :: "string \<Rightarrow> string" where
  "line_of s = takeWhile (\<lambda>c. c \<noteq> NL) s"

definition after_line :: "string \<Rightarrow> string" where
  "after_line s = drop 1 (dropWhile (\<lambda>c. c \<noteq> NL) s)"

lemma after_line_shorter: "s \<noteq> [] \<Longrightarrow> length (after_line s) < length s"
proof -
  assume "s \<noteq> []"
  then have "0 < length s" by simp
  moreover have "length (dropWhile (\<lambda>c. c \<noteq> NL) s) \<le> length s"
    by (rule length_dropWhile_le)
  ultimately have "length (dropWhile (\<lambda>c. c \<noteq> NL) s) - 1 < length s" by linarith
  then show ?thesis by (simp add: after_line_def)
qed

function text_lines :: "string \<Rightarrow> (string \<times> bool) list" where
  "text_lines s =
     (if s = [] then [] else (line_of s, NL \<in> set s) # text_lines (after_line s))"
  by pat_completeness auto
termination
  by (relation "measure length") (auto simp: after_line_shorter)

declare text_lines.simps [simp del]

definition join_lines :: "(string \<times> bool) list \<Rightarrow> string" where
  "join_lines ls = concat (map (\<lambda>(l, nl). l @ (if nl then [NL] else [])) ls)"

text \<open>Dropping one carriage return at the end of a line.\<close>

definition chomp :: "string \<Rightarrow> string" where
  "chomp l = (if l \<noteq> [] \<and> last l = CR then butlast l else l)"

lemma text_lines_Nil [simp]: "text_lines [] = []"
  by (simp add: text_lines.simps)

lemma line_of_no_nl: "NL \<notin> set (line_of s)"
  by (auto simp: line_of_def dest: set_takeWhileD)

lemma text_lines_no_nl: "(l, nl) \<in> set (text_lines s) \<Longrightarrow> NL \<notin> set l"
proof (induction s rule: text_lines.induct)
  case (1 s)
  then show ?case
    by (cases "s = []") (auto simp: text_lines.simps [of s] line_of_no_nl)
qed

lemma line_of_append [text_simps]: "NL \<notin> set l \<Longrightarrow> line_of (l @ NL # s) = l"
  unfolding line_of_def by (subst takeWhile_append2) auto

lemma after_line_append [text_simps]: "NL \<notin> set l \<Longrightarrow> after_line (l @ NL # s) = s"
  unfolding after_line_def by (subst dropWhile_append2) auto

lemma line_of_whole [text_simps]: "NL \<notin> set l \<Longrightarrow> line_of l = l"
  unfolding line_of_def by (rule takeWhile_eq_all_conv [THEN iffD2]) auto

lemma after_line_whole [text_simps]: "NL \<notin> set l \<Longrightarrow> after_line l = []"
proof -
  assume "NL \<notin> set l"
  then have "dropWhile (\<lambda>c. c \<noteq> NL) l = []" by (intro dropWhile_eq_Nil_conv [THEN iffD2]) auto
  then show ?thesis by (simp only: after_line_def drop_Nil)
qed

lemma text_lines_step [text_simps]:
  "NL \<notin> set l \<Longrightarrow> text_lines (l @ NL # s) = (l, True) # text_lines s"
  by (subst text_lines.simps) (simp add: text_simps)

lemma text_lines_last [text_simps]:
  "NL \<notin> set l \<Longrightarrow> l \<noteq> [] \<Longrightarrow> text_lines l = [(l, False)]"
  by (subst text_lines.simps) (simp add: text_simps)

lemma split_first_line:
  assumes "NL \<in> set s"
  shows "s = line_of s @ NL # after_line s"
  using assms
proof (induction s)
  case Nil
  then show ?case by simp
next
  case (Cons c s)
  show ?case
  proof (cases "c = NL")
    case True
    then show ?thesis by (simp add: line_of_def after_line_def)
  next
    case False
    with Cons have "s = line_of s @ NL # after_line s" by simp
    with False show ?thesis by (simp add: line_of_def after_line_def)
  qed
qed

text \<open>The walk loses nothing: the lines joined again are the text.\<close>

lemma join_text_lines: "join_lines (text_lines s) = s"
proof (induction s rule: text_lines.induct)
  case (1 s)
  show ?case
  proof (cases "s = []")
    case True
    then show ?thesis by (simp add: join_lines_def)
  next
    case False
    with 1 have IH: "join_lines (text_lines (after_line s)) = after_line s" by simp
    show ?thesis
    proof (cases "NL \<in> set s")
      case True
      with False IH show ?thesis
        by (subst text_lines.simps) (simp add: join_lines_def split_first_line [symmetric])
    next
      case no_nl: False
      with False show ?thesis
        by (simp add: text_lines_last join_lines_def)
    qed
  qed
qed

text \<open>A text whose every line ends with a newline.\<close>

definition newline_terminated :: "string \<Rightarrow> bool" where
  "newline_terminated s \<longleftrightarrow> s = [] \<or> last s = NL"

definition unlines :: "string list \<Rightarrow> string" where
  "unlines ls = concat (map (\<lambda>l. l @ [NL]) ls)"

lemma unlines_simps [simp]: "unlines [] = []" "unlines (l # ls) = l @ NL # unlines ls"
  by (simp_all add: unlines_def)

lemma unlines_append [simp]: "unlines (xs @ ys) = unlines xs @ unlines ys"
  by (simp add: unlines_def)

lemma text_lines_unlines [text_simps]:
  "\<forall>l \<in> set ls. NL \<notin> set l \<Longrightarrow> text_lines (unlines ls) = map (\<lambda>l. (l, True)) ls"
  by (induction ls) (simp_all add: text_simps)

lemma text_lines_terminated:
  assumes "newline_terminated s"
  shows "text_lines s = map (\<lambda>l. (l, True)) (map fst (text_lines s))"
  using assms
proof (induction s rule: text_lines.induct)
  case (1 s)
  show ?case
  proof (cases "s = []")
    case True
    then show ?thesis by simp
  next
    case False
    with "1.prems" have "last s = NL" by (simp add: newline_terminated_def)
    with False have nl: "NL \<in> set s" by (metis last_in_set)
    have s: "s = line_of s @ NL # after_line s" by (rule split_first_line [OF nl])
    have "newline_terminated (after_line s)"
      using \<open>last s = NL\<close> s by (metis newline_terminated_def last_appendR last_ConsR list.distinct(1))
    with "1.IH" False have "text_lines (after_line s) =
        map (\<lambda>l. (l, True)) (map fst (text_lines (after_line s)))" by blast
    then show ?thesis using False nl by (simp add: text_lines.simps [of s])
  qed
qed

text \<open>A text that does not end with a newline has a last line without one; with one added only that changes.\<close>

lemma text_lines_unended:
  "\<not> newline_terminated s \<Longrightarrow> \<exists>xs l. text_lines s = xs @ [(l, False)] \<and> text_lines (s @ [NL]) = xs @ [(l, True)] \<and>
     l \<noteq> [] \<and> NL \<notin> set l"
proof (induction s rule: text_lines.induct)
  case (1 s)
  then have s: "s \<noteq> []" "last s \<noteq> NL" by (auto simp: newline_terminated_def)
  show ?case
  proof (cases "NL \<in> set s")
    case True
    let ?l = "line_of s" and ?r = "after_line s"
    have split: "s = ?l @ NL # ?r" by (rule split_first_line [OF True])
    have "\<not> newline_terminated ?r"
      using s(2) split unfolding newline_terminated_def by (metis last.simps last_appendR list.distinct(1))
    with 1(1) s(1) obtain xs l where r: "text_lines ?r = xs @ [(l, False)]" "text_lines (?r @ [NL]) = xs @ [(l, True)]"
      "l \<noteq> []" "NL \<notin> set l" by blast
    have step: "text_lines (?l @ NL # t) = (?l, True) # text_lines t" for t
      by (rule text_lines_step [OF line_of_no_nl])
    have "text_lines s = (?l, True) # xs @ [(l, False)]" using step [of ?r] r(1) split by simp
    moreover have "text_lines (s @ [NL]) = (?l, True) # xs @ [(l, True)]"
      using step [of "?r @ [NL]"] r(2) split by (metis append.assoc append_Cons)
    ultimately show ?thesis using r(3,4) by (intro exI [of _ "(?l, True) # xs"] exI [of _ l]) simp
  next
    case False
    then show ?thesis using s(1) text_lines_step [of s "[]"]
      by (intro exI [of _ "[]"] exI [of _ s]) (simp add: text_lines_last)
  qed
qed

lemma join_lines_all_True: "join_lines (map (\<lambda>l. (l, True)) ls) = unlines ls"
  by (induction ls) (simp_all add: join_lines_def)

lemma terminated_unlines:
  "newline_terminated s \<Longrightarrow> s = unlines (map fst (text_lines s))"
proof -
  assume "newline_terminated s"
  then have "text_lines s = map (\<lambda>l. (l, True)) (map fst (text_lines s))"
    by (rule text_lines_terminated)
  then have "join_lines (text_lines s) = join_lines (map (\<lambda>l. (l, True)) (map fst (text_lines s)))"
    by (rule arg_cong)
  then show ?thesis by (simp only: join_lines_all_True join_text_lines)
qed

section \<open>Numbers as text\<close>

text \<open>Decimal printing, as \<open>%d\<close>, \<open>%i\<close>, \<open>%u\<close> and \<open>%02d\<close> do it.\<close>

fun dec_nat :: "nat \<Rightarrow> string" where
  "dec_nat n = (if n < 10 then [char_of (48 + n)]
                else dec_nat (n div 10) @ [char_of (48 + n mod 10)])"

declare dec_nat.simps [simp del]

definition dec_int :: "int \<Rightarrow> string" where
  "dec_int i = (if i < 0 then CHR ''-'' # dec_nat (nat (- i)) else dec_nat (nat i))"

definition pad0 :: "nat \<Rightarrow> string \<Rightarrow> string" where
  "pad0 w s = replicate (w - length s) (CHR ''0'') @ s"

lemma dec_nat_small: "n < 10 \<Longrightarrow> dec_nat n = [char_of (48 + n)]"
  by (subst dec_nat.simps) simp

lemma length_dec_nat_pos: "0 < length (dec_nat n)"
  by (subst dec_nat.simps) simp

lemma length_dec_nat_le: "n < 10 ^ k \<Longrightarrow> 0 < k \<Longrightarrow> length (dec_nat n) \<le> k"
proof (induction n arbitrary: k rule: dec_nat.induct)
  case (1 n)
  show ?case
  proof (cases "n < 10")
    case True
    with "1.prems" show ?thesis by (simp add: dec_nat_small)
  next
    case False
    then have "k \<noteq> 1" using "1.prems" by auto
    with "1.prems" obtain k' where k: "k = Suc k'" and "0 < k'"
      by (cases k) auto
    from "1.prems" k have "n div 10 < 10 ^ k'" by (simp add: less_mult_imp_div_less)
    with "1.IH" False \<open>0 < k'\<close> have "length (dec_nat (n div 10)) \<le> k'" by simp
    with False k show ?thesis by (simp add: dec_nat.simps [of n])
  qed
qed

text \<open>C integer division truncates towards zero.\<close>

definition c_div :: "int \<Rightarrow> int \<Rightarrow> int" where
  "c_div a b = sgn a * sgn b * (\<bar>a\<bar> div \<bar>b\<bar>)"

lemma c_div_nonneg [simp]: "0 \<le> a \<Longrightarrow> 0 < b \<Longrightarrow> c_div a b = a div b"
  by (cases "a = 0") (simp_all add: c_div_def)

text \<open>Conversion of a floating value to an integer type truncates towards zero.\<close>

definition c_trunc :: "rat \<Rightarrow> int" where
  "c_trunc x = (if 0 \<le> x then \<lfloor>x\<rfloor> else \<lceil>x\<rceil>)"

text \<open>
  \<open>strtol(s, &end, 10)\<close>: white space, a sign, digits; the value saturates at the bounds of
  \<open>long\<close>. With no digit the value is 0 and \<open>end\<close> is \<open>s\<close> itself. The result is the value and
  the rest of the string at \<open>end\<close>, or \<open>None\<close> when nothing was converted.
\<close>

definition is_space :: "char \<Rightarrow> bool" where
  "is_space c \<longleftrightarrow> c = CHR '' '' \<or> (9 \<le> (of_char c :: nat) \<and> (of_char c :: nat) \<le> 13)"

definition is_digit :: "char \<Rightarrow> bool" where
  "is_digit c \<longleftrightarrow> 48 \<le> (of_char c :: nat) \<and> (of_char c :: nat) \<le> 57"

definition digit_val :: "char \<Rightarrow> int" where
  "digit_val c = of_char c - 48"

definition digits_val :: "string \<Rightarrow> int" where
  "digits_val ds = foldl (\<lambda>n c. 10 * n + digit_val c) 0 ds"

definition long_saturate :: "int \<Rightarrow> int" where
  "long_saturate n = max (- (2 ^ 63)) (min (2 ^ 63 - 1) n)"

definition strtol10 :: "string \<Rightarrow> (int \<times> string) option" where
  "strtol10 s =
     (let t = dropWhile is_space s;
          neg = (t \<noteq> [] \<and> hd t = CHR ''-'');
          u = (if t \<noteq> [] \<and> (hd t = CHR ''-'' \<or> hd t = CHR ''+'') then tl t else t);
          ds = takeWhile is_digit u
      in if ds = [] then None
         else Some (long_saturate (if neg then - digits_val ds else digits_val ds),
                    dropWhile is_digit u))"

text \<open>\<open>(int)\<close> of a \<open>long\<close> keeps the low 32 bits as two's complement; \<open>atoi\<close> is
  \<open>(int)strtol(s, NULL, 10)\<close>, \<open>atoll\<close> the 64-bit value.\<close>

definition int_of_long :: "int \<Rightarrow> int" where
  "int_of_long n = signed_take_bit 31 n"

definition c_atoi :: "string \<Rightarrow> int" where
  "c_atoi s = (case strtol10 s of None \<Rightarrow> 0 | Some (v, _) \<Rightarrow> int_of_long v)"

definition c_atoll :: "string \<Rightarrow> int" where
  "c_atoll s = (case strtol10 s of None \<Rightarrow> 0 | Some (v, _) \<Rightarrow> v)"

lemma int_of_long_id: "- (2 ^ 31) \<le> n \<Longrightarrow> n < 2 ^ 31 \<Longrightarrow> int_of_long n = n"
  unfolding int_of_long_def by (rule signed_take_bit_int_eq_self) simp_all

end
