(* ===== verification/Task_Machine.thy ===== *)
theory Task_Machine
  imports Prelude
begin

text \<open>
  The interface between the cooperative scheduler and the tasks it runs. A task is a state
  machine: every scheduler round calls its taskwork function once, which moves it by one step.
  The scheduler promises nothing but to call again, so what a task owes its callers is that it
  \<^emph>\<open>settles\<close>: whatever the environment delivers in each round, it reaches a resting state after
  a bounded number of calls. The locale states the contract as a measure that every step of an
  unsettled task decreases, and derives the bound; the connection task and the instance task of
  the server are both instances of it. The environment's input of a round (bytes read, which
  allocations succeed) is the parameter of the step, restricted to the inputs \<open>ok\<close>.
\<close>

text \<open>A task run over the inputs of successive scheduler rounds.\<close>

fun run_task :: "('i \<Rightarrow> 's \<Rightarrow> 's) \<Rightarrow> 'i list \<Rightarrow> 's \<Rightarrow> 's" where
  "run_task step [] s = s"
| "run_task step (i # is) s = run_task step is (step i s)"

lemma run_task_append: "run_task step (is @ js) s = run_task step js (run_task step is s)"
  by (induction "is" arbitrary: s) simp_all

lemma run_task_invariant:
  assumes "\<And>i s. P s \<Longrightarrow> P (step i s)" and "P s"
  shows "P (run_task step is s)"
  using assms(2) by (induction "is" arbitrary: s) (simp_all add: assms(1))

locale settling_task =
  fixes step :: "'i \<Rightarrow> 's \<Rightarrow> 's"
    and ok :: "'i \<Rightarrow> bool"
    and inv :: "'s \<Rightarrow> bool"
    and settled :: "'s \<Rightarrow> bool"
    and rank :: "'s \<Rightarrow> nat"
  assumes inv_step: "inv s \<Longrightarrow> ok i \<Longrightarrow> inv (step i s)"
    and rank_step: "inv s \<Longrightarrow> ok i \<Longrightarrow> \<not> settled s \<Longrightarrow> rank (step i s) < rank s"
begin

lemma inv_run: "inv s \<Longrightarrow> \<forall>i \<in> set is. ok i \<Longrightarrow> inv (run_task step is s)"
  by (induction "is" arbitrary: s) (simp_all add: inv_step)

text \<open>With at least \<open>rank s\<close> rounds ahead and one to spare, some prefix of them settles the task.\<close>

lemma settles:
  assumes "inv s" and "\<forall>i \<in> set is. ok i" and "rank s < length is"
  shows "\<exists>n \<le> rank s. settled (run_task step (take n is) s)"
  using assms
proof (induction "is" arbitrary: s)
  case Nil
  then show ?case by simp
next
  case (Cons i "is")
  show ?case
  proof (cases "settled s")
    case True
    then have "settled (run_task step (take 0 (i # is)) s)" by simp
    then show ?thesis by blast
  next
    case False
    with Cons.prems have less: "rank (step i s) < rank s" by (simp add: rank_step)
    with Cons.prems obtain n where "n \<le> rank (step i s)"
        and n: "settled (run_task step (take n is) (step i s))"
      using Cons.IH [of "step i s"] by (auto simp: inv_step)
    moreover from n have "settled (run_task step (take (Suc n) (i # is)) s)" by simp
    ultimately show ?thesis using less by (meson Suc_leI le_less_trans)
  qed
qed

end

end
