(* ===== verification/Config_Text.thy ===== *)
theory Config_Text
  imports Prelude
begin

text \<open>
  The \<open>key=value\<close> configuration text of the server (\<open>server/src/opti/opti_instance.c\<close>): the growing
  text buffer (\<open>osi_append_text\<close>), the lookup of a key (\<open>osi_copy_config_value\<close>), the table of
  editable keys (\<open>osi_config_updates\<close>), the parser of a posted body (\<open>osi_parse_config_updates\<close>) and
  the merge of the update into an existing file (\<open>osi_merge_config_updates\<close>). The buffer is used
  through the locale \<open>append_buffer\<close>; the theorems say what the merged file is and that reading a
  key back from it gives what was posted.
\<close>

section \<open>The growing text buffer\<close>

text \<open>\<open>tb_buffer\<close> is the NULL pointer or the bytes written so far (the first \<open>used\<close> bytes).\<close>

record text_buf =
  tb_buffer :: "string option"
  tb_used :: nat
  tb_capacity :: nat

definition empty_buf :: text_buf where
  "empty_buf = \<lparr>tb_buffer = None, tb_used = 0, tb_capacity = 0\<rparr>"

text \<open>The doubling loop. Its callers start it at 512 or at a capacity that is not 0.\<close>

function grow_capacity :: "nat \<Rightarrow> nat \<Rightarrow> nat" where
  "grow_capacity cap need =
     (if 0 < cap \<and> cap < need then grow_capacity (2 * cap) need else cap)"
  by pat_completeness auto
termination
  by (relation "measure (\<lambda>(cap, need). need - cap)") auto

declare grow_capacity.simps [simp del]

definition osi_append_text :: "allocator \<Rightarrow> text_buf \<Rightarrow> string \<Rightarrow> text_buf result" where
  "osi_append_text mem b text =
     (let need = tb_used b + length text + 1;
          old = (case tb_buffer b of None \<Rightarrow> [] | Some s \<Rightarrow> s)
      in if tb_buffer b = None \<or> tb_capacity b < need
         then let cap = grow_capacity (if tb_capacity b = 0 then 512 else tb_capacity b) need
              in if mem cap
                 then Inr \<lparr>tb_buffer = Some (old @ text), tb_used = tb_used b + length text,
                           tb_capacity = cap\<rparr>
                 else Inl ERR_NO_MEMORY
         else Inr (b\<lparr>tb_buffer := Some (old @ text), tb_used := tb_used b + length text\<rparr>))"

text \<open>A sequence of appends that stops at the first failure, as the callers write it out.\<close>

fun append_texts :: "('b \<Rightarrow> string \<Rightarrow> 'b result) \<Rightarrow> 'b \<Rightarrow> string list \<Rightarrow> 'b result" where
  "append_texts app b [] = Inr b"
| "append_texts app b (t # ts) =
     (case app b t of Inl e \<Rightarrow> Inl e | Inr b' \<Rightarrow> append_texts app b' ts)"

locale append_buffer =
  fixes app :: "'b \<Rightarrow> string \<Rightarrow> 'b result"
    and content :: "'b \<Rightarrow> string"
    and inv :: "'b \<Rightarrow> bool"
  assumes app_content: "inv b \<Longrightarrow> app b t = Inr b' \<Longrightarrow> content b' = content b @ t"
    and app_inv: "inv b \<Longrightarrow> app b t = Inr b' \<Longrightarrow> inv b'"
    and app_error: "app b t = Inl e \<Longrightarrow> e = ERR_NO_MEMORY"
begin

lemma append_texts_content:
  "inv b \<Longrightarrow> append_texts app b ts = Inr b' \<Longrightarrow> content b' = content b @ concat ts \<and> inv b'"
proof (induction ts arbitrary: b)
  case Nil
  then show ?case by simp
next
  case (Cons t ts)
  then obtain c where c: "app b t = Inr c" "append_texts app c ts = Inr b'"
    by (auto split: sum.splits)
  with Cons.prems have "content c = content b @ t" "inv c"
    by (auto intro: app_content app_inv)
  with Cons.IH c show ?case by auto
qed

lemma append_texts_error: "append_texts app b ts = Inl e \<Longrightarrow> e = ERR_NO_MEMORY"
  by (induction ts arbitrary: b) (auto split: sum.splits dest: app_error)

end

definition buf_content :: "text_buf \<Rightarrow> string" where
  "buf_content b = (case tb_buffer b of None \<Rightarrow> [] | Some s \<Rightarrow> s)"

text \<open>The invariant: a NULL buffer has no capacity, any other holds its text and the NUL.\<close>

definition buf_ok :: "text_buf \<Rightarrow> bool" where
  "buf_ok b \<longleftrightarrow> (case tb_buffer b of
      None \<Rightarrow> tb_used b = 0 \<and> tb_capacity b = 0
    | Some s \<Rightarrow> length s = tb_used b \<and> tb_used b + 1 \<le> tb_capacity b)"

lemma grow_capacity_ge: "0 < cap \<Longrightarrow> need \<le> grow_capacity cap need"
proof (induction cap need rule: grow_capacity.induct)
  case (1 cap need)
  then show ?case
    by (cases "cap < need") (simp_all add: grow_capacity.simps [of cap need])
qed

lemma append_text_cases:
  assumes "osi_append_text mem b t = Inr b'"
  shows "tb_buffer b' = Some (buf_content b @ t)"
    and "tb_used b' = tb_used b + length t"
    and "tb_capacity b' = tb_capacity b \<and> tb_used b + length t + 1 \<le> tb_capacity b
       \<or> tb_used b + length t + 1 \<le> tb_capacity b'"
proof -
  let ?cap = "if tb_capacity b = 0 then 512 else tb_capacity b"
  let ?need = "tb_used b + length t + 1"
  have g: "?need \<le> grow_capacity ?cap ?need" by (rule grow_capacity_ge) simp
  show "tb_buffer b' = Some (buf_content b @ t)" "tb_used b' = tb_used b + length t"
    using assms by (auto simp: osi_append_text_def buf_content_def Let_def split: if_splits)
  show "tb_capacity b' = tb_capacity b \<and> ?need \<le> tb_capacity b \<or> ?need \<le> tb_capacity b'"
  proof (cases "tb_buffer b = None \<or> tb_capacity b < ?need")
    case True
    then have "tb_capacity b' = grow_capacity ?cap ?need"
      using assms by (auto simp: osi_append_text_def Let_def split: if_splits)
    with g show ?thesis by simp
  next
    case False
    with assms show ?thesis by (auto simp: osi_append_text_def Let_def)
  qed
qed

lemma append_text_ok:
  assumes "buf_ok b" and "osi_append_text mem b t = Inr b'"
  shows "buf_content b' = buf_content b @ t" and "buf_ok b'"
  using assms(1) append_text_cases [OF assms(2)]
  by (auto simp: buf_ok_def buf_content_def split: option.splits)

interpretation text_buffer: append_buffer "osi_append_text mem" buf_content buf_ok for mem
proof unfold_locales
  show "osi_append_text mem b t = Inl e \<Longrightarrow> e = ERR_NO_MEMORY" for b t e
    by (auto simp: osi_append_text_def Let_def split: if_splits)
qed (fact append_text_ok)+

lemma empty_buf_ok [simp]: "buf_ok empty_buf" "buf_content empty_buf = []"
  by (simp_all add: empty_buf_def buf_ok_def buf_content_def)

lemma append_text_unlimited: "\<exists>b'. osi_append_text mem_unlimited b t = Inr b'"
  by (auto simp: osi_append_text_def mem_unlimited_def Let_def)

lemma append_texts_unlimited: "\<exists>b'. append_texts (osi_append_text mem_unlimited) b ts = Inr b'"
proof (induction ts arbitrary: b)
  case (Cons t ts)
  then show ?case using append_text_unlimited [of b t] by (auto split: sum.splits)
qed simp

lemma append_text_not_null: "osi_append_text mem b t = Inr b' \<Longrightarrow> tb_buffer b' \<noteq> None"
  by (auto simp: osi_append_text_def Let_def split: if_splits)

lemma append_texts_not_null:
  "append_texts (osi_append_text mem) b ts = Inr b' \<Longrightarrow> ts \<noteq> [] \<or> tb_buffer b \<noteq> None \<Longrightarrow>
   tb_buffer b' \<noteq> None"
  by (induction ts arbitrary: b) (auto split: sum.splits dest: append_text_not_null)

section \<open>Looking a key up\<close>

text \<open>The loop of \<open>osi_copy_config_value\<close> over the lines of the text.\<close>

fun copy_config_lines :: "string \<Rightarrow> nat \<Rightarrow> (string \<times> bool) list \<Rightarrow> string result" where
  "copy_config_lines key out_size [] = Inl ERR_NOT_FOUND"
| "copy_config_lines key out_size ((line, nl) # rest) =
     (let body = chomp line
      in if length body \<le> length key + 1 then copy_config_lines key out_size rest
         else if take (length key) body \<noteq> key \<or> body ! length key \<noteq> CHR ''=''
         then copy_config_lines key out_size rest
         else let value = drop (length key + 1) body
              in if out_size \<le> length value then Inl ERR_INVALID_ARG else Inr value)"

text \<open>On an error the output buffer holds the empty string.\<close>

definition osi_copy_config_value :: "string \<Rightarrow> string \<Rightarrow> nat \<Rightarrow> string result" where
  "osi_copy_config_value text key out_size =
     (if out_size = 0 then Inl ERR_INVALID_ARG
      else copy_config_lines key out_size (text_lines (cstr text)))"

section \<open>The table of editable keys\<close>

record config_update =
  cu_key :: string
  cu_value :: string
  cu_has_value :: bool
  cu_was_written :: bool

definition editable_keys :: "string list" where
  "editable_keys = [''name'', ''currency'', ''energy_zone'', ''latitude'', ''longitude'',
                    ''panel.tilt'', ''panel.azimuth'', ''panel.m2_size'']"

definition osi_config_updates :: "config_update list" where
  "osi_config_updates =
     map (\<lambda>k. \<lparr>cu_key = k, cu_value = [], cu_has_value = False, cu_was_written = False\<rparr>)
         editable_keys"

definition osi_reset_config_updates :: "config_update list \<Rightarrow> config_update list" where
  "osi_reset_config_updates tbl =
     map (\<lambda>u. u\<lparr>cu_value := [], cu_has_value := False, cu_was_written := False\<rparr>) tbl"

text \<open>The index of the first entry whose key is the slice. The code compares the lengths and then
  that many bytes, which is equality, as the keys hold no NUL.\<close>

fun osi_find_config_update :: "config_update list \<Rightarrow> string \<Rightarrow> nat option" where
  "osi_find_config_update [] key = None"
| "osi_find_config_update (u # us) key =
     (if cu_key u = key then Some 0 else map_option Suc (osi_find_config_update us key))"

section \<open>Parsing a posted update\<close>

definition before_eq :: "string \<Rightarrow> string" where
  "before_eq l = takeWhile (\<lambda>c. c \<noteq> CHR ''='') l"

definition after_eq :: "string \<Rightarrow> string" where
  "after_eq l = drop 1 (dropWhile (\<lambda>c. c \<noteq> CHR ''='') l)"

text \<open>
  The write \<open>filename[len] = 0\<close> into the block of \<open>len\<close> bytes that the \<open>name\<close> branch allocates
  is kept as a pair: the size of the block and the index written.
\<close>

definition config_value_size :: nat where
  "config_value_size = 128"

definition filename_write :: "allocator \<Rightarrow> string \<Rightarrow> (nat \<times> nat) list" where
  "filename_write mem value =
     (let len = length value + length ''/etc/maestro/facility/'' + length ''.conf'' + 1
      in if mem len then [(len, len)] else [])"

fun osi_parse_config_lines ::
  "allocator \<Rightarrow> (string \<times> bool) list \<Rightarrow> config_update list \<Rightarrow> (nat \<times> nat) list
   \<Rightarrow> status \<times> config_update list \<times> (nat \<times> nat) list" where
  "osi_parse_config_lines mem [] tbl ws = (SUCCESS, tbl, ws)"
| "osi_parse_config_lines mem ((line, nl) # rest) tbl ws =
     (let l = chomp line
      in if l = [] \<or> CHR ''='' \<notin> set l then osi_parse_config_lines mem rest tbl ws
         else case osi_find_config_update tbl (before_eq l) of
           None \<Rightarrow> (ERR_INVALID_ARG, tbl, ws)
         | Some i \<Rightarrow>
             if config_value_size \<le> length (after_eq l) then (ERR_INVALID_ARG, tbl, ws)
             else osi_parse_config_lines mem rest
                    (tbl[i := (tbl ! i)\<lparr>cu_value := after_eq l, cu_has_value := True\<rparr>])
                    (if cu_key (tbl ! i) = ''name''
                     then ws @ filename_write mem (after_eq l) else ws))"

definition osi_parse_config_updates ::
  "allocator \<Rightarrow> string option \<Rightarrow> int \<Rightarrow> config_update list
   \<Rightarrow> status \<times> config_update list \<times> (nat \<times> nat) list" where
  "osi_parse_config_updates mem body body_len tbl =
     (case body of
        None \<Rightarrow> (ERR_INVALID_ARG, tbl, [])
      | Some b \<Rightarrow>
          if body_len \<le> 0 then (ERR_INVALID_ARG, tbl, [])
          else osi_parse_config_lines mem (text_lines (take (nat body_len) b))
                 (osi_reset_config_updates tbl) [])"

section \<open>Merging the update into a file\<close>

text \<open>The entry of the table that a line of the file names, if the line holds an \<open>=\<close>.\<close>

definition line_update :: "config_update list \<Rightarrow> string \<Rightarrow> nat option" where
  "line_update tbl line =
     (let l = chomp line
      in if CHR ''='' \<in> set l then osi_find_config_update tbl (before_eq l) else None)"

definition update_texts :: "config_update \<Rightarrow> string list" where
  "update_texts u = [cu_key u, ''='', cstr (cu_value u), [NL]]"

fun osi_merge_lines ::
  "allocator \<Rightarrow> (string \<times> bool) list \<Rightarrow> config_update list \<Rightarrow> text_buf
   \<Rightarrow> text_buf result \<times> config_update list" where
  "osi_merge_lines mem [] tbl b = (Inr b, tbl)"
| "osi_merge_lines mem ((line, nl) # rest) tbl b =
     (case line_update tbl line of
        Some i \<Rightarrow>
          if cu_has_value (tbl ! i)
          then case append_texts (osi_append_text mem) b (update_texts (tbl ! i)) of
                 Inl e \<Rightarrow> (Inl e, tbl)
               | Inr b' \<Rightarrow> osi_merge_lines mem rest
                             (tbl[i := (tbl ! i)\<lparr>cu_was_written := True\<rparr>]) b'
          else (case append_texts (osi_append_text mem) b
                       (line # (if nl then [[NL]] else [])) of
                  Inl e \<Rightarrow> (Inl e, tbl)
                | Inr b' \<Rightarrow> osi_merge_lines mem rest tbl b')
      | None \<Rightarrow>
          (case append_texts (osi_append_text mem) b (line # (if nl then [[NL]] else [])) of
             Inl e \<Rightarrow> (Inl e, tbl)
           | Inr b' \<Rightarrow> osi_merge_lines mem rest tbl b'))"

fun osi_merge_missing ::
  "allocator \<Rightarrow> config_update list \<Rightarrow> text_buf \<Rightarrow> text_buf result" where
  "osi_merge_missing mem [] b = Inr b"
| "osi_merge_missing mem (u # us) b =
     (if \<not> cu_has_value u \<or> cu_was_written u then osi_merge_missing mem us b
      else case append_texts (osi_append_text mem) b (update_texts u) of
             Inl e \<Rightarrow> Inl e
           | Inr b' \<Rightarrow> osi_merge_missing mem us b')"

text \<open>The merged text, or NULL when nothing was appended, and the table afterwards.\<close>

definition osi_merge_config_updates ::
  "allocator \<Rightarrow> string \<Rightarrow> config_update list \<Rightarrow> (string option) result \<times> config_update list" where
  "osi_merge_config_updates mem existing tbl =
     (case osi_merge_lines mem (text_lines (cstr existing)) tbl empty_buf of
        (Inl e, t) \<Rightarrow> (Inl e, t)
      | (Inr b, t) \<Rightarrow>
          (case osi_merge_missing mem t b of
             Inl e \<Rightarrow> (Inl e, t)
           | Inr b' \<Rightarrow> (Inr (tb_buffer b'), t)))"

section \<open>Lemmas on keys and lines\<close>

definition line_key :: "string \<Rightarrow> string option" where
  "line_key line =
     (let l = chomp line in if CHR ''='' \<in> set l then Some (before_eq l) else None)"

definition line_value :: "string \<Rightarrow> string" where
  "line_value line = after_eq (chomp line)"

lemma eq_notin_before_eq [simp]: "CHR ''='' \<notin> set (before_eq l)"
  by (auto simp: before_eq_def dest: set_takeWhileD)

lemma before_eq_append [text_simps]: "CHR ''='' \<notin> set k \<Longrightarrow> before_eq (k @ CHR ''='' # v) = k"
  unfolding before_eq_def by (subst takeWhile_append2) auto

lemma after_eq_append [text_simps]: "CHR ''='' \<notin> set k \<Longrightarrow> after_eq (k @ CHR ''='' # v) = v"
  unfolding after_eq_def by (subst dropWhile_append2) auto

lemma split_at_eq: "CHR ''='' \<in> set l \<Longrightarrow> l = before_eq l @ CHR ''='' # after_eq l"
proof (induction l)
  case (Cons c l)
  then show ?case by (cases "c = CHR ''=''") (auto simp: before_eq_def after_eq_def)
qed simp

lemma set_after_eq: "set (after_eq l) \<subseteq> set l"
  unfolding after_eq_def by (meson set_drop_subset set_dropWhileD subset_iff)

lemma set_chomp: "set (chomp l) \<subseteq> set l"
  by (auto simp: chomp_def dest: in_set_butlastD)

lemma chomp_assignment [text_simps]: "chomp (k @ CHR ''='' # v) = k @ CHR ''='' # chomp v"
  by (cases v rule: rev_cases) (auto simp: chomp_def butlast_append)

lemma line_key_assignment [text_simps]:
  "CHR ''='' \<notin> set k \<Longrightarrow> line_key (k @ CHR ''='' # v) = Some k"
  "CHR ''='' \<notin> set k \<Longrightarrow> line_value (k @ CHR ''='' # v) = chomp v"
  by (simp_all add: line_key_def line_value_def text_simps)

lemma line_key_no_eq: "line_key l = Some k \<Longrightarrow> CHR ''='' \<notin> set k"
  by (auto simp: line_key_def Let_def split: if_splits)

text \<open>One turn of the lookup loop, in terms of the key and the value of the line.\<close>

definition value_result :: "nat \<Rightarrow> string \<Rightarrow> string result" where
  "value_result n v = (if n \<le> length v then Inl ERR_INVALID_ARG else Inr v)"

lemma copy_hit_iff:
  assumes "CHR ''='' \<notin> set key"
  shows "(length key + 1 < length l \<and> take (length key) l = key \<and> l ! length key = CHR ''='')
     \<longleftrightarrow> (CHR ''='' \<in> set l \<and> before_eq l = key \<and> after_eq l \<noteq> [])" (is "?L \<longleftrightarrow> ?R")
proof
  assume ?L
  then have "l = key @ CHR ''='' # drop (length key + 1) l"
    by (metis Suc_eq_plus1 Suc_lessD append_take_drop_id Cons_nth_drop_Suc add_lessD1)
  moreover have "drop (length key + 1) l \<noteq> []" using \<open>?L\<close> by simp
  ultimately obtain v where l: "l = key @ CHR ''='' # v" and "v \<noteq> []" by blast
  with assms show ?R by (simp add: text_simps)
next
  assume R: ?R
  then have "l = key @ CHR ''='' # after_eq l" using split_at_eq by metis
  then obtain v where "l = key @ CHR ''='' # v" "v \<noteq> []" using R by metis
  then show ?L by (cases v) auto
qed

lemma copy_config_lines_Cons:
  assumes "CHR ''='' \<notin> set key"
  shows "copy_config_lines key n ((line, nl) # rest) =
     (if line_key line = Some key \<and> line_value line \<noteq> [] then value_result n (line_value line)
      else copy_config_lines key n rest)"
proof -
  let ?l = "chomp line"
  have hit: "line_key line = Some key \<and> line_value line \<noteq> [] \<longleftrightarrow>
      length key + 1 < length ?l \<and> take (length key) ?l = key \<and> ?l ! length key = CHR ''=''"
    unfolding copy_hit_iff [OF assms] by (auto simp: line_key_def line_value_def Let_def)
  show ?thesis
  proof (cases "line_key line = Some key \<and> line_value line \<noteq> []")
    case True
    then have "CHR ''='' \<in> set ?l" "before_eq ?l = key"
      by (auto simp: line_key_def Let_def split: if_splits)
    then have "?l = key @ CHR ''='' # line_value line"
      unfolding line_value_def using split_at_eq by metis
    then have "drop (length key + 1) ?l = line_value line" by (metis append_eq_conv_conj drop_Suc
          drop_drop list.sel(3) add.commute plus_1_eq_Suc drop_0)
    with True hit show ?thesis by (auto simp: value_result_def Let_def)
  next
    case False
    with hit show ?thesis by (auto simp: Let_def)
  qed
qed

declare copy_config_lines.simps(2) [simp del]

lemma copy_lines_not_found:
  "CHR ''='' \<notin> set key \<Longrightarrow>
   \<forall>(l, nl) \<in> set ls. line_key l = Some key \<longrightarrow> line_value l = [] \<Longrightarrow>
   copy_config_lines key n ls = Inl ERR_NOT_FOUND"
  by (induction ls) (auto simp: copy_config_lines_Cons)

lemma copy_lines_found:
  "CHR ''='' \<notin> set key \<Longrightarrow>
   \<forall>(l, nl) \<in> set ls. line_key l = Some key \<longrightarrow> line_value l = v \<Longrightarrow>
   Some key \<in> line_key ` fst ` set ls \<Longrightarrow> v \<noteq> [] \<Longrightarrow>
   copy_config_lines key n ls = value_result n v"
proof (induction ls)
  case (Cons x ls)
  then show ?case by (cases x; cases "line_key (fst x) = Some key")
    (auto simp: copy_config_lines_Cons)
qed simp

lemma copy_lines_append_other:
  "CHR ''='' \<notin> set key \<Longrightarrow> \<forall>(l, nl) \<in> set ms. line_key l \<noteq> Some key \<Longrightarrow>
   copy_config_lines key n (ls @ ms) = copy_config_lines key n ls"
proof (induction ls)
  case Nil
  then show ?case by (auto intro!: copy_lines_not_found)
next
  case (Cons x ls)
  then show ?case by (cases x) (simp add: copy_config_lines_Cons)
qed

section \<open>The table\<close>

lemma find_update_Some:
  "osi_find_config_update tbl k = Some i \<Longrightarrow> i < length tbl \<and> cu_key (tbl ! i) = k"
proof (induction tbl arbitrary: i)
  case (Cons u us)
  then show ?case by (auto split: if_splits)
qed simp

lemma find_update_None: "osi_find_config_update tbl k = None \<longleftrightarrow> k \<notin> cu_key ` set tbl"
  by (induction tbl) auto

lemma find_update_keys:
  "map cu_key t1 = map cu_key t2 \<Longrightarrow> osi_find_config_update t1 k = osi_find_config_update t2 k"
proof (induction t1 arbitrary: t2)
  case (Cons u us)
  then show ?case by (cases t2) auto
qed simp

lemma find_update_nth:
  "distinct (map cu_key tbl) \<Longrightarrow> i < length tbl \<Longrightarrow>
   osi_find_config_update tbl (cu_key (tbl ! i)) = Some i"
proof (induction tbl arbitrary: i)
  case (Cons u us)
  then show ?case by (cases i) auto
qed simp

lemma map_key_update [simp]:
  "i < length tbl \<Longrightarrow> cu_key u = cu_key (tbl ! i) \<Longrightarrow>
   map cu_key (tbl[i := u]) = map cu_key tbl"
  by (metis list_update_id map_update nth_map)

text \<open>The abstraction of the table: the value that the update holds for a key, if any.\<close>

definition pending :: "config_update list \<Rightarrow> string \<Rightarrow> string option" where
  "pending tbl k = (case osi_find_config_update tbl k of
      None \<Rightarrow> None
    | Some i \<Rightarrow> if cu_has_value (tbl ! i) then Some (cstr (cu_value (tbl ! i))) else None)"

definition table_ok :: "config_update list \<Rightarrow> bool" where
  "table_ok tbl \<longleftrightarrow> map cu_key tbl = editable_keys
     \<and> (\<forall>u \<in> set tbl. NL \<notin> set (cu_value u) \<and> length (cu_value u) < config_value_size
          \<and> \<not> cu_was_written u)"

lemma editable_keys_ok:
  "distinct editable_keys" "k \<in> set editable_keys \<Longrightarrow> CHR ''='' \<notin> set k"
  "k \<in> set editable_keys \<Longrightarrow> NL \<notin> set k" "k \<in> set editable_keys \<Longrightarrow> NUL \<notin> set k"
  by (auto simp: editable_keys_def)

lemma table_ok_distinct: "table_ok tbl \<Longrightarrow> distinct (map cu_key tbl)"
  by (simp add: table_ok_def editable_keys_ok)

lemma table_ok_key: "table_ok tbl \<Longrightarrow> u \<in> set tbl \<Longrightarrow> cu_key u \<in> set editable_keys"
  by (metis table_ok_def image_eqI set_map)

lemma config_updates_ok: "table_ok osi_config_updates"
  by (simp add: table_ok_def osi_config_updates_def config_value_size_def comp_def)

lemma reset_ok: "map cu_key tbl = editable_keys \<Longrightarrow> table_ok (osi_reset_config_updates tbl)"
  by (auto simp: table_ok_def osi_reset_config_updates_def config_value_size_def comp_def)

lemma pending_reset [simp]: "pending (osi_reset_config_updates tbl) k = None"
  by (auto simp: pending_def osi_reset_config_updates_def split: option.splits
      dest!: find_update_Some)

lemma pending_Some_nth:
  assumes "distinct (map cu_key tbl)" and "i < length tbl"
  shows "pending tbl (cu_key (tbl ! i)) =
     (if cu_has_value (tbl ! i) then Some (cstr (cu_value (tbl ! i))) else None)"
  using find_update_nth [OF assms] by (simp add: pending_def)

lemma pending_update:
  assumes "i < length tbl" and "cu_key u = cu_key (tbl ! i)" and "distinct (map cu_key tbl)"
  shows "pending (tbl[i := u]) k =
    (if k = cu_key u then (if cu_has_value u then Some (cstr (cu_value u)) else None)
     else pending tbl k)"
proof -
  have f: "osi_find_config_update (tbl[i := u]) k = osi_find_config_update tbl k" for k
    by (rule find_update_keys) (simp add: assms)
  show ?thesis
  proof (cases "k = cu_key u")
    case True
    then have "osi_find_config_update tbl k = Some i"
      using find_update_nth [OF assms(3,1)] assms(2) by simp
    with True f assms(1) show ?thesis by (simp add: pending_def)
  next
    case False
    then have "osi_find_config_update tbl k \<noteq> Some i"
      using find_update_Some assms(2) by metis
    with False f assms(1) show ?thesis
      by (cases "osi_find_config_update tbl k") (auto simp: pending_def)
  qed
qed

section \<open>What the merge writes\<close>

definition update_text :: "config_update \<Rightarrow> string" where
  "update_text u = cu_key u @ CHR ''='' # cstr (cu_value u)"

definition merged_line :: "config_update list \<Rightarrow> string \<times> bool \<Rightarrow> string" where
  "merged_line tbl x =
     (case Option.bind (line_key (fst x)) (\<lambda>k. map_option (Pair k) (pending tbl k)) of
        Some (k, v) \<Rightarrow> k @ CHR ''='' # v @ [NL]
      | None \<Rightarrow> fst x @ (if snd x then [NL] else []))"

definition named_keys :: "(string \<times> bool) list \<Rightarrow> string option set" where
  "named_keys ls = line_key ` fst ` set ls"

definition missing_updates :: "config_update list \<Rightarrow> (string \<times> bool) list \<Rightarrow> config_update list" where
  "missing_updates tbl ls = filter (\<lambda>u. cu_has_value u \<and> \<not> cu_was_written u
      \<and> Some (cu_key u) \<notin> named_keys ls) tbl"

text \<open>The specification of the merge: every line that names a key of the update is replaced, the
  other lines are kept, and the keys of the update that no line named follow.\<close>

definition merge_spec :: "string \<Rightarrow> config_update list \<Rightarrow> string" where
  "merge_spec existing tbl =
     (let ls = text_lines (cstr existing)
      in concat (map (merged_line tbl) ls)
         @ concat (map (\<lambda>u. update_text u @ [NL]) (missing_updates tbl ls)))"

definition mark_written :: "config_update list \<Rightarrow> (string \<times> bool) list \<Rightarrow> config_update list" where
  "mark_written tbl ls = map (\<lambda>u. if cu_has_value u \<and> Some (cu_key u) \<in> named_keys ls
      then u\<lparr>cu_was_written := True\<rparr> else u) tbl"

lemma concat_update_texts: "concat (update_texts u) = update_text u @ [NL]"
  by (simp add: update_texts_def update_text_def)

lemma line_update_key:
  "line_update tbl line = Option.bind (line_key line) (osi_find_config_update tbl)"
  by (simp add: line_update_def line_key_def Let_def)

lemma merged_line_written [simp]:
  assumes "i < length tbl" "distinct (map cu_key tbl)"
  shows "merged_line (tbl[i := (tbl ! i)\<lparr>cu_was_written := True\<rparr>]) = merged_line tbl"
proof -
  have "pending (tbl[i := (tbl ! i)\<lparr>cu_was_written := True\<rparr>]) k = pending tbl k" for k
    using pending_update [OF assms(1) _ assms(2), of "(tbl ! i)\<lparr>cu_was_written := True\<rparr>"]
      pending_Some_nth [OF assms(2,1)] by simp
  then show ?thesis by (simp add: merged_line_def fun_eq_iff)
qed

lemma mark_written_Cons_hit:
  assumes "line_key line = Some k" "osi_find_config_update tbl k = Some i"
    "cu_has_value (tbl ! i)" "distinct (map cu_key tbl)"
  shows "mark_written (tbl[i := (tbl ! i)\<lparr>cu_was_written := True\<rparr>]) ls
       = mark_written tbl ((line, nl) # ls)"
proof (rule nth_equalityI)
  fix j assume "j < length (mark_written (tbl[i := (tbl ! i)\<lparr>cu_was_written := True\<rparr>]) ls)"
  then have j: "j < length tbl" by (simp add: mark_written_def)
  have i: "i < length tbl" "cu_key (tbl ! i) = k" using find_update_Some assms(2) by blast+
  have "cu_key (tbl ! j) = k \<longleftrightarrow> j = i"
    using assms(4) i j by (metis distinct_conv_nth length_map nth_map)
  then show "mark_written (tbl[i := (tbl ! i)\<lparr>cu_was_written := True\<rparr>]) ls ! j
      = mark_written tbl ((line, nl) # ls) ! j"
    using i j assms(1,3) by (auto simp: mark_written_def named_keys_def nth_list_update)
qed (simp add: mark_written_def)

lemma mark_written_Cons_keep:
  assumes "\<And>k. line_key line = Some k \<Longrightarrow> pending tbl k = None" "distinct (map cu_key tbl)"
  shows "mark_written tbl ((line, nl) # ls) = mark_written tbl ls"
proof -
  have "line_key line \<noteq> Some (cu_key u)" if "u \<in> set tbl" "cu_has_value u" for u
    using that assms pending_Some_nth [OF assms(2)] by (metis in_set_conv_nth option.distinct(1))
  then have "\<forall>u \<in> set tbl. cu_has_value u \<longrightarrow> Some (cu_key u) \<noteq> line_key line" by metis
  then show ?thesis by (auto simp: mark_written_def named_keys_def)
qed

lemma merge_lines_ok:
  assumes "osi_merge_lines mem ls tbl b = (Inr b', t)" "buf_ok b" "distinct (map cu_key tbl)"
  shows "buf_content b' = buf_content b @ concat (map (merged_line tbl) ls) \<and> buf_ok b'
       \<and> t = mark_written tbl ls"
  using assms
proof (induction ls arbitrary: tbl b)
  case Nil
  then show ?case by (simp add: mark_written_def named_keys_def)
next
  case (Cons x ls)
  obtain line nl where x: "x = (line, nl)" by (cases x)
  show ?case
  proof (cases "\<exists>i. line_update tbl line = Some i \<and> cu_has_value (tbl ! i)")
    case True
    then obtain i k where k: "line_key line = Some k" "osi_find_config_update tbl k = Some i"
      and h: "cu_has_value (tbl ! i)"
      by (auto simp: line_update_key Option.bind_eq_Some_conv)
    then have i: "i < length tbl" "cu_key (tbl ! i) = k" using find_update_Some by blast+
    let ?tbl = "tbl[i := (tbl ! i)\<lparr>cu_was_written := True\<rparr>]"
    from Cons.prems(1) x k h obtain c where
      c: "append_texts (osi_append_text mem) b (update_texts (tbl ! i)) = Inr c"
      and r: "osi_merge_lines mem ls ?tbl c = (Inr b', t)"
      by (auto simp: line_update_key split: sum.splits)
    have c_ok: "buf_content c = buf_content b @ update_text (tbl ! i) @ [NL]" "buf_ok c"
      using text_buffer.append_texts_content [OF Cons.prems(2) c] by (simp_all add: concat_update_texts)
    have "distinct (map cu_key ?tbl)" using Cons.prems(3) i by simp
    from Cons.IH [OF r c_ok(2) this] have
      "buf_content b' = buf_content c @ concat (map (merged_line tbl) ls)" "buf_ok b'"
      "t = mark_written tbl (x # ls)"
      using i Cons.prems(3) mark_written_Cons_hit [OF k h Cons.prems(3)] x by simp_all
    moreover have "merged_line tbl x = update_text (tbl ! i) @ [NL]"
      using x k h i by (simp add: merged_line_def pending_def update_text_def)
    ultimately show ?thesis using c_ok by simp
  next
    case False
    then have none: "line_key line = Some k \<Longrightarrow> pending tbl k = None" for k
      by (auto simp: line_update_key pending_def split: option.splits)
    let ?ts = "line # (if nl then [[NL]] else [])"
    from Cons.prems(1) x False obtain c where
      c: "append_texts (osi_append_text mem) b ?ts = Inr c"
      and r: "osi_merge_lines mem ls tbl c = (Inr b', t)"
      by (auto split: sum.splits option.splits if_split_asm)
    have c_ok: "buf_content c = buf_content b @ concat ?ts" "buf_ok c"
      using text_buffer.append_texts_content [OF Cons.prems(2) c] by simp_all
    have "merged_line tbl x = concat ?ts"
      using none x by (auto simp: merged_line_def split: bind_splits)
    moreover have "mark_written tbl (x # ls) = mark_written tbl ls"
      unfolding x by (rule mark_written_Cons_keep [OF none Cons.prems(3)])
    ultimately show ?thesis using Cons.IH [OF r c_ok(2) Cons.prems(3)] c_ok by simp
  qed
qed

lemma merge_missing_ok:
  assumes "osi_merge_missing mem us b = Inr b'" "buf_ok b"
  shows "buf_content b' = buf_content b @ concat (map (\<lambda>u. update_text u @ [NL])
           (filter (\<lambda>u. cu_has_value u \<and> \<not> cu_was_written u) us)) \<and> buf_ok b'"
  using assms
proof (induction us arbitrary: b)
  case (Cons u us)
  show ?case
  proof (cases "\<not> cu_has_value u \<or> cu_was_written u")
    case True
    with Cons show ?thesis by auto
  next
    case False
    with Cons.prems obtain c where
      c: "append_texts (osi_append_text mem) b (update_texts u) = Inr c"
      and r: "osi_merge_missing mem us c = Inr b'"
      by (auto split: sum.splits)
    have "buf_content c = buf_content b @ update_text u @ [NL]" "buf_ok c"
      using text_buffer.append_texts_content [OF Cons.prems(2) c] by (simp_all add: concat_update_texts)
    with Cons.IH [OF r] False show ?thesis by simp
  qed
qed simp

lemma filter_mark_written:
  "map f (filter (\<lambda>u. cu_has_value u \<and> \<not> cu_was_written u) (mark_written tbl ls))
     = map f (missing_updates tbl ls)"
  by (induction tbl) (auto simp: mark_written_def missing_updates_def)

lemma merge_lines_unlimited: "\<exists>b' t. osi_merge_lines mem_unlimited ls tbl b = (Inr b', t)"
proof (induction ls arbitrary: tbl b)
  case (Cons x ls)
  obtain line nl where x: "x = (line, nl)" by (cases x)
  have step: "\<exists>b'. append_texts (osi_append_text mem_unlimited) b ts = Inr b'" for ts
    by (rule append_texts_unlimited)
  show ?case
  proof (cases "\<exists>i. line_update tbl line = Some i \<and> cu_has_value (tbl ! i)")
    case True
    then obtain i where i: "line_update tbl line = Some i" "cu_has_value (tbl ! i)" by blast
    obtain c where "append_texts (osi_append_text mem_unlimited) b (update_texts (tbl ! i)) = Inr c"
      using step by blast
    with i Cons.IH show ?thesis by (simp add: x del: append_texts.simps)
  next
    case False
    obtain c where "append_texts (osi_append_text mem_unlimited) b
        (line # (if nl then [[NL]] else [])) = Inr c"
      using step by blast
    with False Cons.IH [of tbl c] show ?thesis
      by (cases "line_update tbl line") (simp_all add: x del: append_texts.simps)
  qed
qed simp

lemma merge_missing_unlimited: "\<exists>b'. osi_merge_missing mem_unlimited us b = Inr b'"
proof (induction us arbitrary: b)
  case (Cons u us)
  then show ?case
    using append_texts_unlimited [of b "update_texts u"] by (auto split: sum.splits)
qed simp

definition text_of :: "string option \<Rightarrow> string" where
  "text_of r = (case r of None \<Rightarrow> [] | Some s \<Rightarrow> s)"

lemma text_of_buffer: "text_of (tb_buffer b) = buf_content b"
  by (simp add: text_of_def buf_content_def)

lemma merge_result:
  assumes "osi_merge_config_updates mem existing tbl = (Inr r, t)" "distinct (map cu_key tbl)"
  shows "text_of r = merge_spec existing tbl"
proof -
  let ?ls = "text_lines (cstr existing)"
  from assms(1) obtain b b' where
    m: "osi_merge_lines mem ?ls tbl empty_buf = (Inr b, t)"
    and e: "osi_merge_missing mem t b = Inr b'" and r: "r = tb_buffer b'"
    by (auto simp: osi_merge_config_updates_def split: prod.splits sum.splits)
  from merge_lines_ok [OF m _ assms(2)] have
    b: "buf_content b = concat (map (merged_line tbl) ?ls)" "buf_ok b" "t = mark_written tbl ?ls"
    by simp_all
  with merge_missing_ok [OF e] show ?thesis
    by (simp add: r text_of_buffer merge_spec_def Let_def filter_mark_written)
qed

lemma merge_total: "\<exists>r t. osi_merge_config_updates mem_unlimited existing tbl = (Inr r, t)"
proof -
  obtain b t where "osi_merge_lines mem_unlimited (text_lines (cstr existing)) tbl empty_buf = (Inr b, t)"
    using merge_lines_unlimited by blast
  moreover obtain b' where "osi_merge_missing mem_unlimited t b = Inr b'"
    using merge_missing_unlimited by blast
  ultimately show ?thesis by (simp add: osi_merge_config_updates_def)
qed

section \<open>Reading a merged text back\<close>

text \<open>The line that the merge writes for a line of the file, without its newline.\<close>

definition new_line :: "config_update list \<Rightarrow> string \<Rightarrow> string" where
  "new_line tbl l =
     (case Option.bind (line_key l) (\<lambda>k. map_option (Pair k) (pending tbl k)) of
        Some (k, v) \<Rightarrow> k @ CHR ''='' # v
      | None \<Rightarrow> l)"

lemma merged_line_terminated: "merged_line tbl (l, True) = new_line tbl l @ [NL]"
  by (auto simp: merged_line_def new_line_def split: bind_splits option.splits)

lemma pending_value_ok:
  assumes "table_ok tbl" "pending tbl k = Some v"
  shows "NL \<notin> set v" "NUL \<notin> set v" "k \<in> set editable_keys"
proof -
  from assms(2) obtain i where f: "osi_find_config_update tbl k = Some i"
    and v: "v = cstr (cu_value (tbl ! i))"
    by (auto simp: pending_def split: option.splits if_splits)
  have i: "tbl ! i \<in> set tbl" "cu_key (tbl ! i) = k" using find_update_Some [OF f] by auto
  show "NUL \<notin> set v" by (simp add: v)
  show "NL \<notin> set v" using assms(1) i set_cstr_subset unfolding v table_ok_def by blast
  show "k \<in> set editable_keys" using table_ok_key [OF assms(1) i(1)] i(2) by simp
qed

lemma new_line_chars:
  assumes "table_ok tbl" "c \<in> {NL, NUL}" "c \<notin> set l"
  shows "c \<notin> set (new_line tbl l)"
  using assms pending_value_ok [OF assms(1)] editable_keys_ok
  by (fastforce simp: new_line_def split: bind_splits option.splits)

lemma line_key_new_line: "line_key (new_line tbl l) = line_key l"
  using line_key_no_eq
  by (auto simp: new_line_def text_simps split: bind_splits option.splits)

lemma line_value_new_line:
  "line_key l = Some k \<Longrightarrow> line_value (new_line tbl l)
     = (case pending tbl k of None \<Rightarrow> line_value l | Some v \<Rightarrow> chomp v)"
  using line_key_no_eq [of l k]
  by (auto simp: new_line_def text_simps split: option.splits)

lemma update_text_line:
  assumes "table_ok tbl" "u \<in> set tbl"
  shows "line_key (update_text u) = Some (cu_key u)"
    and "line_value (update_text u) = chomp (cstr (cu_value u))"
    and "NL \<notin> set (update_text u)" "NUL \<notin> set (update_text u)"
proof -
  have k: "cu_key u \<in> set editable_keys" by (rule table_ok_key [OF assms])
  have "NL \<notin> set (cstr (cu_value u))"
    using assms set_cstr_subset unfolding table_ok_def by blast
  then show "line_key (update_text u) = Some (cu_key u)"
    "line_value (update_text u) = chomp (cstr (cu_value u))"
    "NL \<notin> set (update_text u)" "NUL \<notin> set (update_text u)"
    using editable_keys_ok(2-4) [OF k] by (simp_all add: update_text_def text_simps)
qed

lemma pending_of_member:
  assumes "table_ok tbl" "u \<in> set tbl"
  shows "pending tbl (cu_key u) = (if cu_has_value u then Some (cstr (cu_value u)) else None)"
  using assms pending_Some_nth [OF table_ok_distinct [OF assms(1)]]
  by (auto simp: in_set_conv_nth)

lemma in_missing:
  assumes "table_ok tbl"
  shows "u \<in> set (missing_updates tbl ls) \<longleftrightarrow>
    u \<in> set tbl \<and> cu_has_value u \<and> Some (cu_key u) \<notin> named_keys ls"
  using assms by (auto simp: missing_updates_def table_ok_def)

text \<open>A merged file whose original ends with a newline is a list of whole lines.\<close>

lemma merge_spec_unlines:
  assumes "newline_terminated existing" "NUL \<notin> set existing"
  shows "merge_spec existing tbl =
    unlines (map (new_line tbl) (map fst (text_lines existing))
             @ map update_text (missing_updates tbl (text_lines existing)))"
proof -
  have "map (merged_line tbl) (text_lines existing)
      = map (\<lambda>l. new_line tbl l @ [NL]) (map fst (text_lines existing))"
    by (subst text_lines_terminated [OF assms(1)]) (simp add: merged_line_terminated)
  then show ?thesis using assms(2)
    by (simp add: merge_spec_def Let_def unlines_def comp_def del: map_eq_conv cong: map_cong)
qed

lemma text_lines_cstr_unlines:
  "\<forall>l \<in> set ls. NL \<notin> set l \<and> NUL \<notin> set l \<Longrightarrow>
   text_lines (cstr (unlines ls)) = map (\<lambda>l. (l, True)) ls"
proof -
  assume a: "\<forall>l \<in> set ls. NL \<notin> set l \<and> NUL \<notin> set l"
  then have "NUL \<notin> set (unlines ls)" by (auto simp: unlines_def)
  with a show ?thesis by (simp add: text_lines_unlines)
qed

lemma text_lines_NUL: "(l, nl) \<in> set (text_lines s) \<Longrightarrow> NUL \<notin> set s \<Longrightarrow> NUL \<notin> set l"
proof -
  assume "(l, nl) \<in> set (text_lines s)" "NUL \<notin> set s"
  then have "set l \<subseteq> set (join_lines (text_lines s))" by (force simp: join_lines_def)
  with \<open>NUL \<notin> set s\<close> show ?thesis by (auto simp: join_text_lines)
qed

lemma merge_spec_lines:
  assumes "newline_terminated existing" "NUL \<notin> set existing" "table_ok tbl"
  shows "text_lines (cstr (merge_spec existing tbl)) =
    map (\<lambda>l. (l, True)) (map (new_line tbl) (map fst (text_lines existing))
             @ map update_text (missing_updates tbl (text_lines existing)))" (is "_ = map _ ?L")
proof -
  have "NL \<notin> set l \<and> NUL \<notin> set l" if "l \<in> set ?L" for l
    using that update_text_line(3,4) [OF assms(3)] in_missing [OF assms(3)]
      text_lines_no_nl text_lines_NUL [OF _ assms(2)] new_line_chars [OF assms(3)] by fastforce
  then show ?thesis
    unfolding merge_spec_unlines [OF assms(1,2)] by (intro text_lines_cstr_unlines) blast
qed

lemma copy_lines_same:
  "CHR ''='' \<notin> set k \<Longrightarrow> pending tbl k = None \<Longrightarrow>
   copy_config_lines k n (map (\<lambda>l. (new_line tbl l, True)) L)
     = copy_config_lines k n (map (\<lambda>l. (l, True)) L)"
  by (induction L) (auto simp: copy_config_lines_Cons line_key_new_line line_value_new_line)

text \<open>What the lookup in a merged file finds.\<close>

lemma lookup_merge_spec:
  assumes "newline_terminated existing" "NUL \<notin> set existing" "table_ok tbl"
    and k: "CHR ''='' \<notin> set k" and n: "0 < n"
  shows "osi_copy_config_value (merge_spec existing tbl) k n =
    (case pending tbl k of
       None \<Rightarrow> osi_copy_config_value existing k n
     | Some v \<Rightarrow> if chomp v = [] then Inl ERR_NOT_FOUND else value_result n (chomp v))"
proof -
  let ?L = "map fst (text_lines existing)"
  let ?M = "map update_text (missing_updates tbl (text_lines existing))"
  let ?ls = "map (\<lambda>l. (l, True)) (map (new_line tbl) ?L @ ?M)"
  have ls: "text_lines (cstr (merge_spec existing tbl)) = ?ls"
    by (rule merge_spec_lines [OF assms(1-3)])
  show ?thesis
  proof (cases "pending tbl k")
    case None
    then have "\<forall>(l, nl) \<in> set (map (\<lambda>l. (l, True)) ?M). line_key l \<noteq> Some k"
      using update_text_line(1) [OF assms(3)] in_missing [OF assms(3)]
        pending_of_member [OF assms(3)] by auto
    then have "copy_config_lines k n ?ls
        = copy_config_lines k n (map (\<lambda>l. (new_line tbl l, True)) ?L)"
      using copy_lines_append_other [OF k] by (simp add: comp_def)
    also have "\<dots> = copy_config_lines k n (map (\<lambda>l. (l, True)) ?L)"
      by (rule copy_lines_same [OF k None])
    finally show ?thesis
      using None n assms(2) text_lines_terminated [OF assms(1)] ls
      by (simp add: osi_copy_config_value_def)
  next
    case (Some v)
    have val: "\<forall>(l, nl) \<in> set ?ls. line_key l = Some k \<longrightarrow> line_value l = chomp v"
      using Some update_text_line [OF assms(3)] in_missing [OF assms(3)]
        pending_of_member [OF assms(3)] line_key_new_line line_value_new_line by fastforce
    obtain u where u: "u \<in> set tbl" "cu_key u = k" "cu_has_value u"
      using Some find_update_Some [of tbl k] nth_mem
      by (fastforce simp: pending_def split: option.splits if_splits)
    have "Some k \<in> line_key ` fst ` set ?ls"
    proof (cases "Some k \<in> named_keys (text_lines existing)")
      case True
      then show ?thesis
        unfolding named_keys_def by (force simp: image_iff line_key_new_line)
    next
      case False
      with u have "u \<in> set (missing_updates tbl (text_lines existing))"
        by (simp add: in_missing [OF assms(3)])
      moreover have "line_key (update_text u) = Some k"
        using update_text_line(1) [OF assms(3) u(1)] u(2) by simp
      ultimately show ?thesis by (force simp: image_iff)
    qed
    then show ?thesis
      using Some n val copy_lines_found [OF k val] copy_lines_not_found [OF k]
      by (auto simp: osi_copy_config_value_def ls simp del: map_append)
  qed
qed

text \<open>A newline at the end makes no difference to a lookup, and the merge of a file without one differs
  from that of the file with one at most there, unless keys are appended to a last line that is kept.\<close>

lemma copy_value_end:
  assumes "\<not> newline_terminated s"
  shows "osi_copy_config_value (s @ [NL]) k n = osi_copy_config_value s k n"
proof (cases "NUL \<in> set s")
  case False
  from text_lines_unended [OF assms] obtain xs l where
    ls: "text_lines s = xs @ [(l, False)]" "text_lines (s @ [NL]) = xs @ [(l, True)]" by blast
  have "copy_config_lines k n (xs @ [(l, False)]) = copy_config_lines k n (xs @ [(l, True)])"
    by (induction xs) (auto simp: copy_config_lines.simps(2) Let_def)
  with False ls show ?thesis by (simp add: osi_copy_config_value_def)
qed (simp add: osi_copy_config_value_def cstr_def)

lemma merge_spec_cstr: "merge_spec (cstr existing) tbl = merge_spec existing tbl"
  by (simp add: merge_spec_def)

lemma merge_spec_end:
  assumes "\<not> newline_terminated s" and "NUL \<notin> set s"
    and "missing_updates tbl (text_lines s) = [] \<or>
      (\<exists>k. line_key (fst (last (text_lines s))) = Some k \<and> pending tbl k \<noteq> None)"
  shows "osi_copy_config_value (merge_spec s tbl) k n = osi_copy_config_value (merge_spec (s @ [NL]) tbl) k n"
proof -
  from text_lines_unended [OF assms(1)] obtain xs l where
    ls: "text_lines s = xs @ [(l, False)]" "text_lines (s @ [NL]) = xs @ [(l, True)]" and l: "l \<noteq> []" "NL \<notin> set l" by blast
  have missing: "missing_updates tbl (xs @ [(l, True)]) = missing_updates tbl (xs @ [(l, False)])"
    by (simp add: missing_updates_def named_keys_def)
  show ?thesis
  proof (cases "\<exists>k. line_key l = Some k \<and> pending tbl k \<noteq> None")
    case True
    then have "merged_line tbl (l, True) = merged_line tbl (l, False)" by (auto simp: merged_line_def)
    with assms(2) ls missing show ?thesis by (simp add: merge_spec_def Let_def)
  next
    case False
    then have "merged_line tbl (l, b) = l @ (if b then [NL] else [])" for b
      by (auto simp: merged_line_def split: bind_splits option.splits)
    moreover have "missing_updates tbl (xs @ [(l, False)]) = []" using assms(3) False ls by auto
    ultimately have m: "merge_spec (s @ [NL]) tbl = merge_spec s tbl @ [NL]"
      and e: "merge_spec s tbl = concat (map (merged_line tbl) xs) @ l"
      using assms(2) ls missing by (simp_all add: merge_spec_def Let_def)
    have "last l \<noteq> NL" using l last_in_set by metis
    then have "\<not> newline_terminated (merge_spec s tbl)" using l(1) by (simp add: e newline_terminated_def)
    then show ?thesis unfolding m by (rule copy_value_end [symmetric])
  qed
qed

lemma lookup_merged:
  assumes "newline_terminated (cstr existing) \<or> missing_updates tbl (text_lines (cstr existing)) = [] \<or>
      (\<exists>k. line_key (fst (last (text_lines (cstr existing)))) = Some k \<and> pending tbl k \<noteq> None)"
    and "table_ok tbl" and "CHR ''='' \<notin> set k" and "0 < n"
  shows "osi_copy_config_value (merge_spec existing tbl) k n =
    (case pending tbl k of
       None \<Rightarrow> osi_copy_config_value existing k n
     | Some v \<Rightarrow> if chomp v = [] then Inl ERR_NOT_FOUND else value_result n (chomp v))"
proof -
  let ?s = "cstr existing"
  have NUL: "NUL \<notin> set ?s" "NUL \<notin> set (?s @ [NL])" by simp_all
  have same: "osi_copy_config_value ?s k n = osi_copy_config_value existing k n"
    by (simp add: osi_copy_config_value_def)
  show ?thesis
  proof (cases "newline_terminated ?s")
    case True
    show ?thesis using lookup_merge_spec [OF True NUL(1) assms(2-4)]
      unfolding merge_spec_cstr same by this
  next
    case False
    have "newline_terminated (?s @ [NL])" by (simp add: newline_terminated_def)
    note ended = lookup_merge_spec [OF this NUL(2) assms(2-4)]
    from merge_spec_end [OF False NUL(1)] assms(1) False
    have "osi_copy_config_value (merge_spec existing tbl) k n = osi_copy_config_value (merge_spec (?s @ [NL]) tbl) k n"
      by (auto simp: merge_spec_cstr)
    then show ?thesis using ended by (simp add: copy_value_end [OF False] same split: option.split)
  qed
qed

section \<open>What the parser accepts\<close>

text \<open>The assignments of a body, in order: the key and the value of each line with an \<open>=\<close>.\<close>

definition assignments :: "(string \<times> bool) list \<Rightarrow> (string \<times> string) list" where
  "assignments ls = map (\<lambda>l. (before_eq l, after_eq l))
     (filter (\<lambda>l. CHR ''='' \<in> set l) (map (chomp \<circ> fst) ls))"

definition assignment_ok :: "string \<times> string \<Rightarrow> bool" where
  "assignment_ok a \<longleftrightarrow> fst a \<in> set editable_keys \<and> length (snd a) < config_value_size"

definition last_assignment :: "(string \<times> string) list \<Rightarrow> string \<Rightarrow> string option" where
  "last_assignment as k = map_of (rev as) k"

lemma assignments_simps [simp]:
  "assignments [] = []"
  "assignments (x # ls) = (if CHR ''='' \<in> set (chomp (fst x))
     then (before_eq (chomp (fst x)), after_eq (chomp (fst x))) # assignments ls
     else assignments ls)"
  by (simp_all add: assignments_def)

lemma parse_lines_Cons:
  "osi_parse_config_lines mem ((line, nl) # rest) tbl ws =
     (if CHR ''='' \<notin> set (chomp line) then osi_parse_config_lines mem rest tbl ws
      else case osi_find_config_update tbl (before_eq (chomp line)) of
        None \<Rightarrow> (ERR_INVALID_ARG, tbl, ws)
      | Some i \<Rightarrow>
          if config_value_size \<le> length (after_eq (chomp line)) then (ERR_INVALID_ARG, tbl, ws)
          else osi_parse_config_lines mem rest
                 (tbl[i := (tbl ! i)\<lparr>cu_value := after_eq (chomp line), cu_has_value := True\<rparr>])
                 (if cu_key (tbl ! i) = ''name''
                  then ws @ filename_write mem (after_eq (chomp line)) else ws))"
  by (auto simp: Let_def split: option.splits)

declare osi_parse_config_lines.simps(2) [simp del]

lemma table_ok_update:
  assumes "table_ok tbl" "i < length tbl" "NL \<notin> set v" "length v < config_value_size"
  shows "table_ok (tbl[i := (tbl ! i)\<lparr>cu_value := v, cu_has_value := True\<rparr>])"
  using assms by (auto simp: table_ok_def dest!: set_update_subset_insert [THEN subsetD])

lemma last_assignment_Cons:
  "last_assignment (a # as) k = (case last_assignment as k of
      None \<Rightarrow> (if fst a = k then Some (snd a) else None) | Some v \<Rightarrow> Some v)"
  by (auto simp: last_assignment_def map_add_def split: option.splits)

lemma parse_lines_result:
  assumes "table_ok tbl" "\<forall>(l, nl) \<in> set ls. NL \<notin> set l"
  shows "case osi_parse_config_lines mem ls tbl ws of (st, t, ws') \<Rightarrow>
     st = (if \<forall>a \<in> set (assignments ls). assignment_ok a then SUCCESS else ERR_INVALID_ARG)
     \<and> table_ok t
     \<and> (st = SUCCESS \<longrightarrow> (\<forall>k. pending t k = (case last_assignment (assignments ls) k of
            None \<Rightarrow> pending tbl k | Some v \<Rightarrow> Some (cstr v))))"
  using assms
proof (induction ls arbitrary: tbl ws)
  case Nil
  then show ?case by (simp add: last_assignment_def)
next
  case (Cons x ls)
  obtain line nl where x: "x = (line, nl)" by (cases x)
  let ?k = "before_eq (chomp line)" and ?v = "after_eq (chomp line)"
  consider "CHR ''='' \<notin> set (chomp line)"
    | "CHR ''='' \<in> set (chomp line)" "\<not> assignment_ok (?k, ?v)"
    | i where "CHR ''='' \<in> set (chomp line)" "assignment_ok (?k, ?v)"
        "osi_find_config_update tbl ?k = Some i"
    using find_update_None [of tbl ?k] Cons.prems(1)
    by (cases "osi_find_config_update tbl ?k")
      (auto simp: assignment_ok_def table_ok_def simp flip: set_map)
  then show ?case
  proof cases
    case 1
    with Cons x show ?thesis by (simp add: parse_lines_Cons)
  next
    case 2
    have "set (map cu_key tbl) = set editable_keys" using Cons.prems(1) by (simp add: table_ok_def)
    with 2 have "osi_parse_config_lines mem (x # ls) tbl ws = (ERR_INVALID_ARG, tbl, ws)"
      using find_update_Some [of tbl ?k] find_update_None [of tbl ?k] x
      by (force simp: parse_lines_Cons assignment_ok_def split: option.splits)
    with 2 x Cons.prems(1) show ?thesis by simp
  next
    case 3
    let ?t = "tbl[i := (tbl ! i)\<lparr>cu_value := ?v, cu_has_value := True\<rparr>]"
    have i: "i < length tbl" "cu_key (tbl ! i) = ?k" using find_update_Some 3(3) by blast+
    have "NL \<notin> set ?v" using Cons.prems(2) x set_after_eq set_chomp by fastforce
    with 3 i Cons.prems(1) have t: "table_ok ?t"
      by (intro table_ok_update) (simp_all add: assignment_ok_def)
    have p: "pending ?t k = (if k = ?k then Some (cstr ?v) else pending tbl k)" for k
      using pending_update [OF i(1) _ table_ok_distinct [OF Cons.prems(1)],
          of "(tbl ! i)\<lparr>cu_value := ?v, cu_has_value := True\<rparr>" k] i(2) by simp
    have "length ?v < config_value_size" using 3(2) by (simp add: assignment_ok_def)
    with 3 x have "\<exists>ws'. osi_parse_config_lines mem (x # ls) tbl ws
        = osi_parse_config_lines mem ls ?t ws'"
      by (auto simp: parse_lines_Cons)
    then obtain ws' where "osi_parse_config_lines mem (x # ls) tbl ws
        = osi_parse_config_lines mem ls ?t ws'" by blast
    with Cons.IH [OF t, of ws'] Cons.prems(2) 3 x p show ?thesis
      by (auto simp: last_assignment_Cons split: prod.splits option.splits)
  qed
qed

lemma merge_lines_error: "osi_merge_lines mem ls tbl b = (Inl e, t) \<Longrightarrow> e = ERR_NO_MEMORY"
proof (induction ls arbitrary: tbl b)
  case (Cons x ls)
  then show ?case
    by (cases x) (auto simp del: append_texts.simps split: option.splits sum.splits if_split_asm
        dest: text_buffer.append_texts_error)
qed simp

lemma merge_missing_error: "osi_merge_missing mem us b = Inl e \<Longrightarrow> e = ERR_NO_MEMORY"
  by (induction us arbitrary: b) (auto simp del: append_texts.simps split: sum.splits if_split_asm
      dest: text_buffer.append_texts_error)

lemma parse_lines_writes:
  "osi_parse_config_lines mem ls tbl ws = (st, t, ws') \<Longrightarrow> \<exists>vs. ws' = ws @ concat (map (filename_write mem) vs)"
proof (induction ls arbitrary: tbl ws)
  case Nil
  then show ?case by (auto intro: exI [of _ "[]"])
next
  case (Cons x ls)
  obtain line nl where x: "x = (line, nl)" by (cases x)
  show ?case
    using Cons.prems unfolding x parse_lines_Cons
    by (auto split: if_split_asm option.splits intro: exI [of _ "[]"] dest!: Cons.IH)
      (metis concat.simps(2) list.simps(9))
qed

section \<open>The properties\<close>

lemma parsed_table_ok:
  assumes "osi_parse_config_updates mem (Some body) len tbl = (SUCCESS, tbl', ws)"
    and keys: "map cu_key tbl = editable_keys"
  shows "table_ok tbl'"
proof -
  let ?ls = "text_lines (take (nat len) body)"
  have p: "osi_parse_config_lines mem ?ls (osi_reset_config_updates tbl) [] = (SUCCESS, tbl', ws)"
    using assms(1) by (simp add: osi_parse_config_updates_def split: if_splits)
  have "\<forall>(l, nl) \<in> set ?ls. NL \<notin> set l" using text_lines_no_nl by blast
  from parse_lines_result [OF reset_ok [OF keys] this, of mem "[]"] p show ?thesis by simp
qed

text \<open>Nothing is glued to the last line of the file: it ends with a newline, or it is replaced itself, or
  every assigned key is named in the file, so that none is appended.\<close>

definition ends_cleanly :: "string \<Rightarrow> (string \<times> string) list \<Rightarrow> bool" where
  "ends_cleanly existing as \<longleftrightarrow>
     (let ls = text_lines (cstr existing); keys = Some ` fst ` set as
      in newline_terminated (cstr existing) \<or> line_key (fst (last ls)) \<in> keys \<or> keys \<subseteq> named_keys ls)"

lemma last_assignment_None: "last_assignment as k = None \<longleftrightarrow> k \<notin> fst ` set as"
  by (simp add: last_assignment_def map_of_eq_None_iff)

text \<open>Only editable keys are assigned by a body that is accepted.\<close>

lemma accepted_keys:
  assumes "osi_parse_config_updates mem (Some body) len tbl = (SUCCESS, tbl', ws)"
    and keys: "map cu_key tbl = editable_keys" and "k \<notin> set editable_keys"
  shows "last_assignment (assignments (text_lines (take (nat len) body))) k = None"
proof -
  let ?ls = "text_lines (take (nat len) body)"
  have p: "osi_parse_config_lines mem ?ls (osi_reset_config_updates tbl) [] = (SUCCESS, tbl', ws)"
    using assms(1) by (simp add: osi_parse_config_updates_def split: if_splits)
  have "\<forall>(l, nl) \<in> set ?ls. NL \<notin> set l" using text_lines_no_nl by blast
  from parse_lines_result [OF reset_ok [OF keys] this, of mem "[]"] p
  have "\<forall>a \<in> set (assignments ?ls). assignment_ok a" by (simp split: if_splits)
  with assms(3) show ?thesis by (auto simp: last_assignment_None assignment_ok_def)
qed

text \<open>What a lookup in the merged text finds.\<close>

lemma posted_value:
  assumes parse: "osi_parse_config_updates mem (Some body) len tbl = (SUCCESS, tbl', ws)"
    and keys: "map cu_key tbl = editable_keys"
    and existing: "ends_cleanly existing (assignments (text_lines (take (nat len) body)))"
    and merge: "osi_merge_config_updates mem' existing tbl' = (Inr merged, t)"
    and k: "CHR ''='' \<notin> set k" and n: "0 < n"
  shows "osi_copy_config_value (text_of merged) k n =
    (case last_assignment (assignments (text_lines (take (nat len) body))) k of
       None \<Rightarrow> osi_copy_config_value existing k n
     | Some v \<Rightarrow> if chomp (cstr v) = [] then Inl ERR_NOT_FOUND
                 else value_result n (chomp (cstr v)))"
proof -
  let ?ls = "text_lines (take (nat len) body)" and ?t = "osi_reset_config_updates tbl"
  have p: "osi_parse_config_lines mem ?ls ?t [] = (SUCCESS, tbl', ws)"
    using parse by (simp add: osi_parse_config_updates_def split: if_splits)
  have "\<forall>(l, nl) \<in> set ?ls. NL \<notin> set l" using text_lines_no_nl by blast
  from parse_lines_result [OF reset_ok [OF keys] this, of mem "[]"] p
  have tbl': "table_ok tbl'" and pend: "\<And>k. pending tbl' k = (case last_assignment (assignments ?ls) k of
      None \<Rightarrow> None | Some v \<Rightarrow> Some (cstr v))"
    by (simp_all cong: option.case_cong)
  have "text_of merged = merge_spec existing tbl'"
    by (rule merge_result [OF merge table_ok_distinct [OF tbl']])
  moreover have "newline_terminated (cstr existing) \<or> missing_updates tbl' (text_lines (cstr existing)) = [] \<or>
      (\<exists>k. line_key (fst (last (text_lines (cstr existing)))) = Some k \<and> pending tbl' k \<noteq> None)"
  proof -
    have assigned: "k \<in> fst ` set (assignments ?ls) \<longleftrightarrow> pending tbl' k \<noteq> None" for k
      using last_assignment_None [of "assignments ?ls" k] by (auto simp: pend split: option.split)
    have "missing_updates tbl' (text_lines (cstr existing)) = []"
      if "Some ` fst ` set (assignments ?ls) \<subseteq> named_keys (text_lines (cstr existing))"
    proof -
      have "u \<notin> set (missing_updates tbl' (text_lines (cstr existing)))" for u
        using that assigned [of "cu_key u"] in_missing [OF tbl'] pending_of_member [OF tbl'] by force
      then show ?thesis by (metis list.set_intros(1) neq_Nil_conv)
    qed
    with existing assigned show ?thesis unfolding ends_cleanly_def Let_def by fastforce
  qed
  ultimately show ?thesis
    using lookup_merged [OF _ tbl' k n] pend [of k] by (auto split: option.splits)
qed

text \<open>Posting a configuration and reading it back. When the parser accepts a body and the merge
  into a file returns and glues nothing to its last line, the lookup of any key in the merged text gives
  the value that the body assigns to it last, and for a key the body does not assign, what the
  lookup in the old file gives.\<close>

theorem config_post_roundtrip:
  assumes parse: "osi_parse_config_updates mem (Some body) len tbl = (SUCCESS, tbl', ws)"
    and keys: "map cu_key tbl = editable_keys"
    and existing: "ends_cleanly existing (assignments (text_lines (take (nat len) body)))"
    and merge: "osi_merge_config_updates mem' existing tbl' = (Inr merged, t)"
    and k: "CHR ''='' \<notin> set k" and n: "0 < n"
  shows "osi_copy_config_value (text_of merged) k n =
    (case last_assignment (assignments (text_lines (take (nat len) body))) k of
       None \<Rightarrow> osi_copy_config_value existing k n
     | Some v \<Rightarrow> if chomp (cstr v) = [] then Inl ERR_NOT_FOUND
                 else value_result n (chomp (cstr v)))"
  using assms by (rule posted_value)

definition sample_file :: string where
  "sample_file = ''currency=SEK'' @ [NL] @ ''src.dt=15'' @ [NL]"

definition sample_body :: string where
  "sample_body = ''name=Home'' @ [CR, NL] @ ''currency=EUR''"

theorem config_post_roundtrip_witness:
  "\<exists>tbl' ws merged t.
     osi_parse_config_updates mem_unlimited (Some sample_body) 23 osi_config_updates
       = (SUCCESS, tbl', ws)
   \<and> osi_merge_config_updates mem_unlimited sample_file tbl' = (Inr merged, t)
   \<and> osi_copy_config_value (text_of merged) ''currency'' 4 = Inr ''EUR''"
proof -
  have "fst (osi_parse_config_updates mem_unlimited (Some sample_body) 23 osi_config_updates)
      = SUCCESS" by code_simp
  then obtain tbl' ws where p:
    "osi_parse_config_updates mem_unlimited (Some sample_body) 23 osi_config_updates
       = (SUCCESS, tbl', ws)"
    by (metis prod.collapse)
  obtain merged t where m: "osi_merge_config_updates mem_unlimited sample_file tbl' = (Inr merged, t)"
    using merge_total by blast
  have "last_assignment (assignments (text_lines (take (nat 23) sample_body))) ''currency''
      = Some ''EUR''" by code_simp
  moreover have ended: "ends_cleanly sample_file (assignments (text_lines (take (nat 23) sample_body)))"
    by code_simp
  ultimately have "osi_copy_config_value (text_of merged) ''currency'' 4 = Inr ''EUR''"
    using config_post_roundtrip [OF p _ ended m, of "''currency''" 4]
    by (simp add: osi_config_updates_def comp_def chomp_def value_result_def)
  with p m show ?thesis by blast
qed

text \<open>The parser accepts a body exactly when every line with an \<open>=\<close> names an editable key and
  gives it a value of fewer than 128 bytes; otherwise, and for an empty body, it returns
  \<open>ERR_INVALID_ARG\<close>.\<close>

theorem config_parse_accepts:
  assumes "map cu_key tbl = editable_keys"
  shows "fst (osi_parse_config_updates mem (Some body) len tbl) =
    (if 0 < len \<and> (\<forall>a \<in> set (assignments (text_lines (take (nat len) body))). assignment_ok a)
     then SUCCESS else ERR_INVALID_ARG)"
proof -
  let ?ls = "text_lines (take (nat len) body)"
  have "\<forall>(l, nl) \<in> set ?ls. NL \<notin> set l" using text_lines_no_nl by blast
  from parse_lines_result [OF reset_ok [OF assms] this, of mem "[]"]
  show ?thesis by (auto simp: osi_parse_config_updates_def split: prod.splits)
qed

theorem config_parse_accepts_witness:
  "fst (osi_parse_config_updates mem_unlimited (Some sample_body) 23 osi_config_updates) = SUCCESS
   \<and> fst (osi_parse_config_updates mem_unlimited (Some ''id=1'') 4 osi_config_updates)
       = ERR_INVALID_ARG"
proof -
  have k: "map cu_key osi_config_updates = editable_keys" by code_simp
  have "\<forall>a \<in> set (assignments (text_lines (take (nat 23) sample_body))). assignment_ok a"
    "\<not> (\<forall>a \<in> set (assignments (text_lines (take (nat 4) ''id=1''))). assignment_ok a)"
    by code_simp+
  with config_parse_accepts [OF k] show ?thesis by simp
qed

text \<open>C10: The merge fails only when an allocation fails. When it returns, the text is the
  specification: the lines of the file in order, those that name an updated key replaced by
  \<open>key=value\<close>, then the updated keys that no line names; with memory it does return.\<close>

theorem config_merge_refines:
  assumes "distinct (map cu_key tbl)"
  shows "(case fst (osi_merge_config_updates mem existing tbl) of
            Inl e \<Rightarrow> e = ERR_NO_MEMORY
          | Inr merged \<Rightarrow> text_of merged = merge_spec existing tbl)
       \<and> (\<exists>merged t. osi_merge_config_updates mem_unlimited existing tbl = (Inr merged, t))"
proof -
  have "case fst (osi_merge_config_updates mem existing tbl) of
            Inl e \<Rightarrow> e = ERR_NO_MEMORY
          | Inr merged \<Rightarrow> text_of merged = merge_spec existing tbl"
  proof (cases "osi_merge_config_updates mem existing tbl")
    case (Pair r t)
    then show ?thesis
      using merge_result [OF _ assms, of mem existing]
      by (cases r) (auto simp: osi_merge_config_updates_def split: prod.splits sum.splits
          dest: merge_lines_error merge_missing_error)
  qed
  then show ?thesis using merge_total by blast
qed

theorem config_merge_refines_witness:
  "distinct (map cu_key osi_config_updates)
   \<and> (case fst (osi_merge_config_updates mem_unlimited sample_file osi_config_updates) of
        Inl e \<Rightarrow> e = ERR_NO_MEMORY
      | Inr merged \<Rightarrow> text_of merged = merge_spec sample_file osi_config_updates)"
  using config_merge_refines [of osi_config_updates]
  by (simp add: osi_config_updates_def comp_def editable_keys_ok)

text \<open>The premise about the last line matters: a key that the file lacks is written right
  behind an unterminated last line, so the posted name is not found and the currency changes.\<close>

theorem config_merge_glues_last_line:
  "let (st, tbl, ws) = osi_parse_config_updates mem_unlimited (Some ''name=X'') 6 osi_config_updates;
       (r, t) = osi_merge_config_updates mem_unlimited ''currency=SEK'' tbl
   in st = SUCCESS
      \<and> (case r of Inl e \<Rightarrow> False | Inr merged \<Rightarrow>
           text_of merged = ''currency=SEKname=X'' @ [NL]
           \<and> osi_copy_config_value (text_of merged) ''name'' 128 = Inl ERR_NOT_FOUND
           \<and> osi_copy_config_value (text_of merged) ''currency'' 128 = Inr ''SEKname=X'')"
  by code_simp

text \<open>Every write \<open>filename[len] = 0\<close> that the parser makes for a posted name lies one past the end of
  the block of \<open>len\<close> bytes it allocated, and a body with a name makes one.\<close>

theorem config_parse_name_overflow:
  "(\<forall>(len, i) \<in> set (snd (snd (osi_parse_config_updates mem body body_len tbl))). i = len)
   \<and> snd (snd (osi_parse_config_updates mem_unlimited (Some ''name=X'') 6 osi_config_updates))
       = [(29, 29)]"
proof
  show "\<forall>(len, i) \<in> set (snd (snd (osi_parse_config_updates mem body body_len tbl))). i = len"
  proof (cases "osi_parse_config_updates mem body body_len tbl")
    case (fields st t ws)
    have "i = len" if "(len, i) \<in> set (filename_write mem v)" for len i v
      using that by (auto simp: filename_write_def Let_def split: if_splits)
    moreover have "ws = [] \<or> (\<exists>vs. ws = concat (map (filename_write mem) vs))"
      using fields by (auto simp: osi_parse_config_updates_def split: option.splits if_splits
          dest!: parse_lines_writes)
    ultimately show ?thesis using fields by auto
  qed
  show "snd (snd (osi_parse_config_updates mem_unlimited (Some ''name=X'') 6 osi_config_updates))
      = [(29, 29)]"
    by code_simp
qed

theorem config_parse_name_overflow_witness:
  "snd (snd (osi_parse_config_updates mem_unlimited (Some ''name=X'') 6 osi_config_updates))
     = [(29, 29)]"
  using config_parse_name_overflow [of mem_unlimited None 0 osi_config_updates] by simp

end
