(* ===== verification/Facility_Files.thy ===== *)
theory Facility_Files
  imports Config_Text
begin

text \<open>
  Where the server finds the configuration files (\<open>server/src/opti/opti_instance.c\<close>): the directory
  that \<open>optimizer.conf\<close> names, the file name made from a facility name
  (\<open>osi_build_facility_filename\<close>), and the loops over the directory that look a facility up
  (\<open>osi_find_facility_config_path\<close>), choose the default one and list all. The file system is a
  record of two functions: the content of a readable file (\<open>read_file_to_string\<close>) and the names in a
  directory in the order of \<open>readdir\<close>.
\<close>

section \<open>The file system the server reads\<close>

record file_sys =
  fs_read :: "string \<Rightarrow> string option"
  fs_dir :: "string \<Rightarrow> string list option"

definition opti_config_path :: string where
  "opti_config_path = ''/etc/maestro/optimizer.conf''"

definition facility_dir_fallback :: string where
  "facility_dir_fallback = ''/etc/maestro/facility''"

definition calcs_default_directory :: string where
  "calcs_default_directory = ''/var/lib/maestro/calcs''"

section \<open>Directories from the configuration\<close>

definition osi_get_facility_config_dir :: "file_sys \<Rightarrow> nat \<Rightarrow> string result" where
  "osi_get_facility_config_dir fs dir_size =
     (if dir_size = 0 then Inl ERR_INVALID_ARG
      else case fs_read fs opti_config_path of
        None \<Rightarrow> Inr (snprintf_trunc dir_size facility_dir_fallback)
      | Some text \<Rightarrow>
          (case osi_copy_config_value text ''facility.conf.dir'' dir_size of
             Inl e \<Rightarrow> Inr (snprintf_trunc dir_size facility_dir_fallback)
           | Inr d \<Rightarrow> if d = [] then Inr (snprintf_trunc dir_size facility_dir_fallback) else Inr d))"

definition osi_get_calcs_dir :: "file_sys \<Rightarrow> nat \<Rightarrow> string result" where
  "osi_get_calcs_dir fs dir_size =
     (if dir_size = 0 then Inl ERR_INVALID_ARG
      else case fs_read fs opti_config_path of
        None \<Rightarrow> Inr (snprintf_trunc dir_size calcs_default_directory)
      | Some text \<Rightarrow>
          (case osi_copy_config_value text ''data.calcs.dir'' dir_size of
             Inl e \<Rightarrow> Inr (snprintf_trunc dir_size calcs_default_directory)
           | Inr d \<Rightarrow> if d = [] then Inr (snprintf_trunc dir_size calcs_default_directory) else Inr d))"

section \<open>The file name of a facility\<close>

definition filename_char :: "char \<Rightarrow> char" where
  "filename_char c =
     (if c = CHR ''/'' \<or> c = CHR 0x5C \<or> (of_char c :: nat) < 32 \<or> c = CHR '':'' then CHR ''_'' else c)"

text \<open>The copy loop: it stops at the end of the name or when fewer than 6 bytes would be left.\<close>

fun filename_copy :: "string \<Rightarrow> nat \<Rightarrow> nat \<Rightarrow> string" where
  "filename_copy [] w n = []"
| "filename_copy (c # cs) w n =
     (if w + 6 < n then filename_char c # filename_copy cs (w + 1) n else [])"

definition osi_build_facility_filename :: "string \<Rightarrow> nat \<Rightarrow> string" where
  "osi_build_facility_filename facility_name n =
     (let base = filename_copy (cstr facility_name) 0 n
      in if base = [] then snprintf_trunc n ''facility.conf''
         else base @ snprintf_trunc (n - length base) ''.conf'')"

section \<open>The loops over the directory\<close>

text \<open>The test of the three loops on a directory entry; two of them also skip \<open>example.conf\<close>.\<close>

definition conf_entry :: "string \<Rightarrow> bool" where
  "conf_entry e \<longleftrightarrow> e \<noteq> ''.'' \<and> e \<noteq> ''..'' \<and> 5 \<le> length e \<and> drop (length e - 5) e = ''.conf''"

definition facility_entry :: "string \<Rightarrow> bool" where
  "facility_entry e \<longleftrightarrow> conf_entry e \<and> e \<noteq> ''example.conf''"

definition entry_path :: "string \<Rightarrow> string \<Rightarrow> string" where
  "entry_path dir e = snprintf_trunc 512 (dir @ ''/'' @ e)"

definition facility_name_size :: nat where
  "facility_name_size = 128"

fun find_path_loop :: "file_sys \<Rightarrow> string \<Rightarrow> string \<Rightarrow> string list \<Rightarrow> string option" where
  "find_path_loop fs dir name [] = None"
| "find_path_loop fs dir name (e # es) =
     (if \<not> conf_entry e then find_path_loop fs dir name es
      else case fs_read fs (entry_path dir e) of
        None \<Rightarrow> find_path_loop fs dir name es
      | Some text \<Rightarrow>
          (case osi_copy_config_value text ''name'' facility_name_size of
             Inl x \<Rightarrow> find_path_loop fs dir name es
           | Inr v \<Rightarrow> if v = cstr name then Some (entry_path dir e)
                      else find_path_loop fs dir name es))"

definition osi_find_facility_config_path ::
  "file_sys \<Rightarrow> string \<Rightarrow> bool \<Rightarrow> nat \<Rightarrow> string result" where
  "osi_find_facility_config_path fs name create_if_missing path_size =
     (if path_size = 0 then Inl ERR_INVALID_ARG
      else case osi_get_facility_config_dir fs 256 of
        Inl e \<Rightarrow> Inl e
      | Inr dir \<Rightarrow>
          (case (case fs_dir fs dir of None \<Rightarrow> None | Some es \<Rightarrow> find_path_loop fs dir name es) of
             Some p \<Rightarrow> Inr (snprintf_trunc path_size p)
           | None \<Rightarrow>
               if \<not> create_if_missing then Inl ERR_NOT_FOUND
               else Inr (snprintf_trunc path_size
                           (dir @ ''/'' @ osi_build_facility_filename name 256))))"

fun default_name_loop :: "file_sys \<Rightarrow> string \<Rightarrow> nat \<Rightarrow> string list \<Rightarrow> string option" where
  "default_name_loop fs dir n [] = None"
| "default_name_loop fs dir n (e # es) =
     (if \<not> facility_entry e then default_name_loop fs dir n es
      else case fs_read fs (entry_path dir e) of
        None \<Rightarrow> default_name_loop fs dir n es
      | Some text \<Rightarrow>
          (case osi_copy_config_value text ''name'' n of
             Inl x \<Rightarrow> default_name_loop fs dir n es
           | Inr v \<Rightarrow> if v \<noteq> [] then Some v else default_name_loop fs dir n es))"

definition osi_get_default_facility_name :: "file_sys \<Rightarrow> nat \<Rightarrow> string result" where
  "osi_get_default_facility_name fs n =
     (if n = 0 then Inl ERR_INVALID_ARG
      else case osi_get_facility_config_dir fs 256 of
        Inl e \<Rightarrow> Inl e
      | Inr dir \<Rightarrow>
          (case fs_dir fs dir of
             None \<Rightarrow> Inl ERR_NOT_FOUND
           | Some es \<Rightarrow> (case default_name_loop fs dir n es of
                           None \<Rightarrow> Inl ERR_NOT_FOUND | Some v \<Rightarrow> Inr v)))"

fun collect_loop ::
  "allocator \<Rightarrow> file_sys \<Rightarrow> string \<Rightarrow> string list \<Rightarrow> text_buf \<Rightarrow> text_buf result" where
  "collect_loop mem fs dir [] b = Inr b"
| "collect_loop mem fs dir (e # es) b =
     (if \<not> facility_entry e then collect_loop mem fs dir es b
      else case fs_read fs (entry_path dir e) of
        None \<Rightarrow> collect_loop mem fs dir es b
      | Some text \<Rightarrow>
          (case osi_copy_config_value text ''name'' facility_name_size of
             Inl x \<Rightarrow> collect_loop mem fs dir es b
           | Inr v \<Rightarrow>
               if v = [] then collect_loop mem fs dir es b
               else case append_texts (osi_append_text mem) b [v, [NL]] of
                      Inl x \<Rightarrow> Inl x
                    | Inr b' \<Rightarrow> collect_loop mem fs dir es b'))"

definition osi_collect_facility_names :: "allocator \<Rightarrow> file_sys \<Rightarrow> string result" where
  "osi_collect_facility_names mem fs =
     (case osi_get_facility_config_dir fs 256 of
        Inl e \<Rightarrow> Inl e
      | Inr dir \<Rightarrow>
          (case fs_dir fs dir of
             None \<Rightarrow> Inl ERR_NOT_FOUND
           | Some es \<Rightarrow>
               (case collect_loop mem fs dir es empty_buf of
                  Inl e \<Rightarrow> Inl e
                | Inr b \<Rightarrow> (case tb_buffer b of
                     None \<Rightarrow> if mem 1 then Inr [] else Inl ERR_NO_MEMORY
                   | Some s \<Rightarrow> Inr s))))"

definition osi_load_template_config :: "file_sys \<Rightarrow> string result" where
  "osi_load_template_config fs =
     (case osi_get_facility_config_dir fs 256 of
        Inl e \<Rightarrow> Inl e
      | Inr dir \<Rightarrow> (case fs_read fs (snprintf_trunc 512 (dir @ ''/example.conf'')) of
           None \<Rightarrow> Inl ERR_NOT_FOUND | Some text \<Rightarrow> Inr text))"

section \<open>The directory\<close>

lemma copy_lines_short: "copy_config_lines k n ls = Inr v \<Longrightarrow> length v < n"
  by (induction k n ls rule: copy_config_lines.induct)
    (auto simp: copy_config_lines.simps Let_def split: if_split_asm)

lemma copy_value_short: "osi_copy_config_value text k n = Inr v \<Longrightarrow> length v < n"
  by (auto simp: osi_copy_config_value_def split: if_splits dest: copy_lines_short)

lemma copy_lines_nonempty: "copy_config_lines k n ls = Inr v \<Longrightarrow> v \<noteq> []"
  by (induction k n ls rule: copy_config_lines.induct)
    (auto simp: copy_config_lines.simps Let_def split: if_split_asm)

lemma copy_value_nonempty: "osi_copy_config_value text k n = Inr v \<Longrightarrow> v \<noteq> []"
  by (auto simp: osi_copy_config_value_def split: if_splits dest: copy_lines_nonempty)

lemma facility_dir_total: "\<exists>d. osi_get_facility_config_dir fs 256 = Inr d \<and> length d < 256"
  by (auto simp: osi_get_facility_config_dir_def length_snprintf_trunc
      split: option.split sum.split dest: copy_value_short)

lemma entry_path_whole: "length dir < 256 \<Longrightarrow> length e < 256 \<Longrightarrow> entry_path dir e = dir @ ''/'' @ e"
  by (simp add: entry_path_def)

section \<open>The file name\<close>

lemma filename_copy_take: "filename_copy s w n = map filename_char (take (n - 6 - w) s)"
proof (induction s arbitrary: w)
  case (Cons c s)
  show ?case
  proof (cases "w + 6 < n")
    case True
    then have "n - 6 - w = Suc (n - 6 - (w + 1))" by simp
    with True Cons show ?thesis by simp
  qed simp
qed simp

lemma filename_char_safe:
  "filename_char c \<notin> {CHR ''/'', CHR 0x5C, CHR '':''}" "\<not> (of_char (filename_char c) :: nat) < 32"
  by (simp_all add: filename_char_def)

lemma build_filename_256:
  "osi_build_facility_filename name 256 =
    (if cstr name = [] then ''facility.conf'' else map filename_char (take 250 (cstr name)) @ ''.conf'')"
  by (simp add: osi_build_facility_filename_def filename_copy_take Let_def)

section \<open>What the loops compute\<close>

text \<open>The readable facility files of a directory, with the name each one gives.\<close>

definition entry_name :: "file_sys \<Rightarrow> string \<Rightarrow> string \<Rightarrow> string option" where
  "entry_name fs dir e =
     (case fs_read fs (entry_path dir e) of
        None \<Rightarrow> None
      | Some text \<Rightarrow> (case osi_copy_config_value text ''name'' facility_name_size of
           Inl x \<Rightarrow> None | Inr v \<Rightarrow> Some v))"

definition facility_names :: "file_sys \<Rightarrow> string \<Rightarrow> string list \<Rightarrow> string list" where
  "facility_names fs dir es = List.map_filter (entry_name fs dir) (filter facility_entry es)"

lemma facility_names_simps [simp]:
  "facility_names fs dir [] = []"
  "facility_names fs dir (e # es) =
     (if facility_entry e then (case entry_name fs dir e of
         None \<Rightarrow> facility_names fs dir es | Some v \<Rightarrow> v # facility_names fs dir es)
      else facility_names fs dir es)"
  by (simp_all add: facility_names_def List.map_filter_def split: option.splits)

lemma entry_name_nonempty: "entry_name fs dir e = Some v \<Longrightarrow> v \<noteq> [] \<and> length v < facility_name_size"
  by (auto simp: entry_name_def split: option.splits sum.splits
      dest: copy_value_nonempty copy_value_short)

lemma find_path_loop_spec:
  "find_path_loop fs dir name es = map_option (entry_path dir)
     (List.find (\<lambda>e. conf_entry e \<and> entry_name fs dir e = Some (cstr name)) es)"
  by (induction es) (auto simp: entry_name_def split: option.splits sum.splits)

lemma default_name_loop_spec:
  "default_name_loop fs dir facility_name_size es
     = (case facility_names fs dir es of [] \<Rightarrow> None | v # vs \<Rightarrow> Some v)"
proof (induction es)
  case (Cons e es)
  then show ?case
    using copy_value_nonempty by (auto simp: entry_name_def split: option.splits sum.splits)
qed simp

lemma collect_loop_spec:
  "collect_loop mem fs dir es b
     = append_texts (osi_append_text mem) b (concat (map (\<lambda>v. [v, [NL]]) (facility_names fs dir es)))"
proof (induction es arbitrary: b)
  case (Cons e es)
  then show ?case
    using copy_value_nonempty
    by (auto simp: entry_name_def split: option.splits sum.splits)
qed simp

lemma concat_names: "concat (concat (map (\<lambda>v. [v, [NL]]) vs)) = unlines vs"
  by (induction vs) simp_all

lemma built_filename:
  "let f = osi_build_facility_filename name 256
   in set f \<inter> {CHR ''/'', CHR 0x5C, CHR '':''} = {} \<and> (\<forall>c \<in> set f. 32 \<le> (of_char c :: nat))
      \<and> conf_entry f \<and> length f < 256"
proof -
  let ?f = "osi_build_facility_filename name 256"
  have d: "conf_entry (x @ ''.conf'')" for x by (cases x) (auto simp: conf_entry_def)
  have "conf_entry ''facility.conf''" by code_simp
  with d have ends: "conf_entry ?f" unfolding build_filename_256 by simp
  have "set (map filename_char xs) \<inter> {CHR ''/'', CHR 0x5C, CHR '':''} = {}
      \<and> (\<forall>c \<in> set (map filename_char xs). 32 \<le> (of_char c :: nat))" for xs
    using filename_char_safe by (induction xs) (auto simp: not_less)
  then have "set ?f \<inter> {CHR ''/'', CHR 0x5C, CHR '':''} = {} \<and> (\<forall>c \<in> set ?f. 32 \<le> (of_char c :: nat))"
    unfolding build_filename_256 by auto
  moreover have "length ?f < 256" by (simp add: build_filename_256 min_less_iff_disj)
  ultimately show ?thesis using ends by (simp add: Let_def)
qed

lemma found_path:
  assumes dir: "osi_get_facility_config_dir fs 256 = Inr dir"
    and entries: "fs_dir fs dir = Some es" "\<forall>e \<in> set es. length e < 256"
  shows "osi_find_facility_config_path fs name create 512 =
    (case List.find (\<lambda>e. conf_entry e \<and> entry_name fs dir e = Some (cstr name)) es of
       Some e \<Rightarrow> Inr (dir @ ''/'' @ e)
     | None \<Rightarrow> if create then Inr (dir @ ''/'' @ osi_build_facility_filename name 256)
               else Inl ERR_NOT_FOUND)"
proof -
  have d: "length dir < 256" using facility_dir_total [of fs] dir by simp
  have f: "length (osi_build_facility_filename name 256) < 256"
    by (simp add: build_filename_256 min_less_iff_disj)
  have "snprintf_trunc 512 (dir @ CHR ''/'' # e) = dir @ CHR ''/'' # e \<and> length e < 256"
    if "List.find P es = Some e" for P e
  proof -
    have "length e < 256" using that entries(2) by (auto simp: find_Some_iff)
    with d show ?thesis by simp
  qed
  then show ?thesis
    using d f dir entries(1)
    by (auto simp: osi_find_facility_config_path_def find_path_loop_spec entry_path_whole
        split: option.splits)
qed

section \<open>The properties\<close>

text \<open>The file a facility name is stored under stays inside the directory: the name that the server
  makes from any bytes of a request has no slash, backslash, colon or control character, is neither
  empty nor a dot entry, ends with \<open>.conf\<close> and fits its buffer of 256 bytes.\<close>

theorem facility_filename_safe:
  "let f = osi_build_facility_filename name 256
   in set f \<inter> {CHR ''/'', CHR 0x5C, CHR '':''} = {} \<and> (\<forall>c \<in> set f. 32 \<le> (of_char c :: nat))
      \<and> conf_entry f \<and> length f < 256"
  by (rule built_filename)

text \<open>Looking a facility up. In a directory whose entries have names of at most 255 bytes, the path
  found is that of the first \<open>.conf\<close> file whose \<open>name\<close> is the requested one; when there is none, the
  lookup for reading says \<open>ERR_NOT_FOUND\<close> and the one for writing gives the made file name. No path
  is cut off by the buffer of 512 bytes.\<close>

theorem find_facility_path_spec:
  assumes dir: "osi_get_facility_config_dir fs 256 = Inr dir"
    and entries: "fs_dir fs dir = Some es" "\<forall>e \<in> set es. length e < 256"
  shows "osi_find_facility_config_path fs name create 512 =
    (case List.find (\<lambda>e. conf_entry e \<and> entry_name fs dir e = Some (cstr name)) es of
       Some e \<Rightarrow> Inr (dir @ ''/'' @ e)
     | None \<Rightarrow> if create then Inr (dir @ ''/'' @ osi_build_facility_filename name 256)
               else Inl ERR_NOT_FOUND)"
  using assms by (rule found_path)

definition sample_fs :: file_sys where
  "sample_fs = \<lparr>fs_read = (\<lambda>p. if p = ''/etc/maestro/facility/a_b.conf''
                               then Some (''name=a/b'' @ [NL]) else None),
                fs_dir = (\<lambda>d. if d = facility_dir_fallback then Some [''.'', ''..'', ''a_b.conf'']
                              else None)\<rparr>"

theorem find_facility_path_spec_witness:
  "osi_find_facility_config_path sample_fs ''a/b'' False 512 = Inr ''/etc/maestro/facility/a_b.conf''"
proof -
  have d: "osi_get_facility_config_dir sample_fs 256 = Inr facility_dir_fallback" by code_simp
  have es: "fs_dir sample_fs facility_dir_fallback = Some [''.'', ''..'', ''a_b.conf'']" by code_simp
  have f: "List.find (\<lambda>e. conf_entry e
      \<and> entry_name sample_fs facility_dir_fallback e = Some (cstr ''a/b''))
      [''.'', ''..'', ''a_b.conf''] = Some ''a_b.conf''" by code_simp
  show ?thesis
    using find_facility_path_spec [OF d es, of "''a/b''" False] unfolding f
    by (simp add: facility_dir_fallback_def)
qed

text \<open>Two facilities can share a file. When the facility \<open>a/b\<close> is stored, a configuration posted
  for the facility \<open>a:b\<close>, which no file names, goes to the very file of \<open>a/b\<close>.\<close>

theorem facility_filename_collision:
  "osi_find_facility_config_path sample_fs ''a:b'' False 512 = Inl ERR_NOT_FOUND
   \<and> osi_find_facility_config_path sample_fs ''a:b'' True 512
     = osi_find_facility_config_path sample_fs ''a/b'' False 512"
  by code_simp

text \<open>The list of facilities and the default one. With memory, the list is the names of the
  readable facility files in directory order, one to a line, and empty when there is none; the
  default facility is its first line, and it is \<open>ERR_NOT_FOUND\<close> exactly when the list is empty.\<close>

theorem facility_list_default:
  assumes dir: "osi_get_facility_config_dir fs 256 = Inr dir"
    and entries: "fs_dir fs dir = Some es"
  shows "osi_collect_facility_names mem_unlimited fs = Inr (unlines (facility_names fs dir es))
    \<and> osi_get_default_facility_name fs 128 =
        (case facility_names fs dir es of [] \<Rightarrow> Inl ERR_NOT_FOUND | v # vs \<Rightarrow> Inr v)"
proof
  let ?ts = "concat (map (\<lambda>v. [v, [NL]]) (facility_names fs dir es))"
  obtain b where b: "append_texts (osi_append_text mem_unlimited) empty_buf ?ts = Inr b"
    using append_texts_unlimited by blast
  have "buf_content b = unlines (facility_names fs dir es)"
    using text_buffer.append_texts_content [OF _ b] by (simp add: concat_names)
  then show "osi_collect_facility_names mem_unlimited fs = Inr (unlines (facility_names fs dir es))"
    using dir entries b
    by (auto simp: osi_collect_facility_names_def collect_loop_spec buf_content_def mem_unlimited_def
        split: option.splits)
  show "osi_get_default_facility_name fs 128 =
        (case facility_names fs dir es of [] \<Rightarrow> Inl ERR_NOT_FOUND | v # vs \<Rightarrow> Inr v)"
    using dir entries default_name_loop_spec [of fs dir es]
    by (simp add: osi_get_default_facility_name_def facility_name_size_def split: list.splits)
qed

theorem facility_list_default_witness:
  "osi_collect_facility_names mem_unlimited sample_fs = Inr (''a/b'' @ [NL])
   \<and> osi_get_default_facility_name sample_fs 128 = Inr ''a/b''"
proof -
  have d: "osi_get_facility_config_dir sample_fs 256 = Inr facility_dir_fallback" by code_simp
  have es: "fs_dir sample_fs facility_dir_fallback = Some [''.'', ''..'', ''a_b.conf'']" by code_simp
  have "facility_names sample_fs facility_dir_fallback [''.'', ''..'', ''a_b.conf''] = [''a/b'']"
    by code_simp
  with facility_list_default [OF d es] show ?thesis by simp
qed

theorem facility_filename_safe_witness:
  "conf_entry (osi_build_facility_filename ''../a'' 256)"
  using facility_filename_safe [of "''../a''"] by (simp add: Let_def)

end
