(* ===== verification/Meter_Json.thy ===== *)
theory Meter_Json
  imports Prelude
begin

text \<open>
  The meter reading (\<open>common/include/data/meter_reading.h\<close>) and its two JSON routines in
  \<open>server/src/opti/opti_instance.c\<close>: \<open>osi_parse_meter_reading_json\<close>, which \<open>POST /ingest\<close> runs on the
  body, and \<open>osi_meter_reading_to_json\<close>, which \<open>GET /power/current\<close> runs on the last reading. The
  fields of the struct are enumerations named as in C (\<open>MR_<field>\<close>), one for each type of field, so
  that the table of keys and flag bits is data and the two routines are loops over it in the order
  of the statements. The cJSON library is a record of its functions.
\<close>

section \<open>The record\<close>

datatype dfield =
    MR_energy_import_kwh | MR_energy_import_t1_kwh | MR_energy_import_t2_kwh
    | MR_energy_import_t3_kwh | MR_energy_import_t4_kwh | MR_energy_export_kwh
    | MR_energy_export_t1_kwh | MR_energy_export_t2_kwh | MR_energy_export_t3_kwh
    | MR_energy_export_t4_kwh | MR_power_w | MR_power_l1_w | MR_power_l2_w | MR_power_l3_w
    | MR_voltage_v | MR_voltage_l1_v | MR_voltage_l2_v | MR_voltage_l3_v | MR_current_a
    | MR_current_l1_a | MR_current_l2_a | MR_current_l3_a | MR_frequency_hz
    | MR_average_power_15m_w | MR_monthly_power_peak_w

datatype sfield =
    MR_unique_id | MR_meter_model | MR_timestamp | MR_monthly_power_peak_timestamp

datatype ufield =
    MR_voltage_sag_l1_count | MR_voltage_sag_l2_count | MR_voltage_sag_l3_count
    | MR_voltage_swell_l1_count | MR_voltage_swell_l2_count | MR_voltage_swell_l3_count
    | MR_any_power_fail_count | MR_long_power_fail_count

text \<open>\<open>Protocol\<close> and \<open>Tariff\<close> are the fields of 16 and 8 bits.\<close>

datatype meter_field = Dbl dfield | Str sfield | U32 ufield | Protocol | Tariff

record meter_reading =
  mr_flags :: "64 word"
  mr_str :: "sfield \<Rightarrow> string"
  mr_protocol :: "16 word"
  mr_tariff :: "8 word"
  mr_dbl :: "dfield \<Rightarrow> dbl"
  mr_u32 :: "ufield \<Rightarrow> 32 word"

definition str_size :: "sfield \<Rightarrow> nat" where
  "str_size f = (if f = MR_unique_id \<or> f = MR_meter_model then 64 else 20)"

text \<open>The struct after \<open>memset\<close> to 0.\<close>

definition zero_reading :: meter_reading where
  "zero_reading = \<lparr>mr_flags = 0, mr_str = (\<lambda>f. []), mr_protocol = 0, mr_tariff = 0,
                   mr_dbl = (\<lambda>f. 0), mr_u32 = (\<lambda>f. 0)\<rparr>"

section \<open>Reading values\<close>

text \<open>
  What the code uses of cJSON: \<open>cJSON_ParseWithLength\<close>, \<open>cJSON_GetObjectItemCaseSensitive\<close>, the
  number of an item that \<open>cJSON_IsNumber\<close> and the text of one that \<open>cJSON_IsString\<close>.
\<close>

record 'j cjson =
  cj_parse :: "string \<Rightarrow> 'j option"
  cj_get :: "'j \<Rightarrow> string \<Rightarrow> 'j option"
  cj_number :: "'j \<Rightarrow> dbl option"
  cj_string :: "'j \<Rightarrow> string option"

fun osi_get_json_item_any :: "'j cjson \<Rightarrow> 'j \<Rightarrow> string list \<Rightarrow> 'j option" where
  "osi_get_json_item_any J obj [] = None"
| "osi_get_json_item_any J obj (k # ks) =
     (case cj_get J obj k of Some item \<Rightarrow> Some item | None \<Rightarrow> osi_get_json_item_any J obj ks)"

definition osi_json_read_double_any :: "'j cjson \<Rightarrow> 'j \<Rightarrow> string list \<Rightarrow> dbl option" where
  "osi_json_read_double_any J obj keys =
     (case osi_get_json_item_any J obj keys of None \<Rightarrow> None | Some item \<Rightarrow> cj_number J item)"

text \<open>The three casts. C leaves a value outside the type undefined; the model wraps it.\<close>

definition osi_json_read_uint32_any :: "'j cjson \<Rightarrow> 'j \<Rightarrow> string list \<Rightarrow> 32 word option" where
  "osi_json_read_uint32_any J obj keys =
     (case osi_get_json_item_any J obj keys of None \<Rightarrow> None
      | Some item \<Rightarrow> map_option (\<lambda>x. word_of_int (c_trunc x)) (cj_number J item))"

definition osi_json_read_uint16_any :: "'j cjson \<Rightarrow> 'j \<Rightarrow> string list \<Rightarrow> 16 word option" where
  "osi_json_read_uint16_any J obj keys =
     (case osi_get_json_item_any J obj keys of None \<Rightarrow> None
      | Some item \<Rightarrow> map_option (\<lambda>x. word_of_int (c_trunc x)) (cj_number J item))"

definition osi_json_read_uint8_any :: "'j cjson \<Rightarrow> 'j \<Rightarrow> string list \<Rightarrow> 8 word option" where
  "osi_json_read_uint8_any J obj keys =
     (case osi_get_json_item_any J obj keys of None \<Rightarrow> None
      | Some item \<Rightarrow> map_option (\<lambda>x. word_of_int (c_trunc x)) (cj_number J item))"

definition osi_json_read_string_any :: "'j cjson \<Rightarrow> 'j \<Rightarrow> string list \<Rightarrow> nat \<Rightarrow> string option" where
  "osi_json_read_string_any J obj keys n =
     (case osi_get_json_item_any J obj keys of None \<Rightarrow> None
      | Some item \<Rightarrow> map_option (\<lambda>s. snprintf_trunc n (cstr s)) (cj_string J item))"

text \<open>The call for a field: the type of the field chooses the routine; \<open>None\<close> when it returns 0.\<close>

fun read_field ::
  "'j cjson \<Rightarrow> 'j \<Rightarrow> string list \<Rightarrow> meter_field \<Rightarrow> meter_reading \<Rightarrow> meter_reading option" where
  "read_field J obj keys (Dbl f) r =
     map_option (\<lambda>x. r\<lparr>mr_dbl := (mr_dbl r)(f := x)\<rparr>) (osi_json_read_double_any J obj keys)"
| "read_field J obj keys (Str f) r =
     map_option (\<lambda>s. r\<lparr>mr_str := (mr_str r)(f := s)\<rparr>)
       (osi_json_read_string_any J obj keys (str_size f))"
| "read_field J obj keys (U32 f) r =
     map_option (\<lambda>x. r\<lparr>mr_u32 := (mr_u32 r)(f := x)\<rparr>) (osi_json_read_uint32_any J obj keys)"
| "read_field J obj keys Protocol r =
     map_option (\<lambda>x. r\<lparr>mr_protocol := x\<rparr>) (osi_json_read_uint16_any J obj keys)"
| "read_field J obj keys Tariff r =
     map_option (\<lambda>x. r\<lparr>mr_tariff := x\<rparr>) (osi_json_read_uint8_any J obj keys)"

section \<open>Parsing a reading\<close>

text \<open>A statement \<open>if (read(...) || read(...)) present_flags |= bit\<close>: the keys and the field of each
  call of the condition, and the number of the bit.\<close>

type_synonym meter_row = "(string list \<times> meter_field) list \<times> nat"

definition meter_rows :: "meter_row list" where
  "meter_rows =
    [([([''unique_id'', ''id''], Str MR_unique_id)], 0),
     ([([''meter_model'', ''model''], Str MR_meter_model)], 2),
     ([([''timestamp''], Str MR_timestamp)], 3),
     ([([''protocol_version''], Protocol)], 1),
     ([([''tariff'', ''active_tariff''], Tariff)], 4),
     ([([''energy_import_kwh'', ''total_power_import_kwh''], Dbl MR_energy_import_kwh)], 5),
     ([([''energy_import_t1_kwh'', ''total_power_import_t1_kwh''], Dbl MR_energy_import_t1_kwh)], 6),
     ([([''energy_import_t2_kwh'', ''total_power_import_t2_kwh''], Dbl MR_energy_import_t2_kwh)], 7),
     ([([''energy_import_t3_kwh'', ''total_power_import_t3_kwh''], Dbl MR_energy_import_t3_kwh)], 8),
     ([([''energy_import_t4_kwh'', ''total_power_import_t4_kwh''], Dbl MR_energy_import_t4_kwh)], 9),
     ([([''energy_export_kwh'', ''total_power_export_kwh''], Dbl MR_energy_export_kwh)], 10),
     ([([''energy_export_t1_kwh'', ''total_power_export_t1_kwh''], Dbl MR_energy_export_t1_kwh)], 11),
     ([([''energy_export_t2_kwh'', ''total_power_export_t2_kwh''], Dbl MR_energy_export_t2_kwh)], 12),
     ([([''energy_export_t3_kwh'', ''total_power_export_t3_kwh''], Dbl MR_energy_export_t3_kwh)], 13),
     ([([''energy_export_t4_kwh'', ''total_power_export_t4_kwh''], Dbl MR_energy_export_t4_kwh)], 14),
     ([([''power_w'', ''active_power_w''], Dbl MR_power_w)], 15),
     ([([''power_l1_w'', ''active_power_l1_w''], Dbl MR_power_l1_w)], 16),
     ([([''power_l2_w'', ''active_power_l2_w''], Dbl MR_power_l2_w)], 17),
     ([([''power_l3_w'', ''active_power_l3_w''], Dbl MR_power_l3_w)], 18),
     ([([''voltage_v'', ''active_voltage_v''], Dbl MR_voltage_v)], 19),
     ([([''voltage_l1_v'', ''active_voltage_l1_v''], Dbl MR_voltage_l1_v)], 20),
     ([([''voltage_l2_v'', ''active_voltage_l2_v''], Dbl MR_voltage_l2_v)], 21),
     ([([''voltage_l3_v'', ''active_voltage_l3_v''], Dbl MR_voltage_l3_v)], 22),
     ([([''current_a'', ''active_current_a''], Dbl MR_current_a)], 23),
     ([([''current_l1_a'', ''active_current_l1_a''], Dbl MR_current_l1_a)], 24),
     ([([''current_l2_a'', ''active_current_l2_a''], Dbl MR_current_l2_a)], 25),
     ([([''current_l3_a'', ''active_current_l3_a''], Dbl MR_current_l3_a)], 26),
     ([([''frequency_hz'', ''active_frequency_hz''], Dbl MR_frequency_hz)], 27),
     ([([''voltage_sag_l1_count''], U32 MR_voltage_sag_l1_count),
       ([''voltage_sag_l2_count''], U32 MR_voltage_sag_l2_count),
       ([''voltage_sag_l3_count''], U32 MR_voltage_sag_l3_count)], 28),
     ([([''voltage_swell_l1_count''], U32 MR_voltage_swell_l1_count),
       ([''voltage_swell_l2_count''], U32 MR_voltage_swell_l2_count),
       ([''voltage_swell_l3_count''], U32 MR_voltage_swell_l3_count)], 29),
     ([([''any_power_fail_count'', ''any_power_failure_count''], U32 MR_any_power_fail_count),
       ([''long_power_fail_count'', ''long_power_failure_count''], U32 MR_long_power_fail_count)], 30),
     ([([''average_power_15m_w''], Dbl MR_average_power_15m_w)], 31),
     ([([''monthly_power_peak_w''], Dbl MR_monthly_power_peak_w),
       ([''monthly_power_peak_timestamp''], Str MR_monthly_power_peak_timestamp)], 32)]"

text \<open>The disjunction of a condition: the calls after the first that returns 1 are not made.\<close>

fun read_group ::
  "'j cjson \<Rightarrow> 'j \<Rightarrow> (string list \<times> meter_field) list \<Rightarrow> meter_reading \<Rightarrow> meter_reading option" where
  "read_group J obj [] r = None"
| "read_group J obj ((keys, f) # rest) r =
     (case read_field J obj keys f r of
        Some r' \<Rightarrow> Some r'
      | None \<Rightarrow> read_group J obj rest r)"

definition read_row :: "'j cjson \<Rightarrow> 'j \<Rightarrow> meter_row \<Rightarrow> meter_reading \<Rightarrow> meter_reading" where
  "read_row J obj row r =
     (case read_group J obj (fst row) r of
        None \<Rightarrow> r
      | Some r' \<Rightarrow> r'\<lparr>mr_flags := or (mr_flags r') (push_bit (snd row) 1)\<rparr>)"

definition present_power :: nat where
  "present_power = 15"

text \<open>The reading is \<open>None\<close> when the caller's struct is not touched.\<close>

definition osi_parse_meter_reading_json ::
  "'j cjson \<Rightarrow> string option \<Rightarrow> int \<Rightarrow> status \<times> meter_reading option" where
  "osi_parse_meter_reading_json J body body_len =
     (case body of
        None \<Rightarrow> (ERR_INVALID_ARG, None)
      | Some b \<Rightarrow>
          if body_len \<le> 0 then (ERR_INVALID_ARG, None)
          else case cj_parse J (take (nat body_len) b) of
            None \<Rightarrow> (ERR_INVALID_ARG, None)
          | Some obj \<Rightarrow>
              let r = fold (read_row J obj) meter_rows zero_reading
              in (if bit (mr_flags r) present_power then SUCCESS else ERR_INVALID_ARG, Some r))"

section \<open>Printing a reading\<close>

datatype json_val = JNum dbl | JStr string

definition output_rows :: "(nat \<times> string \<times> meter_field) list" where
  "output_rows =
    [(0, ''unique_id'', Str MR_unique_id),
     (2, ''meter_model'', Str MR_meter_model),
     (3, ''timestamp'', Str MR_timestamp),
     (1, ''protocol_version'', Protocol),
     (4, ''tariff'', Tariff),
     (5, ''energy_import_kwh'', Dbl MR_energy_import_kwh),
     (6, ''energy_import_t1_kwh'', Dbl MR_energy_import_t1_kwh),
     (7, ''energy_import_t2_kwh'', Dbl MR_energy_import_t2_kwh),
     (8, ''energy_import_t3_kwh'', Dbl MR_energy_import_t3_kwh),
     (9, ''energy_import_t4_kwh'', Dbl MR_energy_import_t4_kwh),
     (10, ''energy_export_kwh'', Dbl MR_energy_export_kwh),
     (11, ''energy_export_t1_kwh'', Dbl MR_energy_export_t1_kwh),
     (12, ''energy_export_t2_kwh'', Dbl MR_energy_export_t2_kwh),
     (13, ''energy_export_t3_kwh'', Dbl MR_energy_export_t3_kwh),
     (14, ''energy_export_t4_kwh'', Dbl MR_energy_export_t4_kwh),
     (15, ''power_w'', Dbl MR_power_w),
     (16, ''power_l1_w'', Dbl MR_power_l1_w),
     (17, ''power_l2_w'', Dbl MR_power_l2_w),
     (18, ''power_l3_w'', Dbl MR_power_l3_w),
     (19, ''voltage_v'', Dbl MR_voltage_v),
     (20, ''voltage_l1_v'', Dbl MR_voltage_l1_v),
     (21, ''voltage_l2_v'', Dbl MR_voltage_l2_v),
     (22, ''voltage_l3_v'', Dbl MR_voltage_l3_v),
     (23, ''current_a'', Dbl MR_current_a),
     (24, ''current_l1_a'', Dbl MR_current_l1_a),
     (25, ''current_l2_a'', Dbl MR_current_l2_a),
     (26, ''current_l3_a'', Dbl MR_current_l3_a),
     (27, ''frequency_hz'', Dbl MR_frequency_hz),
     (28, ''voltage_sag_l1_count'', U32 MR_voltage_sag_l1_count),
     (28, ''voltage_sag_l2_count'', U32 MR_voltage_sag_l2_count),
     (28, ''voltage_sag_l3_count'', U32 MR_voltage_sag_l3_count),
     (29, ''voltage_swell_l1_count'', U32 MR_voltage_swell_l1_count),
     (29, ''voltage_swell_l2_count'', U32 MR_voltage_swell_l2_count),
     (29, ''voltage_swell_l3_count'', U32 MR_voltage_swell_l3_count),
     (30, ''any_power_fail_count'', U32 MR_any_power_fail_count),
     (30, ''long_power_fail_count'', U32 MR_long_power_fail_count),
     (31, ''average_power_15m_w'', Dbl MR_average_power_15m_w),
     (32, ''monthly_power_peak_w'', Dbl MR_monthly_power_peak_w),
     (32, ''monthly_power_peak_timestamp'', Str MR_monthly_power_peak_timestamp)]"

text \<open>The value of a field as \<open>osi_json_add_string_if_present\<close>, \<open>osi_json_add_number_if_present\<close> and
  \<open>osi_json_add_uint_if_present\<close> pass it to cJSON.\<close>

fun field_json :: "meter_reading \<Rightarrow> meter_field \<Rightarrow> json_val" where
  "field_json r (Dbl f) = JNum (mr_dbl r f)"
| "field_json r (Str f) = JStr (mr_str r f)"
| "field_json r (U32 f) = JNum (of_nat (unat (mr_u32 r f)))"
| "field_json r Protocol = JNum (of_nat (unat (mr_protocol r)))"
| "field_json r Tariff = JNum (of_nat (unat (mr_tariff r)))"

definition add_if_present ::
  "meter_reading \<Rightarrow> nat \<times> string \<times> meter_field \<Rightarrow> (string \<times> json_val) list" where
  "add_if_present r row = (case row of (b, k, f) \<Rightarrow>
     if bit (mr_flags r) b then [(k, field_json r f)] else [])"

definition reading_items :: "meter_reading \<Rightarrow> int \<Rightarrow> (string \<times> json_val) list" where
  "reading_items r received_at =
     [(''received_at'', JNum (of_int received_at)),
      (''present_flags'', JNum (of_nat (unat (mr_flags r))))]
     @ concat (map (add_if_present r) output_rows)"

text \<open>\<open>print\<close> is \<open>cJSON_CreateObject\<close> with the calls that add the items and \<open>cJSON_PrintUnformatted\<close>;
  it is NULL when memory runs out.\<close>

definition osi_meter_reading_to_json ::
  "((string \<times> json_val) list \<Rightarrow> string option) \<Rightarrow> meter_reading \<Rightarrow> int \<Rightarrow> string result" where
  "osi_meter_reading_to_json print r received_at =
     (case print (reading_items r received_at) of
        None \<Rightarrow> Inl ERR_NO_MEMORY
      | Some s \<Rightarrow> Inr s)"

section \<open>What the table computes\<close>

datatype fvalue = VD dbl | VS string | V32 "32 word" | V16 "16 word" | V8 "8 word"

fun fval :: "meter_reading \<Rightarrow> meter_field \<Rightarrow> fvalue" where
  "fval r (Dbl f) = VD (mr_dbl r f)"
| "fval r (Str f) = VS (mr_str r f)"
| "fval r (U32 f) = V32 (mr_u32 r f)"
| "fval r Protocol = V16 (mr_protocol r)"
| "fval r Tariff = V8 (mr_tariff r)"

text \<open>The value that the call for a field reads, if any.\<close>

fun read_value :: "'j cjson \<Rightarrow> 'j \<Rightarrow> string list \<Rightarrow> meter_field \<Rightarrow> fvalue option" where
  "read_value J obj keys (Dbl f) = map_option VD (osi_json_read_double_any J obj keys)"
| "read_value J obj keys (Str f) = map_option VS (osi_json_read_string_any J obj keys (str_size f))"
| "read_value J obj keys (U32 f) = map_option V32 (osi_json_read_uint32_any J obj keys)"
| "read_value J obj keys Protocol = map_option V16 (osi_json_read_uint16_any J obj keys)"
| "read_value J obj keys Tariff = map_option V8 (osi_json_read_uint8_any J obj keys)"

fun group_value ::
  "'j cjson \<Rightarrow> 'j \<Rightarrow> (string list \<times> meter_field) list \<Rightarrow> (meter_field \<times> fvalue) option" where
  "group_value J obj [] = None"
| "group_value J obj ((keys, f) # rest) =
     (case read_value J obj keys f of Some v \<Rightarrow> Some (f, v) | None \<Rightarrow> group_value J obj rest)"

lemma all_fields: "(\<forall>g. P g) \<longleftrightarrow>
   (\<forall>x. P (Dbl x)) \<and> (\<forall>x. P (Str x)) \<and> (\<forall>x. P (U32 x)) \<and> P Protocol \<and> P Tariff"
  by (metis meter_field.exhaust)

lemma fval_flags [simp]: "fval (r\<lparr>mr_flags := w\<rparr>) = fval r"
  by (simp add: fun_eq_iff all_fields)

lemma fval_updates:
  "fval (r\<lparr>mr_dbl := (mr_dbl r)(d := x)\<rparr>) = (fval r)(Dbl d := VD x)"
  "fval (r\<lparr>mr_str := (mr_str r)(s := t)\<rparr>) = (fval r)(Str s := VS t)"
  "fval (r\<lparr>mr_u32 := (mr_u32 r)(u := w)\<rparr>) = (fval r)(U32 u := V32 w)"
  "fval (r\<lparr>mr_protocol := p\<rparr>) = (fval r)(Protocol := V16 p)"
  "fval (r\<lparr>mr_tariff := b\<rparr>) = (fval r)(Tariff := V8 b)"
  by (simp_all add: fun_eq_iff all_fields)

lemma read_field_spec:
  "case read_field J obj keys f r of
     None \<Rightarrow> read_value J obj keys f = None
   | Some r' \<Rightarrow> mr_flags r' = mr_flags r
       \<and> (\<exists>v. read_value J obj keys f = Some v \<and> fval r' = (fval r)(f := v))"
  by (cases f) (auto split: option.split simp: fval_updates)

lemma read_group_spec:
  "case read_group J obj grp r of
     None \<Rightarrow> group_value J obj grp = None
   | Some r' \<Rightarrow> mr_flags r' = mr_flags r
       \<and> (\<exists>f v. group_value J obj grp = Some (f, v) \<and> fval r' = (fval r)(f := v))"
proof (induction grp)
  case (Cons x rest)
  obtain keys f where x: "x = (keys, f)" by (cases x)
  show ?case
    using Cons read_field_spec [of J obj keys f r]
    by (cases "read_field J obj keys f r") (auto simp: x split: option.splits)
qed simp

lemma read_row_spec:
  "fval (read_row J obj row r) = (case group_value J obj (fst row) of
      None \<Rightarrow> fval r | Some (f, v) \<Rightarrow> (fval r)(f := v))"
  "mr_flags (read_row J obj row r) = (if group_value J obj (fst row) = None then mr_flags r
      else or (mr_flags r) (push_bit (snd row) 1))"
  using read_group_spec [of J obj "fst row" r]
  by (auto simp: read_row_def split: option.splits)

lemma bit_or_flag: "bit (or (w :: 64 word) (2 ^ m)) n \<longleftrightarrow> bit w n \<or> (n = m \<and> n < 64)"
  by (auto simp: bit_or_iff bit_exp_iff)

lemma fold_rows_flags:
  "n < 64 \<Longrightarrow> bit (mr_flags (fold (read_row J obj) rows r)) n \<longleftrightarrow>
     bit (mr_flags r) n \<or> (\<exists>row \<in> set rows. snd row = n \<and> group_value J obj (fst row) \<noteq> None)"
  by (induction rows arbitrary: r) (auto simp: read_row_spec bit_or_flag)

definition row_fields :: "meter_row \<Rightarrow> meter_field list" where
  "row_fields row = map snd (fst row)"

lemma group_value_field: "group_value J obj grp = Some (f, v) \<Longrightarrow> f \<in> set (map snd grp)"
  by (induction grp) (auto split: option.splits)

lemma fold_rows_other:
  "g \<notin> set (concat (map row_fields rows)) \<Longrightarrow>
     fval (fold (read_row J obj) rows r) g = fval r g"
  by (induction rows arbitrary: r)
    (auto simp: read_row_spec row_fields_def split: option.splits dest!: group_value_field)

lemma fold_rows_value:
  assumes "distinct (concat (map row_fields rows))" "row \<in> set rows" "g \<in> set (row_fields row)"
  shows "fval (fold (read_row J obj) rows r) g = (case group_value J obj (fst row) of
      None \<Rightarrow> fval r g | Some (f, v) \<Rightarrow> if g = f then v else fval r g)"
  using assms
proof (induction rows arbitrary: r)
  case (Cons x rows)
  show ?case
  proof (cases "row \<in> set rows")
    case True
    have "g \<notin> set (row_fields x)" using Cons.prems(1,3) True by auto
    then have "fval (read_row J obj x r) g = fval r g"
      by (auto simp: read_row_spec row_fields_def split: option.splits dest!: group_value_field)
    with Cons True show ?thesis by (simp split: option.splits)
  next
    case False
    with Cons.prems have x: "x = row" and "g \<notin> set (concat (map row_fields rows))" by auto
    then have "fval (fold (read_row J obj) (x # rows) r) g = fval (read_row J obj x r) g"
      by (simp add: fold_rows_other)
    with x show ?thesis by (auto simp: read_row_spec split: option.splits)
  qed
qed simp

lemma meter_rows_distinct: "distinct (concat (map row_fields meter_rows))"
  by code_simp

lemma meter_rows_bits: "distinct (map snd meter_rows)" "\<forall>row \<in> set meter_rows. snd row \<le> 32"
  by code_simp+

section \<open>The printed object\<close>

text \<open>An object of the library that has exactly the items.\<close>

definition json_of :: "'j cjson \<Rightarrow> 'j \<Rightarrow> (string \<times> json_val) list \<Rightarrow> bool" where
  "json_of J obj items \<longleftrightarrow> (\<forall>k. case map_of items k of
      None \<Rightarrow> cj_get J obj k = None
    | Some v \<Rightarrow> (\<exists>i. cj_get J obj k = Some i
        \<and> cj_number J i = (case v of JNum x \<Rightarrow> Some x | JStr s \<Rightarrow> None)
        \<and> cj_string J i = (case v of JNum x \<Rightarrow> None | JStr s \<Rightarrow> Some s)))"

lemma add_row [simp]: "add_if_present r (b, k, f)
    = (if bit (mr_flags r) b then [(k, field_json r f)] else [])"
  by (simp add: add_if_present_def)

lemma json_of_Some:
  "json_of J obj items \<Longrightarrow> map_of items k = Some v \<Longrightarrow> \<exists>i. cj_get J obj k = Some i
     \<and> cj_number J i = (case v of JNum x \<Rightarrow> Some x | JStr s \<Rightarrow> None)
     \<and> cj_string J i = (case v of JNum x \<Rightarrow> None | JStr s \<Rightarrow> Some s)"
  unfolding json_of_def by (drule spec [of _ k]) simp

lemma map_of_rows:
  assumes "distinct (map (\<lambda>(b, k, f). k) rows)"
  shows "(b, k, f) \<in> set rows \<Longrightarrow> map_of (concat (map (add_if_present r) rows)) k
       = (if bit (mr_flags r) b then Some (field_json r f) else None)"
    and "k \<notin> (\<lambda>(b, k, f). k) ` set rows \<Longrightarrow> map_of (concat (map (add_if_present r) rows)) k = None"
proof -
  show none: "k \<notin> (\<lambda>(b, k, f). k) ` set rows \<Longrightarrow>
      map_of (concat (map (add_if_present r) rows)) k = None" for k and rows :: "(nat \<times> string \<times> meter_field) list"
    by (induction rows) auto
  show "(b, k, f) \<in> set rows \<Longrightarrow> map_of (concat (map (add_if_present r) rows)) k
       = (if bit (mr_flags r) b then Some (field_json r f) else None)"
    using assms
  proof (induction rows)
    case (Cons x rows)
    obtain b' k' f' where x: "x = (b', k', f')" by (cases x)
    show ?case
    proof (cases "x = (b, k, f)")
      case True
      then have "k \<notin> (\<lambda>(b, k, f). k) ` set rows" using Cons.prems(2) by (auto simp: image_iff)
      with True none [of k rows] show ?thesis by simp
    next
      case False
      with Cons.prems have m: "(b, k, f) \<in> set rows" "distinct (map (\<lambda>(b, k, f). k) rows)" by auto
      then have "k \<noteq> k'" using Cons.prems(2) x by (force simp: image_iff)
      with Cons.IH [OF m] show ?thesis by (simp add: x)
    qed
  qed simp
qed

lemma output_keys:
  "distinct (map (\<lambda>(b, k, f). k) output_rows)"
  "''received_at'' \<notin> (\<lambda>(b, k, f). k) ` set output_rows"
  "''present_flags'' \<notin> (\<lambda>(b, k, f). k) ` set output_rows"
  by code_simp+

text \<open>The first call of each condition reads the field under the key it is printed with, and the
  other keys are not printed.\<close>

definition row_matches :: "meter_row \<Rightarrow> bool" where
  "row_matches row = list_all (\<lambda>(keys, f).
      (snd row, hd keys, f) \<in> set output_rows \<and> keys \<noteq> []
      \<and> list_all (\<lambda>k. k \<notin> set (map (\<lambda>(b, k, f). k) output_rows)
           \<and> k \<noteq> ''received_at'' \<and> k \<noteq> ''present_flags'') (tl keys)) (fst row)"

lemma rows_match: "list_all row_matches meter_rows"
  by code_simp

definition strings_fit :: "meter_reading \<Rightarrow> bool" where
  "strings_fit r \<longleftrightarrow> (\<forall>f. NUL \<notin> set (mr_str r f) \<and> length (mr_str r f) < str_size f)"

lemma c_trunc_nat [simp]: "c_trunc (of_nat n) = int n"
  by (simp add: c_trunc_def)

lemma word_of_trunc [simp]: "word_of_int (c_trunc (unsigned (w :: 'a::len word))) = w"
proof -
  have "(unsigned w :: rat) = of_nat (unat w)" by simp
  then show ?thesis by (simp only: c_trunc_nat) simp
qed

lemma read_value_item:
  assumes "osi_get_json_item_any J obj keys = Some i" "strings_fit r"
    and "cj_number J i = (case field_json r f of JNum x \<Rightarrow> Some x | JStr s \<Rightarrow> None)"
    and "cj_string J i = (case field_json r f of JNum x \<Rightarrow> None | JStr s \<Rightarrow> Some s)"
  shows "read_value J obj keys f = Some (fval r f)"
  using assms
  by (cases f) (simp_all add: osi_json_read_double_any_def osi_json_read_uint32_any_def
      osi_json_read_uint16_any_def osi_json_read_uint8_any_def osi_json_read_string_any_def
      strings_fit_def)

lemma read_value_none: "osi_get_json_item_any J obj keys = None \<Longrightarrow> read_value J obj keys f = None"
  by (cases f) (simp_all add: osi_json_read_double_any_def osi_json_read_uint32_any_def
      osi_json_read_uint16_any_def osi_json_read_uint8_any_def osi_json_read_string_any_def)

lemma no_alias: "\<forall>k \<in> set ks. cj_get J obj k = None \<Longrightarrow> osi_get_json_item_any J obj ks = None"
  by (induction ks) auto

lemma read_printed:
  assumes "json_of J obj (reading_items r t)" "strings_fit r"
    and row: "row \<in> set meter_rows" "(keys, f) \<in> set (fst row)"
  shows "read_value J obj keys f = (if bit (mr_flags r) (snd row) then Some (fval r f) else None)"
proof -
  let ?ok = "(\<lambda>(b, k, f). k) ` set output_rows"
  have matches: "row_matches row" using rows_match row(1) by (simp add: list_all_iff)
  have m: "(snd row, hd keys, f) \<in> set output_rows" "keys \<noteq> []"
    "\<forall>k \<in> set (tl keys). k \<notin> ?ok \<and> k \<noteq> ''received_at'' \<and> k \<noteq> ''present_flags''"
    using bspec [OF matches [unfolded row_matches_def list_all_iff] row(2)]
    by (simp_all add: list_all_iff)
  have hd: "hd keys \<noteq> ''received_at''" "hd keys \<noteq> ''present_flags''"
    using m(1) output_keys(2,3) by (force simp: image_iff)+
  have none: "map_of (reading_items r t) k = None \<Longrightarrow> cj_get J obj k = None" for k
    using assms(1) by (auto simp: json_of_def dest: spec [of _ k])
  have items: "map_of (reading_items r t) (hd keys)
      = (if bit (mr_flags r) (snd row) then Some (field_json r f) else None)"
    using map_of_rows(1) [OF output_keys(1) m(1), of r] hd by (simp add: reading_items_def)
  have others: "osi_get_json_item_any J obj (tl keys) = None"
    using m(3) map_of_rows(2) [OF output_keys(1)] none
    by (intro no_alias) (auto simp: reading_items_def)
  have keys: "keys = hd keys # tl keys" using m(2) by simp
  show ?thesis
  proof (cases "bit (mr_flags r) (snd row)")
    case True
    with items assms(1) obtain i where i: "cj_get J obj (hd keys) = Some i"
      "cj_number J i = (case field_json r f of JNum x \<Rightarrow> Some x | JStr s \<Rightarrow> None)"
      "cj_string J i = (case field_json r f of JNum x \<Rightarrow> None | JStr s \<Rightarrow> Some s)"
      using json_of_Some [OF assms(1)] by auto
    then have "osi_get_json_item_any J obj keys = Some i" by (subst keys) simp
    from read_value_item [OF this assms(2) i(2,3)] True show ?thesis by simp
  next
    case False
    with items none have "osi_get_json_item_any J obj keys = None"
      by (subst keys) (simp add: others)
    with False show ?thesis by (simp add: read_value_none)
  qed
qed

text \<open>The fields that a second call of a condition reads.\<close>

definition shadowed :: "meter_field list" where
  "shadowed = [U32 MR_voltage_sag_l2_count, U32 MR_voltage_sag_l3_count,
     U32 MR_voltage_swell_l2_count, U32 MR_voltage_swell_l3_count, U32 MR_long_power_fail_count,
     Str MR_monthly_power_peak_timestamp]"

lemma shadowed_rows: "list_all (\<lambda>row. fst row \<noteq> [] \<and> set (tl (row_fields row)) \<subseteq> set shadowed
    \<and> hd (row_fields row) \<notin> set shadowed) meter_rows"
  by code_simp

lemma group_printed:
  assumes "json_of J obj (reading_items r t)" "strings_fit r" "row \<in> set meter_rows"
  shows "group_value J obj (fst row) = (if bit (mr_flags r) (snd row)
      then Some (hd (row_fields row), fval r (hd (row_fields row))) else None)"
proof -
  have "group_value J obj grp = (if bit (mr_flags r) (snd row)
      then Some (snd (hd grp), fval r (snd (hd grp))) else None)"
    if "grp \<noteq> []" "set grp \<subseteq> set (fst row)" for grp
    using that
  proof (induction grp rule: list_nonempty_induct)
    case (single x)
    then show ?case using read_printed [OF assms, of "fst x" "snd x"] by (cases x) simp
  next
    case (cons x grp)
    then show ?case using read_printed [OF assms, of "fst x" "snd x"] by (cases x) simp
  qed
  moreover have "fst row \<noteq> []" using shadowed_rows assms(3) by (simp add: list_all_iff)
  ultimately show ?thesis by (simp add: row_fields_def hd_map)
qed

section \<open>The properties\<close>

text \<open>A reading is accepted exactly when the body is a JSON object with a number under \<open>power_w\<close>,
  or, where \<open>power_w\<close> is absent, under \<open>active_power_w\<close>; every other body is \<open>ERR_INVALID_ARG\<close>.\<close>

theorem ingest_accepts:
  "fst (osi_parse_meter_reading_json J (Some body) len) =
    (if 0 < len \<and> (\<exists>obj. cj_parse J (take (nat len) body) = Some obj
         \<and> osi_json_read_double_any J obj [''power_w'', ''active_power_w''] \<noteq> None)
     then SUCCESS else ERR_INVALID_ARG)"
proof -
  have rows: "(\<exists>row \<in> set meter_rows. snd row = present_power \<and> group_value J obj (fst row) \<noteq> None)
      \<longleftrightarrow> osi_json_read_double_any J obj [''power_w'', ''active_power_w''] \<noteq> None" for obj
    by (simp add: meter_rows_def present_power_def split: option.splits)
  have "bit (mr_flags (fold (read_row J obj) meter_rows zero_reading)) present_power
      \<longleftrightarrow> osi_json_read_double_any J obj [''power_w'', ''active_power_w''] \<noteq> None" for obj
    unfolding rows [symmetric]
    by (subst fold_rows_flags) (simp_all add: present_power_def zero_reading_def)
  then show ?thesis
    by (auto simp: osi_parse_meter_reading_json_def Let_def split: option.splits)
qed

text \<open>What a parsed reading holds. A condition of the parser sets its bit exactly when one of its
  calls finds a value; the field of the first such call holds it, and the other fields of the
  condition are zero.\<close>

theorem ingest_reading_fields:
  assumes parse: "osi_parse_meter_reading_json J (Some body) len = (st, Some r)"
    and obj: "cj_parse J (take (nat len) body) = Some obj"
    and row: "row \<in> set meter_rows"
  shows "(bit (mr_flags r) (snd row) \<longleftrightarrow> (\<exists>(keys, f) \<in> set (fst row). read_value J obj keys f \<noteq> None))
    \<and> (\<forall>g \<in> set (row_fields row). fval r g = (case group_value J obj (fst row) of
          None \<Rightarrow> fval zero_reading g
        | Some (f, v) \<Rightarrow> if g = f then v else fval zero_reading g))"
proof
  have r: "r = fold (read_row J obj) meter_rows zero_reading"
    using parse obj by (simp add: osi_parse_meter_reading_json_def Let_def split: if_splits)
  have some: "group_value J obj grp \<noteq> None \<longleftrightarrow>
      (\<exists>(keys, f) \<in> set grp. read_value J obj keys f \<noteq> None)" for grp
    by (induction grp) (auto split: option.splits)
  have n: "snd row < 64" using meter_rows_bits(2) row by force
  have "row' = row" if "row' \<in> set meter_rows" "snd row' = snd row" for row'
    using meter_rows_bits(1) row that by (auto simp: distinct_map inj_on_def)
  then have "bit (mr_flags r) (snd row) \<longleftrightarrow> group_value J obj (fst row) \<noteq> None"
    unfolding r fold_rows_flags [OF n] using row by (auto simp: zero_reading_def)
  with some show "bit (mr_flags r) (snd row)
      \<longleftrightarrow> (\<exists>(keys, f) \<in> set (fst row). read_value J obj keys f \<noteq> None)" by simp
  show "\<forall>g \<in> set (row_fields row). fval r g = (case group_value J obj (fst row) of
          None \<Rightarrow> fval zero_reading g
        | Some (f, v) \<Rightarrow> if g = f then v else fval zero_reading g)"
    unfolding r by (intro ballI fold_rows_value [OF meter_rows_distinct row])
qed

text \<open>An instance of the library record: objects are their items.\<close>

datatype tree = Leaf json_val | Obj "(string \<times> json_val) list"

definition tree_json :: "(string \<Rightarrow> (string \<times> json_val) list option) \<Rightarrow> tree cjson" where
  "tree_json p = \<lparr>cj_parse = (\<lambda>s. map_option Obj (p s)),
     cj_get = (\<lambda>j k. case j of Leaf v \<Rightarrow> None | Obj m \<Rightarrow> map_option Leaf (map_of m k)),
     cj_number = (\<lambda>j. case j of Leaf (JNum x) \<Rightarrow> Some x | _ \<Rightarrow> None),
     cj_string = (\<lambda>j. case j of Leaf (JStr s) \<Rightarrow> Some s | _ \<Rightarrow> None)\<rparr>"

lemma tree_json_of: "json_of (tree_json p) (Obj items) items"
  by (auto simp: json_of_def tree_json_def split: option.split json_val.split)

definition sample_items :: "(string \<times> json_val) list" where
  "sample_items = [(''active_power_w'', JNum 500), (''voltage_sag_l1_count'', JNum 1),
                   (''voltage_sag_l2_count'', JNum 7), (''monthly_power_peak_w'', JNum 4000),
                   (''monthly_power_peak_timestamp'', JStr ''2024-01-01T10:00:00'')]"

definition sample_json :: "tree cjson" where
  "sample_json = tree_json (\<lambda>s. Some sample_items)"

theorem ingest_reading_fields_witness:
  "\<exists>r. osi_parse_meter_reading_json sample_json (Some ''{}'') 2 = (SUCCESS, Some r)
     \<and> bit (mr_flags r) 15 \<and> fval r (Dbl MR_power_w) = VD 500"
proof -
  let ?row = "([([''power_w'', ''active_power_w''], Dbl MR_power_w)], 15)"
  have "fst (osi_parse_meter_reading_json sample_json (Some ''{}'') 2) = SUCCESS" by code_simp
  then obtain r where p: "osi_parse_meter_reading_json sample_json (Some ''{}'') 2 = (SUCCESS, Some r)"
    by (auto simp: osi_parse_meter_reading_json_def Let_def split: option.splits if_splits)
  have o: "cj_parse sample_json (take (nat 2) ''{}'') = Some (Obj sample_items)"
    by (simp add: sample_json_def tree_json_def)
  have row: "?row \<in> set meter_rows" by (simp add: meter_rows_def)
  have "group_value sample_json (Obj sample_items) (fst ?row) = Some (Dbl MR_power_w, VD 500)"
    "read_value sample_json (Obj sample_items) [''power_w'', ''active_power_w''] (Dbl MR_power_w)
      = Some (VD 500)"
    by code_simp+
  with ingest_reading_fields [OF p o row] show ?thesis
    using p by (auto simp: row_fields_def)
qed

text \<open>C29: Reading back what the server prints. When the printed object of a reading is parsed, the
  result has the same bits and the same fields, absent ones zero, except the fields that a second
  call of a condition reads, which are lost.\<close>

theorem reading_json_roundtrip:
  assumes printed: "osi_meter_reading_to_json print r t = Inr s" "s \<noteq> []"
    and parsed: "cj_parse J s = Some obj" "json_of J obj (reading_items r t)"
    and reading: "bit (mr_flags r) present_power" "strings_fit r"
  shows "\<exists>r'. osi_parse_meter_reading_json J (Some s) (int (length s)) = (SUCCESS, Some r')
     \<and> (\<forall>b \<le> 32. bit (mr_flags r') b = bit (mr_flags r) b)
     \<and> (\<forall>row \<in> set meter_rows. \<forall>f \<in> set (row_fields row). fval r' f =
          (if bit (mr_flags r) (snd row) \<and> f \<notin> set shadowed then fval r f else fval zero_reading f))"
proof -
  let ?r = "fold (read_row J obj) meter_rows zero_reading"
  have "bit (mr_flags ?r) b = bit (mr_flags r) b" if "b \<le> 32" for b
  proof -
    have "\<forall>b \<in> set [0..<33]. b \<in> set (map snd meter_rows)" by code_simp
    then have "b \<in> set (map snd meter_rows)" using that by simp
    then obtain row where row: "row \<in> set meter_rows" "snd row = b" by auto
    have "row' = row" if "row' \<in> set meter_rows" "snd row' = b" for row'
      using meter_rows_bits(1) row that by (auto simp: distinct_map inj_on_def)
    then have "(\<exists>row \<in> set meter_rows. snd row = b \<and> group_value J obj (fst row) \<noteq> None)
        \<longleftrightarrow> bit (mr_flags r) b"
      using row group_printed [OF parsed(2) reading(2)] by auto
    with that show ?thesis by (subst fold_rows_flags) (simp_all add: zero_reading_def)
  qed
  moreover have "fval ?r f =
      (if bit (mr_flags r) (snd row) \<and> f \<notin> set shadowed then fval r f else fval zero_reading f)"
    if row: "row \<in> set meter_rows" and f: "f \<in> set (row_fields row)" for row f
  proof -
    have "f = hd (row_fields row) \<longleftrightarrow> f \<notin> set shadowed"
      using bspec [OF shadowed_rows [unfolded list_all_iff] row] f
      by (cases "row_fields row") auto
    then show ?thesis
      unfolding fold_rows_value [OF meter_rows_distinct row f]
        group_printed [OF parsed(2) reading(2) row]
      by auto
  qed
  moreover have "osi_parse_meter_reading_json J (Some s) (int (length s))
      = (if bit (mr_flags ?r) present_power then SUCCESS else ERR_INVALID_ARG, Some ?r)"
    using printed(2) parsed(1) by (simp add: osi_parse_meter_reading_json_def Let_def)
  ultimately show ?thesis using reading(1) by (auto simp: present_power_def)
qed

definition sample_reading :: meter_reading where
  "sample_reading = zero_reading\<lparr>mr_flags := 2 ^ 15,
     mr_dbl := (\<lambda>f. if f = MR_power_w then 500 else 0)\<rparr>"

theorem reading_json_roundtrip_witness:
  "\<exists>J :: tree cjson. \<exists>r'. osi_parse_meter_reading_json J (Some ''x'') 1 = (SUCCESS, Some r')
     \<and> fval r' (Dbl MR_power_w) = VD 500"
proof -
  let ?items = "reading_items sample_reading 0"
    and ?row = "([([''power_w'', ''active_power_w''], Dbl MR_power_w)], 15)"
  let ?J = "tree_json (\<lambda>s. Some ?items)"
  have p: "osi_meter_reading_to_json (\<lambda>i. Some ''x'') sample_reading 0 = Inr ''x''"
    by (simp add: osi_meter_reading_to_json_def)
  have c: "cj_parse ?J ''x'' = Some (Obj ?items)" by (simp add: tree_json_def)
  have b: "bit (mr_flags sample_reading) present_power"
    by (simp add: sample_reading_def present_power_def bit_exp_iff)
  have s: "strings_fit sample_reading"
    by (simp add: strings_fit_def sample_reading_def zero_reading_def str_size_def)
  have row: "?row \<in> set meter_rows" "Dbl MR_power_w \<in> set (row_fields ?row)"
    by (simp_all add: meter_rows_def row_fields_def)
  obtain r' where r': "osi_parse_meter_reading_json ?J (Some ''x'') (int (length ''x'')) = (SUCCESS, Some r')"
    "\<forall>row \<in> set meter_rows. \<forall>f \<in> set (row_fields row). fval r' f =
       (if bit (mr_flags sample_reading) (snd row) \<and> f \<notin> set shadowed then fval sample_reading f
        else fval zero_reading f)"
    using reading_json_roundtrip [OF p _ c tree_json_of b s] by blast
  have "fval r' (Dbl MR_power_w) = VD 500"
    using bspec [OF bspec [OF r'(2) row(1)] row(2)] b
    by (simp add: shadowed_def present_power_def) (simp add: sample_reading_def)
  with r'(1) show ?thesis by auto
qed

text \<open>The conditions with several calls lose counters: of an object with a voltage sag count for
  phases 1 and 2 and a monthly peak with its time, the reading keeps the count of phase 1 and the
  peak, and its count of phase 2 and its peak time stay zero, though their bits are set.\<close>

theorem ingest_loses_phase_counters:
  "case osi_parse_meter_reading_json sample_json (Some ''{}'') 2 of
     (st, None) \<Rightarrow> False
   | (st, Some r) \<Rightarrow> st = SUCCESS \<and> bit (mr_flags r) 28 \<and> bit (mr_flags r) 32
       \<and> mr_u32 r MR_voltage_sag_l1_count = 1 \<and> mr_u32 r MR_voltage_sag_l2_count = 0
       \<and> mr_dbl r MR_monthly_power_peak_w = 4000
       \<and> mr_str r MR_monthly_power_peak_timestamp = []"
  by code_simp

end
