(* ===== verification/Meter_Store.thy ===== *)
theory Meter_Store
  imports Meter_Json "HOL-Library.Multiset"
begin

text \<open>
  The database of meter readings (\<open>common/src/meter_reading_store.c\<close>). The state is what the
  connection sees of the table \<open>meter_readings\<close>, what is committed, and whether a transaction is
  open; the operations are \<open>meter_store_open\<close>, \<open>meter_store_init_schema\<close>,
  \<open>meter_store_insert_reading\<close>, \<open>meter_store_read_range\<close> and \<open>meter_store_close\<close>, with every failing
  call of SQLite as an input. The theorems relate what is inserted to what is read, and say which
  errors leave the table alone.
\<close>

section \<open>The table\<close>

datatype sqlval = SQL_NULL | SQL_INT int | SQL_REAL dbl | SQL_TEXT string

text \<open>A row: the column \<open>received_at\<close> and the 40 columns of the insert statement. The key \<open>id\<close> is the
  position in the list.\<close>

type_synonym db_row = "int \<times> sqlval list"

record meter_db =
  db_created :: bool
  db_rows :: "db_row list"
  db_saved :: "db_row list"
  db_in_tx :: bool

text \<open>A store: the handle, NULL or open, and whether its mutex is held.\<close>

record meter_store =
  ms_db :: "meter_db option"
  ms_locked :: bool

text \<open>The statements \<open>BEGIN\<close>, \<open>COMMIT\<close> and \<open>ROLLBACK\<close>. \<open>BEGIN\<close> inside a transaction is an error that
  changes nothing, and a \<open>COMMIT\<close> that fails leaves the transaction open.\<close>

definition sql_begin :: "bool \<Rightarrow> meter_db \<Rightarrow> meter_db" where
  "sql_begin ok d = (if ok \<and> \<not> db_in_tx d then d\<lparr>db_in_tx := True, db_saved := db_rows d\<rparr> else d)"

definition sql_commit :: "bool \<Rightarrow> meter_db \<Rightarrow> meter_db" where
  "sql_commit ok d = (if ok then d\<lparr>db_in_tx := False, db_saved := db_rows d\<rparr> else d)"

definition sql_rollback :: "meter_db \<Rightarrow> meter_db" where
  "sql_rollback d = (if db_in_tx d then d\<lparr>db_in_tx := False, db_rows := db_saved d\<rparr> else d)"

text \<open>The \<open>INSERT\<close>: \<open>received_at\<close> is \<open>unixepoch()\<close>. Outside a transaction it commits itself.\<close>

definition sql_insert :: "int \<Rightarrow> sqlval list \<Rightarrow> meter_db \<Rightarrow> meter_db" where
  "sql_insert now vals d =
     (let rows = db_rows d @ [(now, vals)]
      in if db_in_tx d then d\<lparr>db_rows := rows\<rparr> else d\<lparr>db_rows := rows, db_saved := rows\<rparr>)"

text \<open>The \<open>SELECT\<close>: the rows of the range ordered by \<open>received_at\<close>; rows of equal time in the order
  of their insertion.\<close>

definition sql_select_range :: "int \<Rightarrow> int \<Rightarrow> meter_db \<Rightarrow> db_row list" where
  "sql_select_range from to d = sort_key fst (filter (\<lambda>(t, v). from \<le> t \<and> t < to) (db_rows d))"

section \<open>Opening and closing\<close>

definition meter_store_init :: "bool \<Rightarrow> meter_store \<Rightarrow> status \<times> meter_store" where
  "meter_store_init mutex_ok st =
     (if mutex_ok then (SUCCESS, \<lparr>ms_db = None, ms_locked = False\<rparr>)
      else (ERR_FATAL, st\<lparr>ms_db := None\<rparr>))"

text \<open>\<open>file\<close> is the database in the file. A handle that \<open>sqlite3_open_v2\<close> could not open stays in the
  store: it is not NULL, and it sees no table.\<close>

definition broken_db :: meter_db where
  "broken_db = \<lparr>db_created = False, db_rows = [], db_saved = [], db_in_tx = False\<rparr>"

definition meter_store_open ::
  "bool \<Rightarrow> bool \<Rightarrow> meter_db \<Rightarrow> bool \<Rightarrow> meter_store \<Rightarrow> status \<times> meter_store" where
  "meter_store_open open_ok wal_ok file readonly st =
     (if \<not> open_ok then (ERR_FATAL, st\<lparr>ms_db := Some broken_db\<rparr>)
      else if \<not> readonly \<and> \<not> wal_ok then (ERR_FATAL, st\<lparr>ms_db := None\<rparr>)
      else (SUCCESS, st\<lparr>ms_db := Some file\<rparr>))"

definition meter_store_init_schema :: "bool \<Rightarrow> meter_store \<Rightarrow> status \<times> meter_store" where
  "meter_store_init_schema exec_ok st =
     (case ms_db st of
        None \<Rightarrow> (ERR_INVALID_ARG, st)
      | Some d \<Rightarrow> if exec_ok then (SUCCESS, st\<lparr>ms_db := Some (d\<lparr>db_created := True\<rparr>)\<rparr>)
                  else (ERR_FATAL, st))"

definition meter_store_close :: "meter_store \<Rightarrow> meter_store" where
  "meter_store_close st = st\<lparr>ms_db := None\<rparr>"

section \<open>Inserting a reading\<close>

text \<open>The binding calls of the insert after the first, in the order of their index from 2 to 40: the
  bit and the field of each.\<close>

definition insert_columns :: "(nat \<times> meter_field) list" where
  "insert_columns =
    [(0, Str MR_unique_id), (2, Str MR_meter_model), (3, Str MR_timestamp), (1, Protocol),
     (4, Tariff), (5, Dbl MR_energy_import_kwh), (6, Dbl MR_energy_import_t1_kwh),
     (7, Dbl MR_energy_import_t2_kwh), (8, Dbl MR_energy_import_t3_kwh),
     (9, Dbl MR_energy_import_t4_kwh), (10, Dbl MR_energy_export_kwh),
     (11, Dbl MR_energy_export_t1_kwh), (12, Dbl MR_energy_export_t2_kwh),
     (13, Dbl MR_energy_export_t3_kwh), (14, Dbl MR_energy_export_t4_kwh), (15, Dbl MR_power_w),
     (16, Dbl MR_power_l1_w), (17, Dbl MR_power_l2_w), (18, Dbl MR_power_l3_w),
     (19, Dbl MR_voltage_v), (20, Dbl MR_voltage_l1_v), (21, Dbl MR_voltage_l2_v),
     (22, Dbl MR_voltage_l3_v), (23, Dbl MR_current_a), (24, Dbl MR_current_l1_a),
     (25, Dbl MR_current_l2_a), (26, Dbl MR_current_l3_a), (27, Dbl MR_frequency_hz),
     (28, U32 MR_voltage_sag_l1_count), (28, U32 MR_voltage_sag_l2_count),
     (28, U32 MR_voltage_sag_l3_count), (29, U32 MR_voltage_swell_l1_count),
     (29, U32 MR_voltage_swell_l2_count), (29, U32 MR_voltage_swell_l3_count),
     (30, U32 MR_any_power_fail_count), (30, U32 MR_long_power_fail_count),
     (31, Dbl MR_average_power_15m_w), (32, Dbl MR_monthly_power_peak_w),
     (32, Str MR_monthly_power_peak_timestamp)]"

text \<open>\<open>meter_store_bind_text_if_present\<close>, \<open>meter_store_bind_int_if_present\<close>,
  \<open>meter_store_bind_int64_if_present\<close> and \<open>meter_store_bind_double_if_present\<close>.\<close>

fun bind_field :: "meter_reading \<Rightarrow> meter_field \<Rightarrow> sqlval" where
  "bind_field r (Str f) = (if mr_str r f = [] then SQL_NULL else SQL_TEXT (mr_str r f))"
| "bind_field r (Dbl f) = SQL_REAL (mr_dbl r f)"
| "bind_field r (U32 f) = SQL_INT (uint (mr_u32 r f))"
| "bind_field r Protocol = SQL_INT (uint (mr_protocol r))"
| "bind_field r Tariff = SQL_INT (uint (mr_tariff r))"

definition bind_if_present :: "meter_reading \<Rightarrow> nat \<times> meter_field \<Rightarrow> sqlval" where
  "bind_if_present r c = (if bit (mr_flags r) (fst c) then bind_field r (snd c) else SQL_NULL)"

definition insert_values :: "meter_reading \<Rightarrow> sqlval list" where
  "insert_values r = SQL_INT (sint (mr_flags r)) # map (bind_if_present r) insert_columns"

text \<open>What the calls of the insert return, and the time of the statement.\<close>

record insert_env =
  ie_prepare_ok :: bool
  ie_begin_ok :: bool
  ie_step_ok :: bool
  ie_commit_ok :: bool
  ie_now :: int

definition meter_store_insert_reading ::
  "insert_env \<Rightarrow> meter_reading \<Rightarrow> meter_store \<Rightarrow> status \<times> meter_store" where
  "meter_store_insert_reading env r st =
     (case ms_db st of
        None \<Rightarrow> (ERR_INVALID_ARG, st)
      | Some d \<Rightarrow>
          let st = st\<lparr>ms_locked := True\<rparr>
          in if \<not> db_created d \<or> \<not> ie_prepare_ok env then (ERR_FATAL, st\<lparr>ms_locked := False\<rparr>)
             else let d1 = sql_begin (ie_begin_ok env) d
                  in if \<not> ie_step_ok env
                     then (ERR_FATAL, st\<lparr>ms_db := Some (sql_rollback d1), ms_locked := False\<rparr>)
                     else let d2 = sql_insert (ie_now env) (insert_values r) d1;
                              d3 = sql_commit (ie_commit_ok env \<and> db_in_tx d2) d2
                          in (SUCCESS, st\<lparr>ms_db := Some d3, ms_locked := False\<rparr>))"

section \<open>Reading a range\<close>

text \<open>The accessors of a column. The code relies on them for values of the column's own type and for
  NULL.\<close>

record columns =
  col_int64 :: "sqlval \<Rightarrow> int"
  col_int :: "sqlval \<Rightarrow> int"
  col_double :: "sqlval \<Rightarrow> dbl"
  col_text :: "sqlval \<Rightarrow> string option"

definition select_columns :: "meter_field list" where
  "select_columns =
    [Str MR_unique_id, Str MR_meter_model, Str MR_timestamp, Protocol, Tariff,
     Dbl MR_energy_import_kwh, Dbl MR_energy_import_t1_kwh, Dbl MR_energy_import_t2_kwh,
     Dbl MR_energy_import_t3_kwh, Dbl MR_energy_import_t4_kwh, Dbl MR_energy_export_kwh,
     Dbl MR_energy_export_t1_kwh, Dbl MR_energy_export_t2_kwh, Dbl MR_energy_export_t3_kwh,
     Dbl MR_energy_export_t4_kwh, Dbl MR_power_w, Dbl MR_power_l1_w, Dbl MR_power_l2_w,
     Dbl MR_power_l3_w, Dbl MR_voltage_v, Dbl MR_voltage_l1_v, Dbl MR_voltage_l2_v,
     Dbl MR_voltage_l3_v, Dbl MR_current_a, Dbl MR_current_l1_a, Dbl MR_current_l2_a,
     Dbl MR_current_l3_a, Dbl MR_frequency_hz, U32 MR_voltage_sag_l1_count,
     U32 MR_voltage_sag_l2_count, U32 MR_voltage_sag_l3_count, U32 MR_voltage_swell_l1_count,
     U32 MR_voltage_swell_l2_count, U32 MR_voltage_swell_l3_count, U32 MR_any_power_fail_count,
     U32 MR_long_power_fail_count, Dbl MR_average_power_15m_w, Dbl MR_monthly_power_peak_w,
     Str MR_monthly_power_peak_timestamp]"

fun read_column :: "columns \<Rightarrow> sqlval \<Rightarrow> meter_field \<Rightarrow> meter_reading \<Rightarrow> meter_reading" where
  "read_column C v (Dbl f) r = r\<lparr>mr_dbl := (mr_dbl r)(f := col_double C v)\<rparr>"
| "read_column C v (Str f) r = r\<lparr>mr_str := (mr_str r)(f := (case col_text C v of
       None \<Rightarrow> [] | Some s \<Rightarrow> snprintf_trunc (str_size f) (cstr s)))\<rparr>"
| "read_column C v (U32 f) r = r\<lparr>mr_u32 := (mr_u32 r)(f := word_of_int (col_int64 C v))\<rparr>"
| "read_column C v Protocol r = r\<lparr>mr_protocol := word_of_int (col_int C v)\<rparr>"
| "read_column C v Tariff r = r\<lparr>mr_tariff := word_of_int (col_int C v)\<rparr>"

fun read_columns ::
  "columns \<Rightarrow> sqlval list \<Rightarrow> meter_field list \<Rightarrow> meter_reading \<Rightarrow> meter_reading" where
  "read_columns C (v # vs) (f # fs) r = read_columns C vs fs (read_column C v f r)"
| "read_columns C vs fs r = r"

definition meter_store_read_stmt_row :: "columns \<Rightarrow> db_row \<Rightarrow> int \<times> meter_reading" where
  "meter_store_read_stmt_row C row =
     (fst row,
      read_columns C (tl (snd row)) select_columns
        (zero_reading\<lparr>mr_flags := word_of_int (col_int64 C (hd (snd row)))\<rparr>))"

text \<open>The size of \<open>Meter_Reading_Row\<close> on a 64-bit machine.\<close>

definition sizeof_row :: nat where
  "sizeof_row = 424"

text \<open>The loop of \<open>sqlite3_step\<close>. \<open>fail\<close> is the number of rows after which a step fails, if one does.\<close>

fun read_range_loop ::
  "allocator \<Rightarrow> columns \<Rightarrow> nat option \<Rightarrow> db_row list \<Rightarrow> (int \<times> meter_reading) list \<Rightarrow> nat
   \<Rightarrow> (int \<times> meter_reading) list result" where
  "read_range_loop mem C fail rows acc capacity =
     (if fail = Some (length acc) then Inl ERR_FATAL
      else case rows of
        [] \<Rightarrow> Inr acc
      | row # rest \<Rightarrow>
          if length acc = capacity
          then let next = (if capacity = 0 then 128 else capacity * 2)
               in if mem (next * sizeof_row)
                  then read_range_loop mem C fail rest
                         (acc @ [meter_store_read_stmt_row C row]) next
                  else Inl ERR_NO_MEMORY
          else read_range_loop mem C fail rest
                 (acc @ [meter_store_read_stmt_row C row]) capacity)"

declare read_range_loop.simps [simp del]

definition meter_store_read_range ::
  "allocator \<Rightarrow> columns \<Rightarrow> bool \<Rightarrow> nat option \<Rightarrow> int \<Rightarrow> int \<Rightarrow> meter_store
   \<Rightarrow> (int \<times> meter_reading) list result \<times> meter_store" where
  "meter_store_read_range mem C prepare_ok fail from to st =
     (case ms_db st of
        None \<Rightarrow> (Inl ERR_INVALID_ARG, st)
      | Some d \<Rightarrow>
          if \<not> db_created d \<or> \<not> prepare_ok then (Inl ERR_FATAL, st\<lparr>ms_locked := False\<rparr>)
          else (read_range_loop mem C fail (sql_select_range from to d) [] 0,
                st\<lparr>ms_locked := False\<rparr>))"

section \<open>Columns\<close>

lemma columns_agree: "map snd insert_columns = select_columns" "distinct select_columns"
  by code_simp+

definition columns_ok :: "columns \<Rightarrow> bool" where
  "columns_ok C \<longleftrightarrow> col_int64 C SQL_NULL = 0 \<and> col_int C SQL_NULL = 0 \<and> col_double C SQL_NULL = 0
     \<and> col_text C SQL_NULL = None
     \<and> (\<forall>i. - (2 ^ 63) \<le> i \<and> i < 2 ^ 63 \<longrightarrow> col_int64 C (SQL_INT i) = i)
     \<and> (\<forall>i. - (2 ^ 31) \<le> i \<and> i < 2 ^ 31 \<longrightarrow> col_int C (SQL_INT i) = i)
     \<and> (\<forall>x. col_double C (SQL_REAL x) = x) \<and> (\<forall>s. col_text C (SQL_TEXT s) = Some s)"

text \<open>What is stored of a reading: the fields whose bit is set.\<close>

definition present_part :: "meter_reading \<Rightarrow> meter_field \<Rightarrow> fvalue" where
  "present_part r f = (if \<exists>b. (b, f) \<in> set insert_columns \<and> bit (mr_flags r) b
     then fval r f else fval zero_reading f)"

lemma zero_values [simp]:
  "mr_dbl zero_reading f = 0" "mr_str zero_reading s = []" "mr_u32 zero_reading u = 0"
  "mr_protocol zero_reading = 0" "mr_tariff zero_reading = 0"
  by (simp_all add: zero_reading_def)

lemma columns_uint:
  assumes "columns_ok C"
  shows "col_int64 C (SQL_INT (uint (w :: 32 word))) = uint w"
    "col_int C (SQL_INT (uint (p :: 16 word))) = uint p"
    "col_int C (SQL_INT (uint (t :: 8 word))) = uint t"
proof -
  have "- (2 ^ 63) \<le> uint w \<and> uint w < 2 ^ 63"
    using uint_bounded [of w] by (simp add: order.trans [OF _ uint_nonnegative])
  moreover have "- (2 ^ 31) \<le> uint p \<and> uint p < 2 ^ 31"
    using uint_bounded [of p] by (simp add: order.trans [OF _ uint_nonnegative])
  moreover have "- (2 ^ 31) \<le> uint t \<and> uint t < 2 ^ 31"
    using uint_bounded [of t] by (simp add: order.trans [OF _ uint_nonnegative])
  ultimately show "col_int64 C (SQL_INT (uint w)) = uint w"
    "col_int C (SQL_INT (uint p)) = uint p" "col_int C (SQL_INT (uint t)) = uint t"
    using assms unfolding columns_ok_def by blast+
qed

lemma columns_null:
  assumes "columns_ok C"
  shows "col_int64 C SQL_NULL = 0" "col_int C SQL_NULL = 0" "col_double C SQL_NULL = 0"
    "col_text C SQL_NULL = None" "col_double C (SQL_REAL x) = x" "col_text C (SQL_TEXT s) = Some s"
  using assms unfolding columns_ok_def by blast+

lemma read_bound_column:
  assumes "columns_ok C" "strings_fit r"
  shows "fval (read_column C (bind_if_present r (b, f)) f q) =
    (fval q)(f := if bit (mr_flags r) b then fval r f else fval zero_reading f)"
  using assms(2)
  by (cases f) (simp_all add: bind_if_present_def columns_uint [OF assms(1)]
      columns_null [OF assms(1)] strings_fit_def fval_updates)

lemma read_column_flags [simp]: "mr_flags (read_column C v f q) = mr_flags q"
  by (cases f) simp_all

lemma read_columns_flags [simp]: "mr_flags (read_columns C vs fs q) = mr_flags q"
  by (induction C vs fs q rule: read_columns.induct) simp_all

lemma read_columns_bound:
  assumes "columns_ok C" "strings_fit r" "distinct (map snd cs)"
  shows "fval (read_columns C (map (bind_if_present r) cs) (map snd cs) q) f =
    (if f \<in> snd ` set cs
     then (if \<exists>b. (b, f) \<in> set cs \<and> bit (mr_flags r) b then fval r f else fval zero_reading f)
     else fval q f)"
  using assms(3)
proof (induction cs arbitrary: q)
  case (Cons c cs)
  obtain b g where c: "c = (b, g)" by (cases c)
  show ?case
  proof (cases "f = g")
    case True
    with Cons.prems c have "f \<notin> snd ` set cs" "\<And>b. (b, f) \<notin> set cs" by force+
    with Cons True c show ?thesis by (simp add: read_bound_column [OF assms(1,2)])
  next
    case False
    with Cons c show ?thesis by (simp add: read_bound_column [OF assms(1,2)])
  qed
qed simp

lemma all_columns: "f \<in> set select_columns"
proof (cases f)
  case (Dbl x)
  then show ?thesis by (cases x) (simp_all add: select_columns_def)
next
  case (Str x)
  then show ?thesis by (cases x) (simp_all add: select_columns_def)
next
  case (U32 x)
  then show ?thesis by (cases x) (simp_all add: select_columns_def)
qed (simp_all add: select_columns_def)

lemma read_stored_row:
  assumes "columns_ok C" "strings_fit r"
  shows "meter_store_read_stmt_row C (now, insert_values r) = (now, q) \<Longrightarrow>
    mr_flags q = mr_flags r \<and> fval q = present_part r"
proof -
  assume q: "meter_store_read_stmt_row C (now, insert_values r) = (now, q)"
  have flags: "word_of_int (col_int64 C (SQL_INT (sint (mr_flags r)))) = mr_flags r"
    using assms(1) sint_range_size [of "mr_flags r"]
    by (simp add: columns_ok_def sint_greater_eq sint_less word_size)
  have d: "distinct (map snd insert_columns)" using columns_agree by simp
  have q': "q = read_columns C (map (bind_if_present r) insert_columns) (map snd insert_columns)
      (zero_reading\<lparr>mr_flags := mr_flags r\<rparr>)"
    using q flags by (simp add: meter_store_read_stmt_row_def insert_values_def columns_agree)
  have all: "f \<in> snd ` set insert_columns" for f
    using all_columns [of f] columns_agree(1) by (metis set_map)
  have "fval q = present_part r"
    by (rule ext) (simp only: q' read_columns_bound [OF assms d] all present_part_def if_True)
  then show ?thesis by (simp add: q')
qed

lemma read_range_loop_ok:
  "read_range_loop mem_unlimited C None rows acc capacity
     = Inr (acc @ map (meter_store_read_stmt_row C) rows)"
  by (induction rows arbitrary: acc capacity)
    (simp_all add: read_range_loop.simps [where rows = "_ # _"] read_range_loop.simps [where rows = "[]"]
      mem_unlimited_def Let_def)

section \<open>The properties\<close>

text \<open>The store at rest: open, its table made, no transaction, everything committed, mutex free.\<close>

definition at_rest :: "db_row list \<Rightarrow> meter_store" where
  "at_rest rows = \<lparr>ms_db = Some \<lparr>db_created = True, db_rows = rows, db_saved = rows, db_in_tx = False\<rparr>,
                   ms_locked = False\<rparr>"

text \<open>C11: Inserting and reading back. With the statements prepared and stepped, an insert succeeds, and
  a read of a range that holds its time gives, in order of time, the rows of the range that were
  there and the new one, whose bits are those of the reading and whose fields are those the bits
  announce, the others zero.\<close>

theorem store_insert_then_read:
  assumes store: "ms_db st = Some d" "db_created d"
    and env: "ie_prepare_ok env" "ie_step_ok env" "from \<le> ie_now env" "ie_now env < to"
    and reading: "strings_fit r" "columns_ok C"
  shows "case meter_store_insert_reading env r st of (s, st') \<Rightarrow> s = SUCCESS \<and> \<not> ms_locked st' \<and>
    (case meter_store_read_range mem_unlimited C True None from to st' of
       (Inl e, st'') \<Rightarrow> False
     | (Inr rows, st'') \<Rightarrow> st'' = st' \<and> sorted (map fst rows)
         \<and> (\<exists>q. mset rows = add_mset (ie_now env, q) (mset (map (meter_store_read_stmt_row C)
                    (filter (\<lambda>(t, v). from \<le> t \<and> t < to) (db_rows d))))
              \<and> mr_flags q = mr_flags r \<and> fval q = present_part r))"
proof -
  let ?row = "(ie_now env, insert_values r)"
  obtain q where q: "meter_store_read_stmt_row C ?row = (ie_now env, q)"
    by (simp add: meter_store_read_stmt_row_def)
  obtain d' where i: "meter_store_insert_reading env r st = (SUCCESS, st\<lparr>ms_db := Some d', ms_locked := False\<rparr>)"
    and rows: "db_rows d' = db_rows d @ [?row]" "db_created d'"
    using store env by (auto simp: meter_store_insert_reading_def Let_def sql_insert_def sql_begin_def
        sql_commit_def split: if_splits)
  let ?sel = "sql_select_range from to d'"
  have "map fst (map (meter_store_read_stmt_row C) ?sel) = map fst ?sel"
    by (simp add: meter_store_read_stmt_row_def)
  moreover have "sorted (map fst ?sel)" by (simp add: sql_select_range_def)
  ultimately have "sorted (map fst (map (meter_store_read_stmt_row C) ?sel))" by (simp only:)
  moreover have "mset (map (meter_store_read_stmt_row C) ?sel) = add_mset (ie_now env, q)
      (mset (map (meter_store_read_stmt_row C)
        (filter (\<lambda>(t, v). from \<le> t \<and> t < to) (db_rows d))))"
    using env(3,4) q by (simp add: sql_select_range_def rows)
  ultimately show ?thesis
    using i rows(2) read_stored_row [OF reading(2,1) q]
    by (simp add: meter_store_read_range_def read_range_loop_ok del: mset_map)
qed

definition ok_columns :: columns where
  "ok_columns = \<lparr>col_int64 = (\<lambda>v. case v of SQL_INT i \<Rightarrow> i | _ \<Rightarrow> 0),
     col_int = (\<lambda>v. case v of SQL_INT i \<Rightarrow> i | _ \<Rightarrow> 0),
     col_double = (\<lambda>v. case v of SQL_REAL x \<Rightarrow> x | _ \<Rightarrow> 0),
     col_text = (\<lambda>v. case v of SQL_TEXT s \<Rightarrow> Some s | _ \<Rightarrow> None)\<rparr>"

definition ok_env :: "int \<Rightarrow> insert_env" where
  "ok_env now = \<lparr>ie_prepare_ok = True, ie_begin_ok = True, ie_step_ok = True, ie_commit_ok = True,
                 ie_now = now\<rparr>"

theorem store_insert_then_read_witness:
  "case meter_store_insert_reading (ok_env 50) sample_reading (at_rest []) of (s, st') \<Rightarrow>
     s = SUCCESS \<and>
     (case meter_store_read_range mem_unlimited ok_columns True None 0 100 st' of
        (Inl e, st'') \<Rightarrow> False
      | (Inr rows, st'') \<Rightarrow>
          (\<exists>q. mset rows = {# (50, q) #} \<and> fval q (Dbl MR_power_w) = VD 500))"
proof -
  let ?d = "\<lparr>db_created = True, db_rows = [], db_saved = [], db_in_tx = False\<rparr>"
  have st: "ms_db (at_rest []) = Some ?d" "db_created ?d" by (simp_all add: at_rest_def)
  have env: "ie_prepare_ok (ok_env 50)" "ie_step_ok (ok_env 50)" "0 \<le> ie_now (ok_env 50)"
    "ie_now (ok_env 50) < 100" by (simp_all add: ok_env_def)
  have r: "strings_fit sample_reading" "columns_ok ok_columns"
    by (simp_all add: strings_fit_def sample_reading_def str_size_def columns_ok_def ok_columns_def)
  have now: "ie_now (ok_env 50) = 50" by (simp add: ok_env_def)
  have "(15, Dbl MR_power_w) \<in> set insert_columns" by code_simp
  moreover have "bit (mr_flags sample_reading) 15" by (simp add: sample_reading_def bit_exp_iff)
  ultimately have "\<exists>b. (b, Dbl MR_power_w) \<in> set insert_columns \<and> bit (mr_flags sample_reading) b"
    by blast
  then have v: "present_part sample_reading (Dbl MR_power_w) = VD 500"
    by (simp add: present_part_def) (simp add: sample_reading_def)
  show ?thesis
    using store_insert_then_read [OF st env r] v
    by (auto simp: now simp del: fval.simps split: prod.splits sum.splits)
qed

text \<open>An insert that reports an error has changed nothing: from a store at rest, for any outcome of
  the calls, the result is \<open>ERR_FATAL\<close> and the store is as before, or the result is \<open>SUCCESS\<close> and the
  row is last in the table.\<close>

theorem store_insert_atomic:
  "case meter_store_insert_reading env r (at_rest rows) of (s, st') \<Rightarrow>
     (s = ERR_FATAL \<and> st' = at_rest rows)
   \<or> (s = SUCCESS \<and> \<not> ms_locked st' \<and> map_option db_rows (ms_db st')
        = Some (rows @ [(ie_now env, insert_values r)]))"
  by (auto simp: meter_store_insert_reading_def at_rest_def Let_def sql_begin_def sql_insert_def
      sql_commit_def sql_rollback_def)

text \<open>The result of \<open>COMMIT\<close> is not looked at. When it fails, the insert still reports \<open>SUCCESS\<close>
  though nothing is committed, and when the step of a later insert fails, its \<open>ROLLBACK\<close> removes
  the row of the first one too.\<close>

theorem store_insert_loses_commit:
  "let env1 = (ok_env t1)\<lparr>ie_commit_ok := False\<rparr>; env2 = (ok_env t2)\<lparr>ie_step_ok := False\<rparr>;
       (s1, st1) = meter_store_insert_reading env1 r1 (at_rest rows);
       (s2, st2) = meter_store_insert_reading env2 r2 st1
   in s1 = SUCCESS \<and> map_option db_saved (ms_db st1) = Some rows
      \<and> s2 = ERR_FATAL \<and> st2 = at_rest rows"
  by (simp add: meter_store_insert_reading_def at_rest_def ok_env_def sql_begin_def sql_insert_def
      sql_commit_def sql_rollback_def)

end
