(* ===== verification/Energy_Types.thy ===== *)
theory Energy_Types
  imports Prelude
begin

text \<open>
  The data the optimizer and the server share: spot prices
  (\<open>common/include/data/electricity_structs.h\<close>), weather (\<open>common/include/data/weather_structs.h\<close>) and
  facilities (\<open>common/include/data/facility.h\<close>). An array of C with its count is a list, and a NULL
  array is the empty list, as every user of the structs tests for both together.
\<close>

datatype spot_currency = SPOT_SEK | SPOT_EUR

datatype spot_price_class = SE1 | SE2 | SE3 | SE4

fun price_class_int :: "spot_price_class \<Rightarrow> int" where
  "price_class_int SE1 = 0"
| "price_class_int SE2 = 1"
| "price_class_int SE3 = 2"
| "price_class_int SE4 = 3"

text \<open>A cast of an integer from 0 to 3 to the enumeration.\<close>

definition price_class_of :: "int \<Rightarrow> spot_price_class" where
  "price_class_of i = (if i = 0 then SE1 else if i = 1 then SE2 else if i = 2 then SE3 else SE4)"

lemma price_class_int_of [simp]: "0 \<le> i \<Longrightarrow> i \<le> 3 \<Longrightarrow> price_class_int (price_class_of i) = i"
  by (auto simp: price_class_of_def)

lemma price_class_of_int [simp]: "price_class_of (price_class_int c) = c"
  by (cases c) (simp_all add: price_class_of_def)

record spot_price =
  sp_time_start :: int
  sp_time_end :: int
  sp_price :: flt

record electricity_spots =
  es_prices :: "spot_price list"
  es_unit :: "string option"
  es_currency :: spot_currency
  es_price_class :: spot_price_class
  es_interval :: nat

definition no_spots :: electricity_spots where
  "no_spots = \<lparr>es_prices = [], es_unit = None, es_currency = SPOT_SEK, es_price_class = SE1,
               es_interval = 0\<rparr>"

record weather_values =
  wv_timestamp :: int
  wv_temperature :: flt
  wv_precipitation :: flt
  wv_windspeed :: flt
  wv_radiation_direct_n :: flt
  wv_radiation_tilted :: flt
  wv_radiation_direct :: flt
  wv_radiation_diffuse :: flt
  wv_radiation_shortwave :: flt
  wv_sun_duration :: int
  wv_winddirection_azimuth :: "16 word"

text \<open>A series of weather values with its place and units; a unit is \<open>None\<close> where the pointer is
  NULL.\<close>

record weather =
  we_values :: "weather_values list"
  we_temperature_unit :: "string option"
  we_windspeed_unit :: "string option"
  we_precipitation_unit :: "string option"
  we_winddirection_unit :: "string option"
  we_radiation_unit :: "string option"
  we_latitude :: flt
  we_longitude :: flt
  we_update_interval :: int
  we_panel_azimuth :: "16 word"
  we_panel_tilt :: "16 word"

definition no_weather :: weather where
  "no_weather = \<lparr>we_values = [], we_temperature_unit = None, we_windspeed_unit = None,
     we_precipitation_unit = None, we_winddirection_unit = None, we_radiation_unit = None,
     we_latitude = 0, we_longitude = 0, we_update_interval = 0, we_panel_azimuth = 0,
     we_panel_tilt = 0\<rparr>"

record solar_panel =
  pn_size :: "32 word"
  pn_tilt :: "16 word"
  pn_azimuth :: "16 word"

text \<open>\<open>pn_azimuth\<close> is a signed short: its value is \<open>sint\<close>.\<close>

record facility_config =
  fc_name :: string
  fc_panel :: "solar_panel option"
  fc_lat :: flt
  fc_lon :: flt
  fc_currency :: spot_currency
  fc_price_class :: spot_price_class

section \<open>Decimal numbers as text\<close>

text \<open>
  \<open>strtod\<close> on decimal notation: white space, a sign, digits with an optional point, an optional
  exponent. The result is the value and the rest of the string, or \<open>None\<close> when nothing was
  converted. Infinities, not-a-numbers and hexadecimal notation have no rational value and are
  read as the decimal prefix they start with.
\<close>

definition strtod_exponent :: "string \<Rightarrow> int \<times> string" where
  "strtod_exponent s =
     (if s \<noteq> [] \<and> (hd s = CHR ''e'' \<or> hd s = CHR ''E'')
      then let t = tl s;
               neg = (t \<noteq> [] \<and> hd t = CHR ''-'');
               u = (if t \<noteq> [] \<and> (hd t = CHR ''-'' \<or> hd t = CHR ''+'') then tl t else t);
               ds = takeWhile is_digit u
           in if ds = [] then (0, s)
              else (if neg then - digits_val ds else digits_val ds, dropWhile is_digit u)
      else (0, s))"

definition scale10 :: "rat \<Rightarrow> int \<Rightarrow> rat" where
  "scale10 x e = (if 0 \<le> e then x * 10 ^ nat e else x / 10 ^ nat (- e))"

definition c_strtod :: "string \<Rightarrow> (rat \<times> string) option" where
  "c_strtod s =
     (let t = dropWhile is_space s;
          neg = (t \<noteq> [] \<and> hd t = CHR ''-'');
          u = (if t \<noteq> [] \<and> (hd t = CHR ''-'' \<or> hd t = CHR ''+'') then tl t else t);
          ip = takeWhile is_digit u;
          r = dropWhile is_digit u;
          dot = (r \<noteq> [] \<and> hd r = CHR ''.'');
          fp = (if dot then takeWhile is_digit (tl r) else []);
          r2 = (if dot then dropWhile is_digit (tl r) else r)
      in if ip @ fp = [] then None
         else let (e, rest) = strtod_exponent r2;
                  m = scale10 (of_int (digits_val (ip @ fp))) (e - int (length fp))
              in Some (if neg then - m else m, rest))"

definition c_atof :: "string \<Rightarrow> rat" where
  "c_atof s = (case c_strtod s of None \<Rightarrow> 0 | Some (v, _) \<Rightarrow> v)"

end
