(* ===== verification/Facility.thy ===== *)
theory Facility
  imports Energy_Types
begin

text \<open>
  Reading the facility configurations (\<open>common/src/facility.c\<close>): \<open>facility_parse_config\<close> for one file
  and \<open>facility_get_configs\<close> for all files of a directory. \<open>config_values_get\<close> and
  \<open>list_filenames_with_ext\<close> belong to the library maestroutils and are parameters.
\<close>

section \<open>One file\<close>

definition facility_keys :: "string list" where
  "facility_keys = [''name'', ''latitude'', ''longitude'', ''currency'', ''energy_zone'',
                    ''panel.tilt'', ''panel.azimuth'', ''panel.m2_size'']"

text \<open>\<open>config path key\<close> is the value that \<open>config_values_get\<close> finds for a key of a file. The three
  requests of memory are for the struct, the name and the panel.\<close>

definition facility_parse_config ::
  "allocator \<Rightarrow> (string \<Rightarrow> string \<Rightarrow> string option) \<Rightarrow> string \<Rightarrow> facility_config option" where
  "facility_parse_config mem config path =
     (if \<not> mem 40 then None
      else
        let values0 = map (config path) facility_keys;
            values = (if values0 ! 4 = None then values0[4 := config path ''price_class''] else values0)
        in if \<exists>i \<in> set [0..<5]. values ! i = None then None
           else
             let name = the (values ! 0);
                 price_class = c_atoi (the (values ! 4)) - 1;
                 conf = \<lparr>fc_name = name, fc_panel = None,
                         fc_lat = c_atof (the (values ! 1)), fc_lon = c_atof (the (values ! 2)),
                         fc_currency = SPOT_SEK,
                         fc_price_class = (if 0 \<le> price_class \<and> price_class \<le> 3
                                           then price_class_of price_class else SE1)\<rparr>
             in if name = [] \<or> \<not> mem (length name + 1) then None
                else case (values ! 5, values ! 6, values ! 7) of
                  (Some tilt, Some azimuth, Some m2) \<Rightarrow>
                    if \<not> mem 8 then None
                    else Some (conf\<lparr>fc_panel := Some
                      \<lparr>pn_size = ucast (word_of_int (c_atoi m2) :: 16 word),
                       pn_tilt = word_of_int (c_atoi tilt),
                       pn_azimuth = word_of_int (c_atoi azimuth)\<rparr>\<rparr>)
                | _ \<Rightarrow> Some conf)"

section \<open>All files\<close>

text \<open>
  The loop of \<open>facility_get_configs\<close> keeps the array of the configurations read so far; before each
  file the array is reallocated to hold \<open>i + 1\<close> pointers. Next to the result, the indices written
  and the size of the array at that time.
\<close>

fun get_configs_loop ::
  "(string \<Rightarrow> facility_config option) \<Rightarrow> allocator \<Rightarrow> string \<Rightarrow> string list \<Rightarrow> nat
   \<Rightarrow> facility_config list \<Rightarrow> (nat \<times> nat) list \<Rightarrow> facility_config list option \<times> (nat \<times> nat) list" where
  "get_configs_loop parse mem dir [] i acc ws = (Some acc, ws)"
| "get_configs_loop parse mem dir (f # fs) i acc ws =
     (if \<not> mem (8 * (i + 1)) then (None, ws)
      else case parse (snprintf_trunc 256 (dir @ ''/'' @ f)) of
        None \<Rightarrow> get_configs_loop parse mem dir fs (i + 1) acc ws
      | Some conf \<Rightarrow>
          get_configs_loop parse mem dir fs (i + 1) (acc @ [conf]) (ws @ [(length acc, i + 1)]))"

definition facility_get_configs ::
  "(string \<Rightarrow> facility_config option) \<Rightarrow> allocator \<Rightarrow> (string \<Rightarrow> string list option) \<Rightarrow> string
   \<Rightarrow> facility_config list option \<times> (nat \<times> nat) list" where
  "facility_get_configs parse mem list_conf dir =
     (if \<not> mem 8 then (None, [])
      else case list_conf dir of
        None \<Rightarrow> (None, [])
      | Some files \<Rightarrow>
          (case get_configs_loop parse mem dir files 0 [] [] of
             (None, ws) \<Rightarrow> (None, ws)
           | (Some confs, ws) \<Rightarrow> (if confs = [] then None else Some confs, ws)))"

section \<open>Lemmas\<close>

lemma get_configs_loop_ok:
  "get_configs_loop parse mem_unlimited dir fs i acc ws
     = (r, ws') \<Longrightarrow> r = Some (acc @ List.map_filter (\<lambda>f. parse (snprintf_trunc 256 (dir @ ''/'' @ f))) fs)"
proof (induction fs arbitrary: i acc ws)
  case Nil
  then show ?case by (simp add: map_filter_simps)
next
  case (Cons f fs)
  show ?case
  proof (cases "parse (snprintf_trunc 256 (dir @ ''/'' @ f))")
    case None
    with Cons.prems Cons.IH [of "i + 1" acc ws] show ?thesis
      by (simp add: mem_unlimited_def map_filter_simps)
  next
    case (Some conf)
    with Cons.prems Cons.IH [of "i + 1" "acc @ [conf]" "ws @ [(length acc, i + 1)]"] show ?thesis
      by (simp add: mem_unlimited_def map_filter_simps)
  qed
qed

lemma get_configs_loop_writes:
  "get_configs_loop parse mem dir fs i acc ws = (r, ws') \<Longrightarrow> length acc \<le> i \<Longrightarrow>
   \<forall>(k, n) \<in> set ws. k < n \<Longrightarrow> \<forall>(k, n) \<in> set ws'. k < n"
proof (induction fs arbitrary: i acc ws)
  case (Cons f fs)
  show ?case
  proof (cases "parse (snprintf_trunc 256 (dir @ ''/'' @ f))")
    case None
    with Cons.prems Cons.IH [of "i + 1" acc ws] show ?thesis
      by (auto split: if_splits)
  next
    case (Some conf)
    with Cons.prems Cons.IH [of "i + 1" "acc @ [conf]" "ws @ [(length acc, i + 1)]"] show ?thesis
      by (auto split: if_splits)
  qed
qed auto

text \<open>The text of the energy zone, from its key or the deprecated one.\<close>

definition facility_zone :: "(string \<Rightarrow> string \<Rightarrow> string option) \<Rightarrow> string \<Rightarrow> string option" where
  "facility_zone config path = (case config path ''energy_zone'' of
      None \<Rightarrow> config path ''price_class'' | Some z \<Rightarrow> Some z)"

section \<open>The properties\<close>

text \<open>What a facility file yields. With memory, a file is a facility exactly when it has the five
  obligatory keys (\<open>price_class\<close> standing in for \<open>energy_zone\<close>) and a name that is not empty. The
  energy zone is always one of the four and \<open>SE1\<close> when the number is not, and there is a panel
  exactly when all three of its keys are there.\<close>

theorem facility_parse_config_spec:
  "case facility_parse_config mem_unlimited config path of
     None \<Rightarrow> (\<exists>k \<in> {''name'', ''latitude'', ''longitude'', ''currency''}. config path k = None)
       \<or> facility_zone config path = None
       \<or> config path ''name'' = Some []
   | Some c \<Rightarrow> config path ''name'' = Some (fc_name c) \<and> fc_name c \<noteq> []
       \<and> map_option c_atof (config path ''latitude'') = Some (fc_lat c)
       \<and> map_option c_atof (config path ''longitude'') = Some (fc_lon c)
       \<and> map_option (\<lambda>z. if 1 \<le> c_atoi z \<and> c_atoi z \<le> 4 then c_atoi z - 1 else 0)
            (facility_zone config path) = Some (price_class_int (fc_price_class c))
       \<and> (fc_panel c \<noteq> None \<longleftrightarrow> (\<forall>k \<in> {''panel.tilt'', ''panel.azimuth'', ''panel.m2_size''}.
            config path k \<noteq> None))"
proof -
  have idx: "[0..<5] = [0, 1, 2, 3, 4::nat]" by code_simp
  show ?thesis
    by (cases "config path ''name''"; cases "config path ''latitude''";
        cases "config path ''longitude''"; cases "config path ''currency''";
        cases "config path ''energy_zone''"; cases "config path ''price_class''";
        simp add: facility_parse_config_def facility_keys_def facility_zone_def
          mem_unlimited_def idx Let_def split: option.split)
qed

text \<open>Reading a directory. With memory, the configurations are those of the files that parse, in
  the order of the list, and there is no result when none does; every pointer is stored inside the
  array as allocated at that time.\<close>

theorem facility_get_configs_spec:
  "fst (facility_get_configs parse mem_unlimited list_conf dir) =
     (case list_conf dir of
        None \<Rightarrow> None
      | Some files \<Rightarrow>
          (let cs = List.map_filter (\<lambda>f. parse (snprintf_trunc 256 (dir @ ''/'' @ f))) files
           in if cs = [] then None else Some cs))
   \<and> (\<forall>(k, n) \<in> set (snd (facility_get_configs parse mem list_conf dir)). k < n)"
proof
  show "fst (facility_get_configs parse mem_unlimited list_conf dir) =
     (case list_conf dir of
        None \<Rightarrow> None
      | Some files \<Rightarrow>
          (let cs = List.map_filter (\<lambda>f. parse (snprintf_trunc 256 (dir @ ''/'' @ f))) files
           in if cs = [] then None else Some cs))"
    by (auto simp: facility_get_configs_def mem_unlimited_def [abs_def] Let_def
        split: option.splits prod.splits dest!: get_configs_loop_ok [unfolded mem_unlimited_def [abs_def]])
  show "\<forall>(k, n) \<in> set (snd (facility_get_configs parse mem list_conf dir)). k < n"
    using get_configs_loop_writes [of parse mem dir _ 0 "[]" "[]"]
    by (auto simp: facility_get_configs_def split: option.splits prod.splits)
qed

theorem facility_parse_config_spec_witness:
  "facility_parse_config mem_unlimited (\<lambda>path k. Some ''1'') ''f'' \<noteq> None"
  using facility_parse_config_spec [of "\<lambda>path k. Some ''1''" "''f''"]
  by (auto simp: facility_zone_def split: option.splits)

theorem facility_get_configs_spec_witness:
  "fst (facility_get_configs (\<lambda>path. None) mem_unlimited (\<lambda>dir. Some [''a.conf'']) ''d'') = None"
  using facility_get_configs_spec [of "\<lambda>path. None" "\<lambda>dir. Some [''a.conf'']" "''d''"]
  by (simp add: List.map_filter_def)

end
