(* ===== verification/Consumption.thy ===== *)
theory Consumption
  imports Meter_Json Energy_Types
begin

text \<open>
  The consumption profile of the optimizer (\<open>optimizer/src/consumption_analysis.c\<close>): the readings of
  the meter are turned into kWh for the 96 quarters of today and of an average day
  (\<open>accumulate_readings\<close>) and into one value for each of the last days (\<open>build_daily_history_series\<close>).
  The lemmas say that no energy is lost or counted twice among the buckets; the theorems give the
  interval of time that each sum really covers. \<open>localtime_r\<close> is a parameter that gives the hour
  and the minute.
\<close>

section \<open>The energy between two readings\<close>

type_synonym meter_point = "int \<times> meter_reading"

definition profile_buckets :: nat where
  "profile_buckets = 96"

definition profile_history_max_days :: nat where
  "profile_history_max_days = 30"

definition present_energy_import :: nat where
  "present_energy_import = 5"

definition present_average_power_15m :: nat where
  "present_average_power_15m = 31"

text \<open>\<open>None\<close> where the loops continue with the next pair.\<close>

definition interval_kwh :: "meter_point \<Rightarrow> meter_point \<Rightarrow> dbl option" where
  "interval_kwh p c =
     (let from = fst p; to = fst c; prev = snd p; cur = snd c
      in if to \<le> from \<or> to - from > 7200 then None
         else if bit (mr_flags prev) present_energy_import \<and> bit (mr_flags cur) present_energy_import
         then let kwh = mr_dbl cur MR_energy_import_kwh - mr_dbl prev MR_energy_import_kwh
              in if kwh < 0 \<or> kwh > 50 then None else Some kwh
         else if bit (mr_flags cur) present_average_power_15m
         then Some ((mr_dbl cur MR_average_power_15m_w / 1000) * (of_int (to - from) / 3600))
         else if bit (mr_flags cur) present_power
         then Some ((mr_dbl cur MR_power_w / 1000) * (of_int (to - from) / 3600))
         else None)"

type_synonym local_time = "int \<Rightarrow> int \<times> int"

definition bucket_for_time :: "local_time \<Rightarrow> int \<Rightarrow> int" where
  "bucket_for_time local ts = fst (local ts) * 4 + c_div (snd (local ts)) 15"

section \<open>The profile\<close>

record consumption_profile =
  cp_today_kwh :: "dbl list"
  cp_trend_kwh :: "dbl list"
  cp_trend_samples :: "nat list"
  cp_today_total_kwh :: dbl
  cp_today_cost_sek :: dbl
  cp_trend_total_kwh :: dbl
  cp_predicted_cost_sek :: dbl
  cp_today_peak_bucket :: nat
  cp_today_low_bucket :: nat
  cp_trend_peak_bucket :: nat
  cp_trend_low_bucket :: nat
  cp_recommendation_start_bucket :: nat
  cp_detected_peaks :: nat
  cp_history_days :: nat

definition zero_profile :: consumption_profile where
  "zero_profile = \<lparr>cp_today_kwh = replicate profile_buckets 0,
     cp_trend_kwh = replicate profile_buckets 0, cp_trend_samples = replicate profile_buckets 0,
     cp_today_total_kwh = 0, cp_today_cost_sek = 0, cp_trend_total_kwh = 0,
     cp_predicted_cost_sek = 0, cp_today_peak_bucket = 0, cp_today_low_bucket = 0,
     cp_trend_peak_bucket = 0, cp_trend_low_bucket = 0, cp_recommendation_start_bucket = 0,
     cp_detected_peaks = 0, cp_history_days = 0\<rparr>"

text \<open>The arrays that the loop of \<open>accumulate_readings\<close> fills.\<close>

record accumulator =
  ac_today_kwh :: "dbl list"
  ac_today_total :: dbl
  ac_history_kwh :: "dbl list list"
  ac_days_seen :: "bool list"

definition zero_accumulator :: accumulator where
  "zero_accumulator = \<lparr>ac_today_kwh = replicate profile_buckets 0, ac_today_total = 0,
     ac_history_kwh = replicate profile_history_max_days (replicate profile_buckets 0),
     ac_days_seen = replicate profile_history_max_days False\<rparr>"

definition add_at :: "dbl list \<Rightarrow> nat \<Rightarrow> dbl \<Rightarrow> dbl list" where
  "add_at xs i x = xs[i := xs ! i + x]"

definition accumulate_step ::
  "local_time \<Rightarrow> int \<Rightarrow> int \<Rightarrow> nat \<Rightarrow> accumulator \<Rightarrow> meter_point \<Rightarrow> meter_point \<Rightarrow> accumulator" where
  "accumulate_step local today tomorrow days ac p c =
     (case interval_kwh p c of
        None \<Rightarrow> ac
      | Some kwh \<Rightarrow>
          let to = fst c; bucket = bucket_for_time local to
          in if bucket < 0 \<or> bucket \<ge> int profile_buckets then ac
             else if today \<le> to \<and> to < tomorrow
             then ac\<lparr>ac_today_kwh := add_at (ac_today_kwh ac) (nat bucket) kwh,
                     ac_today_total := ac_today_total ac + kwh\<rparr>
             else if to < today
             then let day = c_div (to - (today - int days * 86400)) 86400
                  in if 0 \<le> day \<and> day < int days
                     then ac\<lparr>ac_days_seen := (ac_days_seen ac)[nat day := True],
                             ac_history_kwh := (ac_history_kwh ac)
                               [nat day := add_at (ac_history_kwh ac ! nat day) (nat bucket) kwh]\<rparr>
                     else ac
             else ac)"

fun accumulate_loop ::
  "local_time \<Rightarrow> int \<Rightarrow> int \<Rightarrow> nat \<Rightarrow> accumulator \<Rightarrow> meter_point list \<Rightarrow> accumulator" where
  "accumulate_loop local today tomorrow days ac (p # c # rest) =
     accumulate_loop local today tomorrow days
       (accumulate_step local today tomorrow days ac p c) (c # rest)"
| "accumulate_loop local today tomorrow days ac rows = ac"

text \<open>The average over the days seen, for one bucket, and the number of samples.\<close>

definition trend_bucket :: "nat \<Rightarrow> accumulator \<Rightarrow> nat \<Rightarrow> dbl" where
  "trend_bucket days ac b =
     sum_list (map (\<lambda>d. if ac_days_seen ac ! d then ac_history_kwh ac ! d ! b else 0) [0..<days])"

definition days_seen :: "nat \<Rightarrow> accumulator \<Rightarrow> nat" where
  "days_seen days ac = length (filter (\<lambda>d. ac_days_seen ac ! d) [0..<days])"

text \<open>The loops that keep the index of the largest and of the smallest value.\<close>

definition peak_bucket :: "dbl list \<Rightarrow> nat" where
  "peak_bucket xs = fold (\<lambda>i b. if xs ! i > xs ! b then i else b) [1..<profile_buckets] 0"

definition low_bucket :: "dbl list \<Rightarrow> nat" where
  "low_bucket xs = fold (\<lambda>i b. if xs ! i < xs ! b then i else b) [1..<profile_buckets] 0"

definition peak_threshold :: dbl where
  "peak_threshold = 135 / 100"

definition detected_peaks :: "dbl \<Rightarrow> dbl list \<Rightarrow> nat" where
  "detected_peaks total_kwh xs =
     (let avg = total_kwh / of_nat profile_buckets
      in length (filter (\<lambda>x. avg > 0 \<and> x \<ge> avg * peak_threshold) xs))"

text \<open>The loop adds to what the profile holds for today, and the averages to what it holds for the trend.\<close>

definition start_accumulator :: "consumption_profile \<Rightarrow> accumulator" where
  "start_accumulator P = zero_accumulator\<lparr>ac_today_kwh := cp_today_kwh P, ac_today_total := cp_today_total_kwh P\<rparr>"

definition accumulate_readings ::
  "local_time \<Rightarrow> meter_point list \<Rightarrow> int \<Rightarrow> int \<Rightarrow> int \<Rightarrow> consumption_profile
   \<Rightarrow> status \<times> consumption_profile" where
  "accumulate_readings local rows today tomorrow history_days P =
     (if length rows < 2 \<or> history_days < 1 \<or> history_days > int profile_history_max_days
      then (ERR_NOT_FOUND, P)
      else
        let days = nat history_days;
            ac = accumulate_loop local today tomorrow days (start_accumulator P) rows;
            seen = days_seen days ac;
            trend = (if seen > 0
                     then map (\<lambda>b. (cp_trend_kwh P ! b + trend_bucket days ac b) / of_nat seen) [0..<profile_buckets]
                     else cp_trend_kwh P);
            samples = (if seen > 0 then map (\<lambda>s. s + seen) (cp_trend_samples P)
                       else cp_trend_samples P);
            trend_total = (if seen > 0 then cp_trend_total_kwh P + sum_list trend
                           else cp_trend_total_kwh P);
            today_kwh = ac_today_kwh ac;
            total_kwh = ac_today_total ac;
            P' = P\<lparr>cp_today_kwh := today_kwh, cp_today_total_kwh := total_kwh,
                   cp_history_days := seen, cp_trend_kwh := trend, cp_trend_samples := samples,
                   cp_trend_total_kwh := trend_total,
                   cp_today_peak_bucket := peak_bucket today_kwh,
                   cp_today_low_bucket := low_bucket today_kwh,
                   cp_trend_peak_bucket := peak_bucket trend,
                   cp_trend_low_bucket := low_bucket trend,
                   cp_detected_peaks := cp_detected_peaks P + detected_peaks total_kwh today_kwh\<rparr>
        in (if total_kwh > 0 \<or> trend_total > 0 then SUCCESS else ERR_NOT_FOUND, P'))"

text \<open>From the cleared profile everything starts at 0.\<close>

lemma start_zero [simp]: "start_accumulator zero_profile = zero_accumulator"
  by (simp add: start_accumulator_def zero_accumulator_def zero_profile_def)

lemma trend_zero [simp]:
  "map (\<lambda>b. (cp_trend_kwh zero_profile ! b + f b) / c) [0..<profile_buckets] = map (\<lambda>b. f b / c) [0..<profile_buckets]"
  "map (\<lambda>b. cp_trend_kwh zero_profile ! b + f b) [0..<profile_buckets] = map f [0..<profile_buckets]"
  by (simp_all add: zero_profile_def)

lemma zero_profile_simps [simp]:
  "cp_trend_total_kwh zero_profile = 0" "cp_trend_samples zero_profile = replicate profile_buckets 0"
  "cp_detected_peaks zero_profile = 0"
  by (simp_all add: zero_profile_def)

text \<open>\<open>today\<close> is \<open>epoch_now_day()\<close>. The profile is cleared first.\<close>

definition build_profile ::
  "local_time \<Rightarrow> int \<Rightarrow> meter_point list \<Rightarrow> int \<Rightarrow> consumption_profile
   \<Rightarrow> status \<times> consumption_profile" where
  "build_profile local today rows history_days P =
     (if history_days < 1 \<or> history_days > int profile_history_max_days then (ERR_INVALID_ARG, P)
      else accumulate_readings local rows today (today + 86400) history_days zero_profile)"

section \<open>The daily series\<close>

record daily_series =
  hs_point_count :: nat
  hs_available_days :: nat
  hs_timestamps :: "int list"
  hs_has_data :: "bool list"
  hs_kwh :: "dbl list"
  hs_avg_price :: "dbl list"
  hs_cost :: "dbl list"
  hs_avg_power_w :: "dbl list"
  hs_total_kwh :: dbl
  hs_total_cost :: dbl
  hs_latest_avg_price :: dbl
  hs_latest_avg_power_w :: dbl
  hs_max_avg_power_w :: dbl

definition daily_step ::
  "int \<Rightarrow> nat \<Rightarrow> bool list \<times> dbl list \<Rightarrow> meter_point \<Rightarrow> meter_point \<Rightarrow> bool list \<times> dbl list" where
  "daily_step range_start days st p c =
     (case interval_kwh p c of
        None \<Rightarrow> st
      | Some kwh \<Rightarrow>
          let day = c_div (fst c - range_start) 86400
          in if day < 0 \<or> day \<ge> int days then st
             else ((fst st)[nat day := True], add_at (snd st) (nat day) kwh))"

fun daily_loop ::
  "int \<Rightarrow> nat \<Rightarrow> bool list \<times> dbl list \<Rightarrow> meter_point list \<Rightarrow> bool list \<times> dbl list" where
  "daily_loop range_start days st (p # c # rest) =
     daily_loop range_start days (daily_step range_start days st p c) (c # rest)"
| "daily_loop range_start days st rows = st"

text \<open>The average price of one day: 0 where no price falls on it.\<close>

definition day_prices :: "int \<Rightarrow> electricity_spots \<Rightarrow> nat \<Rightarrow> dbl list" where
  "day_prices range_start spots d =
     map sp_price (filter (\<lambda>s. c_div (sp_time_start s - range_start) 86400 = int d) (es_prices spots))"

definition day_avg_price :: "int \<Rightarrow> electricity_spots \<Rightarrow> nat \<Rightarrow> dbl" where
  "day_avg_price range_start spots d =
     (let ps = day_prices range_start spots d
      in if ps = [] then 0 else sum_list ps / of_nat (length ps))"

text \<open>The last loop, over the days that have data.\<close>

definition series_day :: "daily_series \<Rightarrow> nat \<Rightarrow> daily_series" where
  "series_day S i =
     (if \<not> hs_has_data S ! i then S
      else
        let power = hs_kwh S ! i * 1000 / 24;
            cost = hs_kwh S ! i * hs_avg_price S ! i
        in S\<lparr>hs_available_days := hs_available_days S + 1,
             hs_avg_power_w := (hs_avg_power_w S)[i := power],
             hs_cost := (hs_cost S)[i := cost],
             hs_total_kwh := hs_total_kwh S + hs_kwh S ! i,
             hs_total_cost := hs_total_cost S + cost,
             hs_latest_avg_price := hs_avg_price S ! i,
             hs_latest_avg_power_w := power,
             hs_max_avg_power_w := (if power > hs_max_avg_power_w S then power
                                    else hs_max_avg_power_w S)\<rparr>)"

text \<open>The series after the loops over the readings and over the prices. \<open>get_spots from to\<close> is
  \<open>ech_get_spots_range\<close> for the facility.\<close>

definition initial_series ::
  "(int \<Rightarrow> int \<Rightarrow> electricity_spots result) \<Rightarrow> int \<Rightarrow> int \<Rightarrow> nat \<Rightarrow> bool list \<times> dbl list
   \<Rightarrow> daily_series" where
  "initial_series get_spots range_start range_end days st =
     \<lparr>hs_point_count = days, hs_available_days = 0,
      hs_timestamps = map (\<lambda>i. range_start + int i * 86400) [0..<days]
        @ replicate (profile_history_max_days - days) 0,
      hs_has_data = fst st, hs_kwh = snd st,
      hs_avg_price = (case get_spots range_start range_end of
          Inl e \<Rightarrow> replicate profile_history_max_days 0
        | Inr spots \<Rightarrow> map (\<lambda>d. if d < days then day_avg_price range_start spots d else 0)
                        [0..<profile_history_max_days]),
      hs_cost = replicate profile_history_max_days 0,
      hs_avg_power_w = replicate profile_history_max_days 0,
      hs_total_kwh = 0, hs_total_cost = 0, hs_latest_avg_price = 0,
      hs_latest_avg_power_w = 0, hs_max_avg_power_w = 0\<rparr>"

definition build_daily_history_series ::
  "(int \<Rightarrow> int \<Rightarrow> electricity_spots result) \<Rightarrow> int \<Rightarrow> int \<Rightarrow> meter_point list
   \<Rightarrow> status \<times> daily_series option" where
  "build_daily_history_series get_spots today history_days rows =
     (if history_days < 1 \<or> history_days > int profile_history_max_days \<or> rows = []
      then (ERR_INVALID_ARG, None)
      else
        let days = nat history_days;
            range_start = today - (history_days - 1) * 86400;
            st = daily_loop range_start days
              (replicate profile_history_max_days False, replicate profile_history_max_days 0) rows;
            S = fold (\<lambda>i S. series_day S i) [0..<days]
              (initial_series get_spots range_start (today + 86400) days st)
        in (if hs_available_days S > 0 then SUCCESS else ERR_NOT_FOUND, Some S))"

section \<open>Where the energy goes\<close>

text \<open>The consecutive pairs of readings, and the energy of a pair.\<close>

definition reading_pairs :: "meter_point list \<Rightarrow> (meter_point \<times> meter_point) list" where
  "reading_pairs rows = zip rows (tl rows)"

definition pair_kwh :: "meter_point \<times> meter_point \<Rightarrow> dbl" where
  "pair_kwh x = (case interval_kwh (fst x) (snd x) of None \<Rightarrow> 0 | Some kwh \<Rightarrow> kwh)"

text \<open>The energy of the pairs that end in an interval of time.\<close>

definition kwh_between :: "int \<Rightarrow> int \<Rightarrow> meter_point list \<Rightarrow> dbl" where
  "kwh_between from to rows = sum_list (map (\<lambda>x.
     if from \<le> fst (snd x) \<and> fst (snd x) < to then pair_kwh x else 0) (reading_pairs rows))"

lemma reading_pairs_simps [simp]:
  "reading_pairs [] = []" "reading_pairs [p] = []"
  "reading_pairs (p # c # rest) = (p, c) # reading_pairs (c # rest)"
  by (simp_all add: reading_pairs_def)

lemma kwh_between_simps [simp]:
  "kwh_between from to [] = 0" "kwh_between from to [p] = 0"
  "kwh_between from to (p # c # rest) =
     (if from \<le> fst c \<and> fst c < to then pair_kwh (p, c) else 0) + kwh_between from to (c # rest)"
  by (simp_all add: kwh_between_def)

definition local_ok :: "local_time \<Rightarrow> bool" where
  "local_ok local \<longleftrightarrow> (\<forall>t. 0 \<le> fst (local t) \<and> fst (local t) < 24
                          \<and> 0 \<le> snd (local t) \<and> snd (local t) < 60)"

lemma bucket_range:
  assumes "local_ok local"
  shows "0 \<le> bucket_for_time local t \<and> bucket_for_time local t < int profile_buckets"
proof -
  have "0 \<le> fst (local t)" "fst (local t) < 24" "0 \<le> snd (local t)" "snd (local t) < 60"
    using assms by (auto simp: local_ok_def)
  then show ?thesis by (simp add: bucket_for_time_def profile_buckets_def)
qed

lemma length_add_at [simp]: "length (add_at xs i x) = length xs"
  by (simp add: add_at_def)

lemma sum_update:
  "i < length xs \<Longrightarrow> sum_list (xs[i := y :: dbl]) = sum_list xs + (y - xs ! i)"
proof (induction xs arbitrary: i)
  case (Cons z xs)
  then show ?case by (cases i) simp_all
qed simp

lemma sum_add_at: "i < length xs \<Longrightarrow> sum_list (add_at xs i x) = sum_list xs + x"
  by (simp add: add_at_def sum_update)

lemma c_div_negative: "x < 0 \<Longrightarrow> c_div x 86400 = - ((- x) div 86400)"
  by (simp add: c_div_def)

lemma day_div: "x = 86400 * (x div 86400) + x mod 86400 \<and> 0 \<le> x mod 86400 \<and> x mod 86400 < 86400"
  for x :: int
  by simp

lemma c_div_day: "0 \<le> c_div x 86400 \<longleftrightarrow> - 86400 < x"
proof (cases "0 \<le> x")
  case False
  with day_div [of "- x"] show ?thesis by (simp only: c_div_negative not_le) linarith
qed simp

lemma c_div_below: "0 \<le> n \<Longrightarrow> c_div x 86400 < n + 1 \<longleftrightarrow> x < (n + 1) * 86400"
proof (cases "0 \<le> x")
  case True
  define q r where "q = x div 86400" and "r = x mod 86400"
  have "x = 86400 * q + r" "0 \<le> r" "r < 86400" using day_div [of x] by (simp_all add: q_def r_def)
  then have "q < n + 1 \<longleftrightarrow> x < (n + 1) * 86400" by auto
  with True show ?thesis by (simp add: q_def)
next
  case False
  then have "c_div x 86400 \<le> 0"
    by (simp add: c_div_negative pos_imp_zdiv_nonneg_iff)
  with False show "0 \<le> n \<Longrightarrow> ?thesis" by auto
qed

text \<open>The sizes of the arrays, and the sums that the loop keeps.\<close>

definition accumulator_ok :: "nat \<Rightarrow> accumulator \<Rightarrow> bool" where
  "accumulator_ok days ac \<longleftrightarrow> length (ac_today_kwh ac) = profile_buckets
     \<and> length (ac_history_kwh ac) = profile_history_max_days
     \<and> (\<forall>h \<in> set (ac_history_kwh ac). length h = profile_buckets)
     \<and> length (ac_days_seen ac) = profile_history_max_days
     \<and> ac_today_total ac = sum_list (ac_today_kwh ac)
     \<and> (\<forall>d < profile_history_max_days. \<not> (ac_days_seen ac ! d \<and> d < days)
          \<longrightarrow> ac_history_kwh ac ! d = replicate profile_buckets 0)"

definition history_sum :: "accumulator \<Rightarrow> dbl" where
  "history_sum ac = sum_list (map sum_list (ac_history_kwh ac))"

lemma zero_accumulator_ok: "accumulator_ok days zero_accumulator" "history_sum zero_accumulator = 0"
  by (simp_all add: accumulator_ok_def zero_accumulator_def history_sum_def sum_list_replicate
      nth_replicate)

lemma history_day_range:
  assumes "local_ok local" "interval_kwh p c = Some kwh" "\<not> (today \<le> fst c \<and> fst c < tomorrow)"
    "today < tomorrow" "0 < days"
  shows "(fst c < today \<and> 0 \<le> c_div (fst c - (today - int days * 86400)) 86400
       \<and> c_div (fst c - (today - int days * 86400)) 86400 < int days)
     \<longleftrightarrow> today - int days * 86400 - 86400 < fst c \<and> fst c < today"
proof -
  let ?x = "fst c - (today - int days * 86400)"
  have "c_div ?x 86400 < int (days - 1) + 1 \<longleftrightarrow> ?x < (int (days - 1) + 1) * 86400"
    by (rule c_div_below) simp
  moreover have "int (days - 1) + 1 = int days" using assms(5) by simp
  ultimately show ?thesis unfolding c_div_day by auto
qed

lemma sum_history_update:
  assumes "accumulator_ok days ac" "d < profile_history_max_days" "b < profile_buckets"
  shows "sum_list (map sum_list ((ac_history_kwh ac)[d := add_at (ac_history_kwh ac ! d) b x]))
     = history_sum ac + x"
proof -
  have "d < length (ac_history_kwh ac)" "b < length (ac_history_kwh ac ! d)"
    using assms by (auto simp: accumulator_ok_def)
  then show ?thesis by (simp add: map_update history_sum_def sum_add_at sum_update)
qed

lemma accumulate_step_ok:
  assumes "accumulator_ok days ac" "local_ok local" "days \<le> profile_history_max_days" "0 < days"
    "today < tomorrow"
  defines "ac' \<equiv> \<lambda>p c. accumulate_step local today tomorrow days ac p c"
  shows "accumulator_ok days (ac' p c)
    \<and> ac_today_total (ac' p c) = ac_today_total ac
       + (if today \<le> fst c \<and> fst c < tomorrow then pair_kwh (p, c) else 0)
    \<and> history_sum (ac' p c) = history_sum ac
       + (if today - int days * 86400 - 86400 < fst c \<and> fst c < today then pair_kwh (p, c) else 0)"
proof (cases "interval_kwh p c")
  case None
  then show ?thesis using assms(1) by (simp add: ac'_def accumulate_step_def pair_kwh_def)
next
  case (Some kwh)
  let ?b = "bucket_for_time local (fst c)" and ?d = "c_div (fst c - (today - int days * 86400)) 86400"
  let ?new = "add_at (ac_history_kwh ac ! nat ?d) (nat ?b) kwh"
  have k: "pair_kwh (p, c) = kwh" using Some by (simp add: pair_kwh_def)
  have b: "0 \<le> ?b" "\<not> ?b < 0" "\<not> int profile_buckets \<le> ?b" "nat ?b < profile_buckets"
    using bucket_range [OF assms(2), of "fst c"] by auto
  show ?thesis
  proof (cases "today \<le> fst c \<and> fst c < tomorrow")
    case True
    then have "ac' p c = ac\<lparr>ac_today_kwh := add_at (ac_today_kwh ac) (nat ?b) kwh,
                     ac_today_total := ac_today_total ac + kwh\<rparr>"
      using Some b by (simp add: ac'_def accumulate_step_def)
    with True assms(1) b k show ?thesis
      by (simp add: accumulator_ok_def history_sum_def sum_add_at)
  next
    case no_today: False
    note range = history_day_range [OF assms(2) Some no_today assms(5,4)]
    show ?thesis
    proof (cases "fst c < today \<and> 0 \<le> ?d \<and> ?d < int days")
      case True
      then have d: "nat ?d < profile_history_max_days" "nat ?d < days" using assms(3) by auto
      have "ac' p c = ac\<lparr>ac_days_seen := (ac_days_seen ac)[nat ?d := True],
          ac_history_kwh := (ac_history_kwh ac)[nat ?d := ?new]\<rparr>"
        using Some b True no_today by (auto simp: ac'_def accumulate_step_def Let_def)
      moreover have "length ?new = profile_buckets" using assms(1) d by (simp add: accumulator_ok_def)
      then have "accumulator_ok days (ac\<lparr>ac_days_seen := (ac_days_seen ac)[nat ?d := True],
          ac_history_kwh := (ac_history_kwh ac)[nat ?d := ?new]\<rparr>)"
        using assms(1) d
        by (auto simp: accumulator_ok_def nth_list_update split: if_splits
            dest!: set_update_subset_insert [THEN subsetD])
      moreover have "today - int days * 86400 - 86400 < fst c \<and> fst c < today"
        using True range by simp
      ultimately show ?thesis
        using sum_history_update [OF assms(1) d(1) b(4), of kwh] k True
        by (simp add: history_sum_def)
    next
      case False
      then have "ac' p c = ac" using Some b no_today by (auto simp: ac'_def accumulate_step_def Let_def)
      moreover have "\<not> (today - int days * 86400 - 86400 < fst c \<and> fst c < today)"
        using False range by simp
      ultimately show ?thesis using no_today assms(1) by auto
    qed
  qed
qed

lemma accumulate_loop_ok:
  assumes "accumulator_ok days ac" "local_ok local" "days \<le> profile_history_max_days" "0 < days"
    "today < tomorrow"
  shows "accumulator_ok days (accumulate_loop local today tomorrow days ac rows)
     \<and> ac_today_total (accumulate_loop local today tomorrow days ac rows)
         = ac_today_total ac + kwh_between today tomorrow rows
     \<and> history_sum (accumulate_loop local today tomorrow days ac rows)
         = history_sum ac + kwh_between (today - int days * 86400 - 86400 + 1) today rows"
  using assms
proof (induction local today tomorrow days ac rows rule: accumulate_loop.induct)
  case (1 local today tomorrow days ac p c rest)
  have "today - int days * 86400 - 86400 + 1 \<le> fst c \<longleftrightarrow> today - int days * 86400 - 86400 < fst c"
    by linarith
  with accumulate_step_ok [OF "1.prems", of p c] "1.IH" "1.prems"(2-) show ?case by simp
qed simp_all

lemma trend_sum:
  assumes "accumulator_ok days ac" "days \<le> profile_history_max_days"
  shows "sum_list (map (trend_bucket days ac) [0..<profile_buckets]) = history_sum ac"
proof -
  let ?h = "ac_history_kwh ac" and ?n = profile_history_max_days
  have len: "length ?h = ?n" "d < ?n \<Longrightarrow> length (?h ! d) = profile_buckets" for d
    using assms(1) by (auto simp: accumulator_ok_def)
  have zero: "\<not> (ac_days_seen ac ! d \<and> d < days) \<Longrightarrow> d < ?n \<Longrightarrow> ?h ! d = replicate profile_buckets 0" for d
    using assms(1) by (auto simp: accumulator_ok_def)
  have day: "(\<Sum>b = 0..<profile_buckets. if ac_days_seen ac ! d then ?h ! d ! b else 0)
      = (\<Sum>b = 0..<profile_buckets. ?h ! d ! b)" if "d < days" for d
    using zero [of d] that assms(2) by (auto intro!: sum.cong)
  have "sum_list (map (trend_bucket days ac) [0..<profile_buckets])
      = (\<Sum>b = 0..<profile_buckets. \<Sum>d = 0..<days. if ac_days_seen ac ! d then ?h ! d ! b else 0)"
    by (simp add: trend_bucket_def interv_sum_list_conv_sum_set_nat)
  also have "\<dots> = (\<Sum>d = 0..<days. \<Sum>b = 0..<profile_buckets. if ac_days_seen ac ! d then ?h ! d ! b else 0)"
    by (rule sum.swap)
  also have "\<dots> = (\<Sum>d = 0..<days. \<Sum>b = 0..<profile_buckets. ?h ! d ! b)"
    using day by simp
  also have "\<dots> = (\<Sum>d = 0..<?n. \<Sum>b = 0..<profile_buckets. ?h ! d ! b)"
    using assms(2) zero by (intro sum.mono_neutral_left) (auto intro!: sum.neutral)
  also have "\<dots> = history_sum ac"
    using len by (simp add: history_sum_def sum_list_sum_nth)
  finally show ?thesis .
qed

text \<open>The loops over the buckets find the first largest and the first smallest value.\<close>

lemma fold_peak:
  fixes f :: "nat \<Rightarrow> dbl"
  defines "m \<equiv> \<lambda>n. fold (\<lambda>i b. if f i > f b then i else b) [1..<Suc n] 0"
  shows "m n \<le> n \<and> (\<forall>i \<le> n. f i \<le> f (m n)) \<and> (\<forall>i < m n. f i < f (m n))"
proof (induction n)
  case 0
  then show ?case by (simp add: m_def)
next
  case (Suc n)
  have step: "m (Suc n) = (if f (Suc n) > f (m n) then Suc n else m n)" by (simp add: m_def)
  show ?case
  proof (cases "f (Suc n) > f (m n)")
    case True
    then have "f i < f (Suc n)" if "i < Suc n" for i using Suc that by (meson le_less_trans less_Suc_eq_le)
    with True show ?thesis by (auto simp: step less_Suc_eq_le le_Suc_eq intro: less_imp_le)
  next
    case False
    with Suc show ?thesis by (auto simp: step le_Suc_eq)
  qed
qed

lemma fold_low:
  fixes f :: "nat \<Rightarrow> dbl"
  shows "let m = fold (\<lambda>i b. if f i < f b then i else b) [1..<Suc n] 0
    in m \<le> n \<and> (\<forall>i \<le> n. f m \<le> f i) \<and> (\<forall>i < m. f m < f i)"
  using fold_peak [of "\<lambda>i. - f i" n] by (simp only: neg_less_iff_less neg_le_iff_le Let_def) blast

lemma peak_bucket_max:
  "peak_bucket xs < profile_buckets"
  "i < profile_buckets \<Longrightarrow> xs ! i \<le> xs ! peak_bucket xs"
  using fold_peak [of "\<lambda>i. xs ! i" 95] by (simp_all add: peak_bucket_def profile_buckets_def)

lemma low_bucket_min:
  "low_bucket xs < profile_buckets"
  "i < profile_buckets \<Longrightarrow> xs ! low_bucket xs \<le> xs ! i"
  using fold_low [of "\<lambda>i. xs ! i" 95]
  by (simp_all add: low_bucket_def profile_buckets_def Let_def)

section \<open>The daily series\<close>

definition daily_ok :: "nat \<Rightarrow> bool list \<times> dbl list \<Rightarrow> bool" where
  "daily_ok days st \<longleftrightarrow> length (fst st) = profile_history_max_days
     \<and> length (snd st) = profile_history_max_days
     \<and> (\<forall>i < profile_history_max_days. \<not> (fst st ! i \<and> i < days) \<longrightarrow> snd st ! i = 0)"

lemma daily_step_ok:
  assumes "daily_ok days st" "0 < days" "days \<le> profile_history_max_days"
  shows "daily_ok days (daily_step start days st p c)
    \<and> sum_list (snd (daily_step start days st p c)) = sum_list (snd st)
       + (if start - 86400 < fst c \<and> fst c < start + int days * 86400 then pair_kwh (p, c) else 0)"
proof (cases "interval_kwh p c")
  case None
  then show ?thesis using assms(1) by (simp add: daily_step_def pair_kwh_def)
next
  case (Some kwh)
  let ?d = "c_div (fst c - start) 86400"
  have "?d < int (days - 1) + 1 \<longleftrightarrow> fst c - start < (int (days - 1) + 1) * 86400"
    by (rule c_div_below) simp
  then have range: "0 \<le> ?d \<and> ?d < int days
      \<longleftrightarrow> start - 86400 < fst c \<and> fst c < start + int days * 86400"
    unfolding c_div_day using assms(2) by auto
  show ?thesis
  proof (cases "0 \<le> ?d \<and> ?d < int days")
    case True
    then have "daily_step start days st p c = ((fst st)[nat ?d := True], add_at (snd st) (nat ?d) kwh)"
      using Some by (simp add: daily_step_def Let_def)
    moreover have d: "nat ?d < profile_history_max_days" "nat ?d < days" using True assms(3) by auto
    ultimately show ?thesis
      using assms(1) True range Some
      by (auto simp: daily_ok_def sum_add_at pair_kwh_def add_at_def nth_list_update sum_update)
  next
    case False
    with Some assms(1) range show ?thesis by (auto simp: daily_step_def Let_def)
  qed
qed

lemma daily_loop_ok:
  assumes "daily_ok days st" "0 < days" "days \<le> profile_history_max_days"
  shows "daily_ok days (daily_loop start days st rows)
    \<and> sum_list (snd (daily_loop start days st rows)) = sum_list (snd st)
       + kwh_between (start - 86400 + 1) (start + int days * 86400) rows"
  using assms
proof (induction start days st rows rule: daily_loop.induct)
  case (1 start days st p c rest)
  have "start - 86400 + 1 \<le> fst c \<longleftrightarrow> start - 86400 < fst c" by linarith
  with daily_step_ok [OF "1.prems", of start p c] "1.IH" "1.prems"(2-) show ?case by simp
qed simp_all

definition data_days :: "daily_series \<Rightarrow> nat \<Rightarrow> nat list" where
  "data_days S n = filter (\<lambda>i. hs_has_data S ! i) [0..<n]"

lemma series_fold:
  assumes "hs_available_days S = 0" "hs_total_kwh S = 0" "hs_total_cost S = 0"
  defines "S' \<equiv> \<lambda>n. fold (\<lambda>i S. series_day S i) [0..<n] S"
  shows "hs_has_data (S' n) = hs_has_data S \<and> hs_kwh (S' n) = hs_kwh S
    \<and> hs_avg_price (S' n) = hs_avg_price S
    \<and> hs_available_days (S' n) = length (data_days S n)
    \<and> hs_total_kwh (S' n) = sum_list (map (\<lambda>i. hs_kwh S ! i) (data_days S n))
    \<and> hs_total_cost (S' n) = sum_list (map (\<lambda>i. hs_kwh S ! i * hs_avg_price S ! i) (data_days S n))"
proof (induction n)
  case 0
  then show ?case by (simp add: S'_def assms data_days_def)
next
  case (Suc n)
  have "S' (Suc n) = series_day (S' n) n" by (simp add: S'_def)
  with Suc show ?case by (simp add: series_day_def data_days_def Let_def)
qed

lemma sum_data_days:
  assumes "\<And>i. i < length xs \<Longrightarrow> \<not> (hs_has_data S ! i \<and> i < n) \<Longrightarrow> xs ! i = (0 :: dbl)" "n \<le> length xs"
  shows "sum_list (map (\<lambda>i. xs ! i) (data_days S n)) = sum_list xs"
proof -
  have "sum_list (map (\<lambda>i. xs ! i) (data_days S n))
      = (\<Sum>i = 0..<n. if hs_has_data S ! i then xs ! i else 0)"
    by (simp add: data_days_def sum_list_map_filter' interv_sum_list_conv_sum_set_nat)
  also have "\<dots> = (\<Sum>i = 0..<n. xs ! i)" using assms by (intro sum.cong) auto
  also have "\<dots> = (\<Sum>i = 0..<length xs. xs ! i)"
    using assms by (intro sum.mono_neutral_left) auto
  finally show ?thesis by (simp add: sum_list_sum_nth)
qed

lemma sum_list_divide: "sum_list (map (\<lambda>b. f b / (c :: dbl)) xs) = sum_list (map f xs) / c"
  by (induction xs) (simp_all add: add_divide_distrib)

section \<open>The properties\<close>

text \<open>C37: Today's consumption. For readings in any number, the total of today is the sum of its 96
  buckets and is exactly the energy of the pairs of readings that end today: no pair is lost or
  counted twice. The peak and the low bucket are a largest and a smallest of the 96.\<close>

theorem profile_today_energy:
  assumes local: "local_ok local"
    and rows: "2 \<le> length rows" and days: "1 \<le> days" "days \<le> 30"
  shows "case build_profile local today rows days P of (st, Q) \<Rightarrow>
     cp_today_total_kwh Q = sum_list (cp_today_kwh Q)
   \<and> cp_today_total_kwh Q = kwh_between today (today + 86400) rows
   \<and> length (cp_today_kwh Q) = 96
   \<and> cp_today_peak_bucket Q < 96 \<and> cp_today_low_bucket Q < 96
   \<and> (\<forall>i < 96. cp_today_kwh Q ! cp_today_low_bucket Q \<le> cp_today_kwh Q ! i
             \<and> cp_today_kwh Q ! i \<le> cp_today_kwh Q ! cp_today_peak_bucket Q)"
proof -
  have d: "nat days \<le> profile_history_max_days" "0 < nat days" "today < today + 86400"
    using days by (simp_all add: profile_history_max_days_def)
  note ok = accumulate_loop_ok [OF zero_accumulator_ok(1) local d, of rows]
  show ?thesis
    using rows days ok peak_bucket_max low_bucket_min
    by (simp add: build_profile_def accumulate_readings_def Let_def profile_history_max_days_def
        accumulator_ok_def zero_accumulator_def profile_buckets_def)
qed

text \<open>The average day. When some past day was seen, the total of the trend is the energy of the
  history divided by the number of days seen, at most \<open>history_days\<close>; but the history summed is that
  of one day more, because the division that finds the day rounds towards zero.\<close>

theorem profile_trend_energy:
  assumes local: "local_ok local"
    and rows: "2 \<le> length rows" and days: "1 \<le> days" "days \<le> 30"
  shows "case build_profile local today rows days P of (st, Q) \<Rightarrow>
     int (cp_history_days Q) \<le> days
   \<and> (0 < cp_history_days Q \<longrightarrow> cp_trend_total_kwh Q * of_nat (cp_history_days Q)
        = kwh_between (today - (days + 1) * 86400 + 1) today rows)"
proof -
  have d: "nat days \<le> profile_history_max_days" "0 < nat days" "today < today + 86400"
    using days by (simp_all add: profile_history_max_days_def)
  let ?ac = "accumulate_loop local today (today + 86400) (nat days) zero_accumulator rows"
  note ok = accumulate_loop_ok [OF zero_accumulator_ok(1) local d, of rows]
  then have h: "history_sum ?ac = kwh_between (today - (days + 1) * 86400 + 1) today rows"
    using days zero_accumulator_ok(2) by (simp add: algebra_simps)
  have "days_seen (nat days) ?ac \<le> nat days"
    by (simp add: days_seen_def order.trans [OF length_filter_le])
  then have seen: "int (days_seen (nat days) ?ac) \<le> days" using days by linarith
  let ?n = "of_nat (days_seen (nat days) ?ac) :: dbl"
  have "sum_list (map (\<lambda>b. trend_bucket (nat days) ?ac b / ?n) [0..<profile_buckets]) =
      history_sum ?ac / ?n"
    unfolding sum_list_divide using trend_sum [OF _ d(1), of ?ac] ok by simp
  then show ?thesis
    using rows days seen h
    by (auto simp: build_profile_def accumulate_readings_def Let_def profile_history_max_days_def)
qed

definition sample_local :: local_time where
  "sample_local t = ((t mod 86400) div 3600, (t mod 3600) div 60)"

definition power_point :: "int \<Rightarrow> meter_point" where
  "power_point t = (t, sample_reading\<lparr>mr_dbl := (\<lambda>f. 1000)\<rparr>)"

lemma sample_local_ok: "local_ok sample_local"
proof -
  have "0 \<le> (t mod 86400) div 3600 \<and> (t mod 86400) div 3600 < 24
      \<and> 0 \<le> (t mod 3600) div 60 \<and> (t mod 3600) div 60 < 60" for t :: int
  proof -
    have "t mod 86400 \<le> 86399" "t mod 3600 \<le> 3599"
      using pos_mod_bound [of 86400 t] pos_mod_bound [of 3600 t] by linarith+
    from zdiv_mono1 [OF this(1), of 3600] zdiv_mono1 [OF this(2), of 60] show ?thesis
      by (simp add: pos_imp_zdiv_nonneg_iff)
  qed
  then show ?thesis by (simp add: local_ok_def sample_local_def)
qed

definition sample_rows :: "meter_point list" where
  "sample_rows = map power_point [171900, 174600, 177300]"

theorem profile_today_energy_witness:
  "cp_today_total_kwh (snd (build_profile sample_local 172800 sample_rows 14 zero_profile)) = 3 / 2"
proof -
  have rows: "2 \<le> length sample_rows" by (simp add: sample_rows_def)
  have "kwh_between 172800 259200 sample_rows = 3 / 2" by code_simp
  with profile_today_energy [OF sample_local_ok rows, of 14 172800 zero_profile]
  show ?thesis by (simp split: prod.splits)
qed

definition old_rows :: "meter_point list" where
  "old_rows = map power_point [10000, 13600, 98200, 101800]"

theorem profile_trend_energy_witness:
  "let Q = snd (build_profile sample_local 172800 old_rows 1 zero_profile)
   in 0 < cp_history_days Q \<longrightarrow> cp_trend_total_kwh Q * of_nat (cp_history_days Q) = 2"
proof -
  have rows: "2 \<le> length old_rows" by (simp add: old_rows_def)
  have "kwh_between (172800 - (1 + 1) * 86400 + 1) 172800 old_rows = 2" by code_simp
  with profile_trend_energy [OF sample_local_ok rows, of 1 172800 zero_profile]
  show ?thesis by (simp split: prod.splits)
qed

text \<open>The day before the window is counted in its first day. With a history of one day that starts
  at 86400, a pair of readings before that time and one after it, each of 1 kWh, give an average
  day of 2 kWh from one day seen.\<close>

theorem profile_counts_day_before_window:
  "let Q = snd (build_profile sample_local 172800 old_rows 1 zero_profile)
   in kwh_between 86400 172800 old_rows = 1 \<and> cp_history_days Q = 1 \<and> cp_trend_total_kwh Q = 2"
proof -
  let ?ac = "accumulate_loop sample_local 172800 259200 1 zero_accumulator old_rows"
  have seen: "days_seen 1 ?ac = 1" "length old_rows = 4" by code_simp+
  have ok: "accumulator_ok 1 ?ac \<and> history_sum ?ac = 0 + kwh_between 1 172800 old_rows"
    using accumulate_loop_ok [OF zero_accumulator_ok(1) sample_local_ok, of 1 172800 259200 old_rows]
    by (simp add: profile_history_max_days_def zero_accumulator_ok(2))
  have k: "kwh_between 1 172800 old_rows = 2" "kwh_between 86400 172800 old_rows = 1" by code_simp+
  have "sum_list (map (trend_bucket 1 ?ac) [0..<profile_buckets]) = 2"
    using trend_sum [of 1 ?ac] ok k by (simp add: profile_history_max_days_def)
  then show ?thesis
    using seen k(2) by (simp add: build_profile_def accumulate_readings_def Let_def
        profile_history_max_days_def)
qed

text \<open>The daily series. Its total is the energy of the pairs that end after the day before the range
  and until the end of today, its cost is the sum over the days of energy times average price, and
  the report is made exactly when some day has data.\<close>

theorem daily_series_totals:
  assumes days: "1 \<le> days" "days \<le> 30" and rows: "rows \<noteq> []"
    and series: "build_daily_history_series get_spots today days rows = (st, Some S)"
  shows "hs_total_kwh S = kwh_between (today - days * 86400 + 1) (today + 86400) rows
   \<and> hs_total_kwh S = sum_list (hs_kwh S)
   \<and> hs_total_cost S = sum_list (map (\<lambda>(k, p). k * p) (zip (hs_kwh S) (hs_avg_price S)))
   \<and> (st = SUCCESS \<longleftrightarrow> data_days S (nat days) \<noteq> [])"
proof -
  let ?n = profile_history_max_days
  let ?start = "today - (days - 1) * 86400"
  define L where "L = daily_loop ?start (nat days) (replicate ?n False, replicate ?n 0) rows"
  have d: "0 < nat days" "nat days \<le> ?n" using days by (simp_all add: profile_history_max_days_def)
  have "daily_ok (nat days) (replicate ?n False, replicate ?n 0)" by (simp add: daily_ok_def)
  from daily_loop_ok [OF this d, of ?start rows]
  have L: "daily_ok (nat days) L" "sum_list (snd L) = kwh_between (today - days * 86400 + 1) (today + 86400) rows"
    using days by (simp_all add: L_def sum_list_replicate algebra_simps)
  have in_range: "\<not> (days < 1 \<or> days > int ?n \<or> rows = [])"
    using days rows by (simp add: profile_history_max_days_def)
  define S0 where "S0 = initial_series get_spots ?start (today + 86400) (nat days) L"
  have S0: "hs_available_days S0 = 0" "hs_total_kwh S0 = 0" "hs_total_cost S0 = 0"
    "hs_has_data S0 = fst L" "hs_kwh S0 = snd L" "length (hs_avg_price S0) = ?n"
    by (simp_all add: S0_def initial_series_def split: sum.split)
  have S: "S = fold (\<lambda>i S. series_day S i) [0..<nat days] S0"
      "st = (if hs_available_days S > 0 then SUCCESS else ERR_NOT_FOUND)"
    using series in_range by (auto simp: build_daily_history_series_def Let_def L_def S0_def)
  note f = series_fold [OF S0(1-3), of "nat days", folded S(1)]
  have lens: "length (hs_kwh S) = ?n" "length (hs_avg_price S) = ?n"
    using f S0 L(1) by (simp_all add: daily_ok_def)
  have zero: "hs_kwh S ! i = 0" if "i < ?n" "\<not> (hs_has_data S ! i \<and> i < nat days)" for i
    using f S0 L(1) that by (simp add: daily_ok_def)
  have dd: "data_days S0 = data_days S" using f by (simp add: data_days_def fun_eq_iff)
  have kwh: "sum_list (map (\<lambda>i. hs_kwh S ! i) (data_days S (nat days))) = sum_list (hs_kwh S)"
    using zero d lens by (intro sum_data_days) auto
  let ?c = "map (\<lambda>(k, p). k * p) (zip (hs_kwh S) (hs_avg_price S))"
  have "sum_list (map (\<lambda>i. ?c ! i) (data_days S (nat days))) = sum_list ?c"
    using zero d lens by (intro sum_data_days) auto
  moreover have "map (\<lambda>i. ?c ! i) (data_days S (nat days))
      = map (\<lambda>i. hs_kwh S ! i * hs_avg_price S ! i) (data_days S (nat days))"
    using lens d by (auto simp: data_days_def)
  ultimately have "sum_list (map (\<lambda>i. hs_kwh S ! i * hs_avg_price S ! i) (data_days S (nat days)))
      = sum_list ?c" by simp
  then show ?thesis using f dd kwh L(2) S0 S(2) by simp
qed

theorem daily_series_totals_witness:
  "\<exists>S st. build_daily_history_series (\<lambda>from to. Inl ERR_NOT_FOUND) 172800 1 sample_rows
      = (st, Some S) \<and> hs_total_kwh S = 3 / 2"
proof -
  have rows: "sample_rows \<noteq> []" by (simp add: sample_rows_def)
  then obtain st S where s:
    "build_daily_history_series (\<lambda>from to. Inl ERR_NOT_FOUND) 172800 1 sample_rows = (st, Some S)"
    by (simp add: build_daily_history_series_def profile_history_max_days_def Let_def)
  have "kwh_between (172800 - 1 * 86400 + 1) (172800 + 86400) sample_rows = 3 / 2" by code_simp
  with daily_series_totals [OF _ _ rows s] s show ?thesis by auto
qed

end
