(* ===== verification/Documents.thy ===== *)
theory Documents
  imports Facility_Files Meter_Json
begin

text \<open>
  What the server and the optimizer both write and read: numbers as text, JSON documents, the names of
  the files with daily results (\<open>common/include/data/calc_name.h\<close>) and the files themselves. cJSON
  and the helpers of \<open>maestroutils\<close> over it are parameters: the record \<open>json_tree\<close> extends what the
  server uses of cJSON by arrays and by the helpers that look up a key.
\<close>

section \<open>Numbers as text with a fixed number of decimals\<close>

text \<open>\<open>%.nf\<close>: to the nearest, ties to even; a negative number keeps its sign when it prints as 0.\<close>

definition round_half_even :: "rat \<Rightarrow> nat" where
  "round_half_even y =
     (let f = nat \<lfloor>y\<rfloor>; r = y - of_nat f
      in if r < 1 / 2 then f else if 1 / 2 < r then f + 1 else if even f then f else f + 1)"

definition fmt_fixed :: "nat \<Rightarrow> rat \<Rightarrow> string" where
  "fmt_fixed n x =
     (let m = round_half_even (\<bar>x\<bar> * 10 ^ n)
      in (if x < 0 then ''-'' else []) @ dec_nat (m div 10 ^ n) @
         (if n = 0 then [] else ''.'' @ pad0 n (dec_nat (m mod 10 ^ n))))"

text \<open>\<open>%-ks\<close> and \<open>%ks\<close>.\<close>

definition pad_right :: "nat \<Rightarrow> string \<Rightarrow> string" where
  "pad_right k s = s @ replicate (k - length s) (CHR '' '')"

definition pad_left :: "nat \<Rightarrow> string \<Rightarrow> string" where
  "pad_left k s = replicate (k - length s) (CHR '' '') @ s"

section \<open>JSON documents\<close>

datatype json_doc =
    J_num dbl
  | J_str string
  | J_list "json_doc list"
  | J_obj "(string \<times> json_doc) list"

fun doc_of :: "json_val \<Rightarrow> json_doc" where
  "doc_of (JNum x) = J_num x"
| "doc_of (JStr s) = J_str s"

text \<open>A text that is added to an object. \<open>cJSON_AddStringToObject\<close> adds nothing for NULL.\<close>

definition opt_str :: "string \<Rightarrow> string option \<Rightarrow> (string \<times> json_doc) list" where
  "opt_str k v = (case v of None \<Rightarrow> [] | Some s \<Rightarrow> [(k, J_str s)])"

text \<open>\<open>jt_items\<close> are the children of an array or object in order (\<open>cJSON_GetArraySize\<close>,
  \<open>cJSON_GetArrayItem\<close>); \<open>jt_get_ci\<close> is the lookup that ignores case; \<open>jt_double\<close>, \<open>jt_int\<close> and
  \<open>jt_text\<close> are \<open>json_get_double\<close>, \<open>json_get_int\<close> and \<open>json_get_string\<close>; \<open>jt_valueint\<close> is the integer
  that cJSON keeps beside a number.\<close>

record 'j json_tree = "'j cjson" +
  jt_is_object :: "'j \<Rightarrow> bool"
  jt_is_array :: "'j \<Rightarrow> bool"
  jt_items :: "'j \<Rightarrow> 'j list"
  jt_get_ci :: "'j \<Rightarrow> string \<Rightarrow> 'j option"
  jt_double :: "'j \<Rightarrow> string \<Rightarrow> dbl"
  jt_int :: "'j \<Rightarrow> string \<Rightarrow> int"
  jt_text :: "'j \<Rightarrow> string \<Rightarrow> string option"
  jt_valueint :: "'j \<Rightarrow> int"

section \<open>Files\<close>

text \<open>\<open>calc_name_get_daily\<close> builds the name in 512 bytes and copies it.\<close>

definition calc_name_get_daily ::
  "allocator \<Rightarrow> string \<Rightarrow> string \<Rightarrow> string \<Rightarrow> string \<Rightarrow> int \<Rightarrow> string option" where
  "calc_name_get_daily alloc date dir name ext epd =
     (let f = dir @ ''/'' @ name @ ''-Daily_'' @ date @ ''_SP'' @ dec_int epd @ ''.'' @ ext
      in if 512 \<le> length f \<or> \<not> alloc (length f + 1) then None else Some f)"

text \<open>The directory and the entry of a path, at its last slash.\<close>

definition path_dir :: "string \<Rightarrow> string" where
  "path_dir p = rev (drop 1 (dropWhile (\<lambda>c. c \<noteq> CHR ''/'') (rev p)))"

definition path_entry :: "string \<Rightarrow> string" where
  "path_entry p = rev (takeWhile (\<lambda>c. c \<noteq> CHR ''/'') (rev p))"

text \<open>A file gets new content; a new file also gets a place in its directory.\<close>

definition insert_at :: "nat \<Rightarrow> 'a \<Rightarrow> 'a list \<Rightarrow> 'a list" where
  "insert_at k x xs = take k xs @ [x] @ drop k xs"

definition fs_write :: "nat \<Rightarrow> string \<Rightarrow> string \<Rightarrow> file_sys \<Rightarrow> file_sys" where
  "fs_write k path text fs = fs\<lparr>fs_read := (fs_read fs)(path \<mapsto> text),
     fs_dir := (fs_dir fs)(path_dir path :=
       map_option (\<lambda>es. if path_entry path \<in> set es then es else insert_at k (path_entry path) es)
         (fs_dir fs (path_dir path)))\<rparr>"

lemma fs_read_write [simp]: "fs_read (fs_write k path text fs) = (fs_read fs)(path \<mapsto> text)"
  by (simp add: fs_write_def)

end
