(* ===== verification/Spot_Analysis.thy ===== *)
theory Spot_Analysis
  imports Consumption Documents Meter_Store
begin

text \<open>
  The price side of the consumption reports (\<open>optimizer/src/consumption_analysis.c\<close>): the price of a
  quarter (\<open>spot_at_bucket\<close>), the recommended window (\<open>best_price_window\<close>), the highest and lowest
  price periods (\<open>minmax_price_windows\<close>), the estimate of tomorrow's prices from the same weekday of
  the two last weeks weighted by the weather (\<open>estimate_tomorrow_spots\<close>), the reports and the rows they are
  made from. Reading the caches, printing JSON and writing files are parameters.
\<close>

section \<open>Prices by quarter\<close>

definition spot_at_bucket :: "electricity_spots \<Rightarrow> int \<Rightarrow> dbl" where
  "spot_at_bucket S bucket =
     (let prices = es_prices S; price_count = int (length prices); hour = c_div bucket 4
      in if prices = [] then 0
         else if price_count = 24 \<and> 0 \<le> hour \<and> hour < 24 then sp_price (prices ! nat hour)
         else let index = unat (word_of_int (c_div (bucket * price_count) (int profile_buckets)) :: 32 word);
                  index = (if index \<ge> length prices then length prices - 1 else index)
              in sp_price (prices ! index))"

definition profile_window_buckets :: nat where
  "profile_window_buckets = 6"

definition window_score :: "electricity_spots \<Rightarrow> consumption_profile \<Rightarrow> nat \<Rightarrow> dbl" where
  "window_score S P start =
     sum_list (map (\<lambda>i. spot_at_bucket S (int (start + i)) + cp_trend_kwh P ! (start + i) * (1 / 100))
       [0..<profile_window_buckets])"

text \<open>The best score starts at \<open>HUGE_VAL\<close>, which is larger than every score: \<open>None\<close>.\<close>

definition best_price_window :: "electricity_spots \<Rightarrow> consumption_profile \<Rightarrow> nat" where
  "best_price_window S P =
     fst (fold (\<lambda>start (best, score).
            let s = window_score S P start
            in case score of
                 None \<Rightarrow> (start, Some s)
               | Some b \<Rightarrow> if s < b then (start, Some s) else (best, Some b))
          [0..<profile_buckets - profile_window_buckets + 1] (0, None))"

section \<open>The highest and the lowest period\<close>

text \<open>The loops that move the ends of a period as long as the neighbour's price is within 0.0001.\<close>

fun extend_down :: "(nat \<Rightarrow> bool) \<Rightarrow> nat \<Rightarrow> nat" where
  "extend_down P 0 = 0"
| "extend_down P (Suc n) = (if P n then extend_down P n else Suc n)"

function extend_up :: "(nat \<Rightarrow> bool) \<Rightarrow> nat \<Rightarrow> nat \<Rightarrow> nat" where
  "extend_up P n e = (if e < n \<and> P e then extend_up P n (e + 1) else e)"
  by pat_completeness auto
termination
  by (relation "measure (\<lambda>(P, n, e). n - e)") auto

declare extend_up.simps [simp del]

definition near_price :: "spot_price list \<Rightarrow> nat \<Rightarrow> nat \<Rightarrow> bool" where
  "near_price ps m i \<longleftrightarrow> \<bar>sp_price (ps ! i) - sp_price (ps ! m)\<bar> < 1 / 10000"

definition max_price_index :: "spot_price list \<Rightarrow> nat" where
  "max_price_index ps =
     fold (\<lambda>i m. if sp_price (ps ! i) > sp_price (ps ! m) then i else m) [1..<length ps] 0"

definition min_price_index :: "spot_price list \<Rightarrow> nat" where
  "min_price_index ps =
     fold (\<lambda>i m. if sp_price (ps ! i) < sp_price (ps ! m) then i else m) [1..<length ps] 0"

text \<open>The result is \<open>(max_start, max_end, min_start, min_end)\<close>.\<close>

definition minmax_price_windows :: "electricity_spots \<Rightarrow> nat \<times> nat \<times> nat \<times> nat" where
  "minmax_price_windows S =
     (let ps = es_prices S; mx = max_price_index ps; mn = min_price_index ps
      in if ps = [] then (0, 1, 0, 1)
         else (extend_down (near_price ps mx) mx, extend_up (near_price ps mx) (length ps) (mx + 1),
               extend_down (near_price ps mn) mn, extend_up (near_price ps mn) (length ps) (mn + 1)))"

section \<open>Weather of a day\<close>

record weather_day_summary =
  wd_temperature_avg :: dbl
  wd_windspeed_avg :: dbl
  wd_precipitation_sum :: dbl
  wd_radiation_avg :: dbl
  wd_sunshine_sum :: dbl
  wd_samples :: nat

text \<open>\<open>values\<close> is what \<open>wch_get_weather_range\<close> returns for the day.\<close>

definition read_weather_summary :: "weather_values list result \<Rightarrow> weather_day_summary result" where
  "read_weather_summary weather =
     (case weather of
        Inl e \<Rightarrow> Inl ERR_NOT_FOUND
      | Inr [] \<Rightarrow> Inl ERR_NOT_FOUND
      | Inr values \<Rightarrow>
          (let n = length values
           in Inr \<lparr>wd_temperature_avg = sum_list (map wv_temperature values) / of_nat n,
                   wd_windspeed_avg = sum_list (map wv_windspeed values) / of_nat n,
                   wd_precipitation_sum = sum_list (map wv_precipitation values),
                   wd_radiation_avg = sum_list (map wv_radiation_tilted values) / of_nat n,
                   wd_sunshine_sum = sum_list (map (of_int \<circ> wv_sun_duration) values),
                   wd_samples = n\<rparr>))"

definition weather_similarity :: "weather_day_summary \<Rightarrow> weather_day_summary \<Rightarrow> dbl" where
  "weather_similarity t c =
     (if wd_samples t = 0 \<or> wd_samples c = 0 then 1
      else 1 / (1 + \<bar>wd_temperature_avg t - wd_temperature_avg c\<bar> / 10
                  + \<bar>wd_windspeed_avg t - wd_windspeed_avg c\<bar> / 8
                  + \<bar>wd_precipitation_sum t - wd_precipitation_sum c\<bar> / 20
                  + \<bar>wd_radiation_avg t - wd_radiation_avg c\<bar> / 500
                  + \<bar>wd_sunshine_sum t - wd_sunshine_sum c\<bar> / 21600))"

section \<open>The estimate of tomorrow's prices\<close>

datatype tomorrow_spot_source =
  TOMORROW_SPOTS_ACTUAL | TOMORROW_SPOTS_ESTIMATED_WITH_WEATHER
  | TOMORROW_SPOTS_ESTIMATED_FROM_PRICE_HISTORY | TOMORROW_SPOTS_FALLBACK_TODAY

definition prices_of :: "electricity_spots \<Rightarrow> dbl list" where
  "prices_of S = map sp_price (es_prices S)"

definition average :: "dbl list \<Rightarrow> dbl" where
  "average xs = sum_list xs / of_nat (length xs)"

text \<open>
  One week back or two: the prices, their weight and whether the weather gave it; \<open>None\<close> where the
  loop continues, as the later loops skip such a week.
\<close>

definition history_week ::
  "(int \<Rightarrow> int \<Rightarrow> electricity_spots result) \<Rightarrow> (int \<Rightarrow> weather_values list result) \<Rightarrow> int \<Rightarrow> nat
   \<Rightarrow> (dbl list \<times> dbl \<times> bool) option" where
  "history_week get_spots get_weather tomorrow_start i =
     (let history_start = tomorrow_start - (int i + 1) * 7 * 86400
      in case get_spots history_start (history_start + 86400) of
           Inl e \<Rightarrow> None
         | Inr spots \<Rightarrow>
             if es_prices spots = [] then None
             else case (read_weather_summary (get_weather tomorrow_start),
                        read_weather_summary (get_weather history_start)) of
               (Inr t, Inr c) \<Rightarrow> Some (prices_of spots, weather_similarity t c, True)
             | _ \<Rightarrow> Some (prices_of spots, 1, False))"

definition history_weeks ::
  "(int \<Rightarrow> int \<Rightarrow> electricity_spots result) \<Rightarrow> (int \<Rightarrow> weather_values list result) \<Rightarrow> int
   \<Rightarrow> (dbl list \<times> dbl \<times> bool) list" where
  "history_weeks get_spots get_weather tomorrow_start =
     List.map_filter (history_week get_spots get_weather tomorrow_start) [0, 1]"

definition history_average :: "dbl \<Rightarrow> (dbl list \<times> dbl \<times> bool) list \<Rightarrow> dbl" where
  "history_average today_avg weeks =
     (let sum = sum_list (map (\<lambda>(ps, w, b). average ps * w) weeks);
          weight = sum_list (map (\<lambda>(ps, w, b). w) weeks)
      in if weight > 0 then sum / weight else today_avg)"

definition week_index :: "nat \<Rightarrow> nat \<Rightarrow> nat \<Rightarrow> nat" where
  "week_index slot week_count n =
     (let idx = slot * week_count div n in if idx \<ge> week_count then week_count - 1 else idx)"

definition slot_estimate ::
  "dbl list \<Rightarrow> dbl \<Rightarrow> dbl \<Rightarrow> (dbl list \<times> dbl \<times> bool) list \<Rightarrow> nat \<Rightarrow> dbl" where
  "slot_estimate today today_avg history_avg weeks slot =
     (let n = length today;
          weighted = sum_list (map (\<lambda>(ps, w, b). ps ! week_index slot (length ps) n * w) weeks);
          weight = sum_list (map (\<lambda>(ps, w, b). w) weeks);
          same_weekday = (if weight > 0 then weighted / weight else today ! slot);
          normalized = (if history_avg > 0 then same_weekday * (today_avg / history_avg)
                        else same_weekday)
      in normalized * (65 / 100) + today ! slot * (35 / 100))"

text \<open>The size of \<open>Electricity_Spot_Price\<close> is 24 bytes.\<close>

definition estimate_tomorrow_spots ::
  "allocator \<Rightarrow> (int \<Rightarrow> int \<Rightarrow> electricity_spots result) \<Rightarrow> (int \<Rightarrow> weather_values list result)
   \<Rightarrow> electricity_spots \<Rightarrow> facility_config \<Rightarrow> int
   \<Rightarrow> (electricity_spots \<times> tomorrow_spot_source) result" where
  "estimate_tomorrow_spots mem get_spots get_weather today F tomorrow_start =
     (if es_prices today = [] then Inl ERR_INVALID_ARG
      else
        let weeks = history_weeks get_spots get_weather tomorrow_start;
            n = length (es_prices today);
            today_avg = average (prices_of today);
            history_avg = history_average today_avg weeks;
            slot_duration = 86400 div int n
        in if weeks = [] then Inl ERR_NOT_FOUND
           else if \<not> mem (n * 24) then Inl ERR_NO_MEMORY
           else Inr (\<lparr>es_prices = map (\<lambda>slot.
                         \<lparr>sp_time_start = tomorrow_start + int slot * slot_duration,
                          sp_time_end = tomorrow_start + int slot * slot_duration + slot_duration,
                          sp_price = slot_estimate (prices_of today) today_avg history_avg weeks slot\<rparr>)
                         [0..<n],
                       es_unit = es_unit today, es_currency = fc_currency F,
                       es_price_class = fc_price_class F, es_interval = es_interval today\<rparr>,
                     if \<exists>w \<in> set weeks. snd (snd w)
                     then TOMORROW_SPOTS_ESTIMATED_WITH_WEATHER
                     else TOMORROW_SPOTS_ESTIMATED_FROM_PRICE_HISTORY))"

section \<open>Costs\<close>

definition apply_spot_costs ::
  "consumption_profile \<Rightarrow> electricity_spots \<Rightarrow> electricity_spots \<Rightarrow> consumption_profile" where
  "apply_spot_costs P today tomorrow =
     (let P' = fold (\<lambda>i P. P\<lparr>
            cp_today_cost_sek := cp_today_cost_sek P + cp_today_kwh P ! i * spot_at_bucket today (int i),
            cp_predicted_cost_sek := cp_predicted_cost_sek P
              + cp_trend_kwh P ! i * spot_at_bucket tomorrow (int i)\<rparr>) [0..<profile_buckets] P
      in P'\<lparr>cp_recommendation_start_bucket := best_price_window tomorrow P'\<rparr>)"

section \<open>Text of times and numbers\<close>

definition dec02 :: "int \<Rightarrow> string" where
  "dec02 i = pad0 2 (dec_int i)"

definition format_bucket_time :: "nat \<Rightarrow> nat \<Rightarrow> string" where
  "format_bucket_time bucket out_size =
     (let minutes = int bucket * 15
      in snprintf_trunc out_size (dec02 ((minutes div 60) mod 24) @ '':'' @ dec02 (minutes mod 60)))"

definition format_bucket_range :: "nat \<Rightarrow> nat \<Rightarrow> nat \<Rightarrow> string" where
  "format_bucket_range start buckets out_size =
     snprintf_trunc out_size (format_bucket_time start 6 @ ''-''
       @ format_bucket_time ((start + buckets) mod profile_buckets) 6)"

definition format_hour_range :: "nat \<Rightarrow> nat \<Rightarrow> nat \<Rightarrow> string" where
  "format_hour_range start_hour end_hour out_size =
     snprintf_trunc out_size (dec02 (int (start_hour mod 24)) @ ''-'' @ dec02 (int (end_hour mod 24)))"

definition round_to_int :: "dbl \<Rightarrow> int" where
  "round_to_int x = (if 0 \<le> x then c_trunc (x + 1 / 2) else c_trunc (x - 1 / 2))"

text \<open>The names of the reports. \<open>date\<close> is the local date as \<open>YYYY-MM-DD\<close>; \<open>None\<close> is NULL.\<close>

definition report_path :: "allocator \<Rightarrow> string \<Rightarrow> string option" where
  "report_path mem path =
     (if length path \<ge> 512 \<or> \<not> mem (length path + 1) then None else Some path)"

definition report_name :: "allocator \<Rightarrow> string \<Rightarrow> string \<Rightarrow> string \<Rightarrow> string \<Rightarrow> string option" where
  "report_name mem dir facility ext date =
     report_path mem (dir @ ''/'' @ facility @ ''-Consumption_'' @ date @ ''.'' @ ext)"

definition display_report_name ::
  "allocator \<Rightarrow> string \<Rightarrow> string \<Rightarrow> string \<Rightarrow> string \<Rightarrow> string option" where
  "display_report_name mem dir facility date suffix =
     report_path mem (dir @ ''/'' @ facility @ ''-Consumption_'' @ date @ ''-display'' @ suffix @ ''.json'')"

fun tomorrow_spot_source_string :: "tomorrow_spot_source \<Rightarrow> string" where
  "tomorrow_spot_source_string TOMORROW_SPOTS_ACTUAL = ''actual''"
| "tomorrow_spot_source_string TOMORROW_SPOTS_ESTIMATED_WITH_WEATHER =
     ''estimated_from_today_same_weekday_history_and_weather''"
| "tomorrow_spot_source_string TOMORROW_SPOTS_ESTIMATED_FROM_PRICE_HISTORY =
     ''estimated_from_today_and_same_weekday_history''"
| "tomorrow_spot_source_string TOMORROW_SPOTS_FALLBACK_TODAY = ''fallback_today''"

fun tomorrow_spot_source_code :: "tomorrow_spot_source \<Rightarrow> int" where
  "tomorrow_spot_source_code TOMORROW_SPOTS_ACTUAL = 0"
| "tomorrow_spot_source_code TOMORROW_SPOTS_ESTIMATED_WITH_WEATHER = 1"
| "tomorrow_spot_source_code TOMORROW_SPOTS_ESTIMATED_FROM_PRICE_HISTORY = 2"
| "tomorrow_spot_source_code TOMORROW_SPOTS_FALLBACK_TODAY = 3"

section \<open>The reports\<close>

text \<open>The JSON values that the report writers build.\<close>

datatype json = JN dbl | JS string | JA "json list" | JO "(string \<times> json) list"

definition JI :: "int \<Rightarrow> json" where
  "JI i = JN (of_int i)"

definition daily_average_price :: "electricity_spots \<Rightarrow> dbl" where
  "daily_average_price S = (if es_prices S = [] then 0 else average (prices_of S))"

definition json_slot ::
  "consumption_profile \<Rightarrow> electricity_spots \<Rightarrow> electricity_spots \<Rightarrow> tomorrow_spot_source \<Rightarrow> nat
   \<Rightarrow> json" where
  "json_slot P today tomorrow source i = JO
     [(''slot_index'', JI (int i)),
      (''start_time'', JS (format_bucket_time i 6)),
      (''end_time'', JS (format_bucket_time ((i + 1) mod profile_buckets) 6)),
      (''consumption_today_kwh'', JN (cp_today_kwh P ! i)),
      (''consumption_historical_average_kwh'', JN (cp_trend_kwh P ! i)),
      (''spot_price_today_sek_per_kwh'', JN (spot_at_bucket today (int i))),
      (''spot_price_tomorrow_sek_per_kwh'', JN (spot_at_bucket tomorrow (int i))),
      (''spot_price_tomorrow_source'', JS (tomorrow_spot_source_string source))]"

definition json_report ::
  "consumption_profile \<Rightarrow> electricity_spots \<Rightarrow> electricity_spots \<Rightarrow> facility_config
   \<Rightarrow> tomorrow_spot_source \<Rightarrow> json" where
  "json_report P today tomorrow F source =
     (case minmax_price_windows today of (max_start, max_end, min_start, min_end) \<Rightarrow> JO
       [(''meta'', JO
          [(''facility'', JS (fc_name F)),
           (''electricity_area'', JI (price_class_int (fc_price_class F) + 1)),
           (''slot_count'', JI (int profile_buckets)),
           (''slot_duration_minutes'', JI 15),
           (''spot_price_unit'', JS ''SEK/kWh''),
           (''consumption_unit'', JS ''kWh''),
           (''historical_days_used'', JI (int (cp_history_days P))),
           (''tomorrow_spot_price_source'', JS (tomorrow_spot_source_string source))]),
        (''summary'', JO
          [(''consumption_today_kwh'', JN (cp_today_total_kwh P)),
           (''spot_cost_today_sek'', JN (cp_today_cost_sek P)),
           (''predicted_consumption_tomorrow_kwh'', JN (cp_trend_total_kwh P)),
           (''estimated_spot_cost_tomorrow_sek'', JN (cp_predicted_cost_sek P)),
           (''detected_high_consumption_slots_today'', JI (int (cp_detected_peaks P))),
           (''average_spot_price_today_sek_per_kwh'', JN (daily_average_price today))]),
        (''spot_price_today'', JO
          [(''highest_price_period'', JO
             [(''start_hour'', JI (int max_start)), (''end_hour'', JI (int max_end)),
              (''price_sek_per_kwh'', JN (spot_at_bucket today (int max_start * 4)))]),
           (''lowest_price_period'', JO
             [(''start_hour'', JI (int min_start)), (''end_hour'', JI (int min_end)),
              (''price_sek_per_kwh'', JN (spot_at_bucket today (int min_start * 4)))])]),
        (''consumption_pattern'', JO
          [(''highest_consumption_slot_today'', JI (int (cp_today_peak_bucket P))),
           (''lowest_consumption_slot_today'', JI (int (cp_today_low_bucket P))),
           (''highest_consumption_slot_historical_average'', JI (int (cp_trend_peak_bucket P))),
           (''lowest_consumption_slot_historical_average'', JI (int (cp_trend_low_bucket P))),
           (''recommended_load_start_slot'', JI (int (cp_recommendation_start_bucket P))),
           (''recommended_load_duration_minutes'', JI (int profile_window_buckets * 15))]),
        (''time_slots'', JA (map (json_slot P today tomorrow source) [0..<profile_buckets]))])"

definition display_report ::
  "consumption_profile \<Rightarrow> electricity_spots \<Rightarrow> electricity_spots \<Rightarrow> facility_config
   \<Rightarrow> tomorrow_spot_source \<Rightarrow> int \<Rightarrow> json" where
  "display_report P today tomorrow F source updated_at =
     (let series = (\<lambda>f. JA (map (\<lambda>b. JI (round_to_int (f b * 1000))) [0..<profile_buckets]))
      in JO
       [(''v'', JS ''od1''),
        (''f'', JS (fc_name F)),
        (''a'', JI (price_class_int (fc_price_class F) + 1)),
        (''u'', JI updated_at),
        (''m'', JI 15),
        (''src'', JI (tomorrow_spot_source_code source)),
        (''sum'', JO
          [(''ct'', JI (round_to_int (cp_today_total_kwh P * 1000))),
           (''cc'', JI (round_to_int (cp_today_cost_sek P * 100))),
           (''pt'', JI (round_to_int (cp_trend_total_kwh P * 1000))),
           (''pc'', JI (round_to_int (cp_predicted_cost_sek P * 100))),
           (''ap'', JI (round_to_int (daily_average_price today * 1000))),
           (''rs'', JI (int (cp_recommendation_start_bucket P) * 15)),
           (''rd'', JI (int profile_window_buckets * 15))]),
        (''s'', JO
          [(''c'', series (\<lambda>b. cp_today_kwh P ! b)),
           (''h'', series (\<lambda>b. cp_trend_kwh P ! b)),
           (''p'', series (\<lambda>b. spot_at_bucket today (int b))),
           (''q'', series (\<lambda>b. spot_at_bucket tomorrow (int b)))])])"

definition history_report :: "daily_series \<Rightarrow> facility_config \<Rightarrow> int \<Rightarrow> json" where
  "history_report S F now =
     (let series = (\<lambda>f. JA (map (\<lambda>i. JI (f i)) [0..<hs_point_count S]))
      in JO
       [(''sum'', JO
          [(''ct'', JI (round_to_int (hs_total_kwh S * 1000))),
           (''cc'', JI (round_to_int (hs_total_cost S * 100))),
           (''av'', JI (int (hs_available_days S)))]),
        (''s'', JO
          [(''c'', series (\<lambda>i. round_to_int (hs_kwh S ! i * 1000))),
           (''p'', series (\<lambda>i. round_to_int (hs_avg_price S ! i * 1000))),
           (''o'', series (\<lambda>i. round_to_int (hs_cost S ! i * 100))),
           (''x'', series (\<lambda>i. round_to_int (hs_avg_power_w S ! i))),
           (''t'', series (\<lambda>i. hs_timestamps S ! i)),
           (''d'', series (\<lambda>i. if hs_has_data S ! i then 1 else 0))]),
        (''v'', JS ''od2''),
        (''f'', JS (fc_name F)),
        (''a'', JI (price_class_int (fc_price_class F) + 1)),
        (''u'', JI now),
        (''m'', JI 1440),
        (''src'', JI 3)])"

text \<open>The text report.\<close>

definition txt_report_head ::
  "consumption_profile \<Rightarrow> electricity_spots \<Rightarrow> facility_config \<Rightarrow> tomorrow_spot_source \<Rightarrow> string" where
  "txt_report_head P today F source =
     (case minmax_price_windows today of (max_start, max_end, min_start, min_end) \<Rightarrow>
       ''Dagens spotpris i SE'' @ dec_int (price_class_int (fc_price_class F) + 1) @
       '' ar som hogst mellan kl '' @ format_hour_range max_start max_end 16 @
       '' ('' @ fmt_fixed 3 (spot_at_bucket today (int max_start * 4)) @ '' SEK/kWh), och som lagst mellan kl '' @
       format_hour_range min_start min_end 16 @
       '' ('' @ fmt_fixed 3 (spot_at_bucket today (int min_start * 4)) @ '' SEK/kWh).'' @ [NL] @
       ''Snittpriset for dygnet ar '' @ fmt_fixed 3 (daily_average_price today) @ '' SEK/kWh.'' @ [NL] @
       ''Dagens forbrukning hittills ar '' @ fmt_fixed 2 (cp_today_total_kwh P) @
       '' kWh och faktisk spotkostnad ar '' @ fmt_fixed 2 (cp_today_cost_sek P) @ '' SEK.'' @ [NL] @
       ''Estimerad spotkostnad for morgondagen ar '' @ fmt_fixed 2 (cp_predicted_cost_sek P) @
       '' SEK baserat pa '' @ fmt_fixed 2 (cp_trend_total_kwh P) @ '' kWh historisk dygnsprofil och '' @
       tomorrow_spot_source_string source @ '' spotpriser.'' @ [NL] @
       ''Historisk peak ligger oftast runt kl '' @ format_bucket_time (cp_trend_peak_bucket P) 6 @
       '' och historisk dal runt kl '' @ format_bucket_time (cp_trend_low_bucket P) 6 @
       ''. Maximal belastning rekommenderas mellan kl '' @
       format_bucket_range (cp_recommendation_start_bucket P) profile_window_buckets 16 @
       '' baserat pa spotpris och fastighetens historiska anvandningstrend.'' @ [NL] @
       ''Identifierade peak-buckets idag: '' @ dec_int (int (cp_detected_peaks P)) @
       ''. Historikdagar: '' @ dec_int (int (cp_history_days P)) @ ''.'' @ [NL, NL])"

definition txt_report_row :: "consumption_profile \<Rightarrow> electricity_spots \<Rightarrow> nat \<Rightarrow> string" where
  "txt_report_row P today i =
     pad_right 5 (format_bucket_time i 6) @ '' | '' @ pad_left 10 (fmt_fixed 3 (cp_today_kwh P ! i)) @ '' | '' @
     pad_left 14 (fmt_fixed 3 (cp_trend_kwh P ! i)) @ '' | '' @
     pad_left 12 (fmt_fixed 3 (spot_at_bucket today (int i))) @ [NL]"

definition txt_report ::
  "consumption_profile \<Rightarrow> electricity_spots \<Rightarrow> facility_config \<Rightarrow> tomorrow_spot_source \<Rightarrow> string" where
  "txt_report P today F source =
     txt_report_head P today F source @
     pad_right 5 ''Tid'' @ '' | '' @ pad_left 10 ''Idag kWh'' @ '' | '' @ pad_left 14 ''Hist avg kWh'' @ '' | '' @
     pad_left 12 ''Spot SEK'' @ [NL] @
     ''-----------------------------------------------------'' @ [NL] @
     concat (map (txt_report_row P today) [0..<profile_buckets])"

text \<open>What the report writers use of their surroundings: memory, cJSON's printer (NULL when memory
  runs out), \<open>write_string_to_file\<close>, \<open>fopen\<close> of the text report, \<open>ech_get_spots_range\<close> and
  \<open>wch_get_weather_range\<close> for the facility, the time, the start of the day and the date.\<close>

record report_env =
  re_mem :: allocator
  re_print :: "json \<Rightarrow> string option"
  re_write :: "string \<Rightarrow> string \<Rightarrow> bool"
  re_open_txt :: "string \<Rightarrow> bool"
  re_spots :: "int \<Rightarrow> int \<Rightarrow> electricity_spots result"
  re_weather :: "int \<Rightarrow> weather_values list result"
  re_now :: int
  re_today :: int
  re_date :: string
  re_calcs_dir :: string

text \<open>The writers return the status and the files that they wrote as a whole, by name and content. The
  results of \<open>fprintf\<close> are not looked at.\<close>

type_synonym report_files = "(string \<times> string) list"

definition write_json :: "report_env \<Rightarrow> json \<Rightarrow> string \<Rightarrow> status \<times> report_files" where
  "write_json E j filename =
     (case re_print E j of
        None \<Rightarrow> (ERR_JSON_PARSE, [])
      | Some s \<Rightarrow> if re_write E s filename then (SUCCESS, [(filename, s)]) else (ERR_FATAL, []))"

definition write_txt_report ::
  "report_env \<Rightarrow> consumption_profile \<Rightarrow> electricity_spots \<Rightarrow> facility_config \<Rightarrow> tomorrow_spot_source \<Rightarrow> string
   \<Rightarrow> status \<times> report_files" where
  "write_txt_report E P today F source filename =
     (if re_open_txt E filename then (SUCCESS, [(filename, txt_report P today F source)]) else (ERR_FATAL, []))"

definition write_history_display_report ::
  "report_env \<Rightarrow> facility_config \<Rightarrow> int \<Rightarrow> string \<Rightarrow> meter_point list \<Rightarrow> status \<times> report_files" where
  "write_history_display_report E F history_days suffix rows =
     (if rows = [] then (ERR_INVALID_ARG, [])
      else case build_daily_history_series (re_spots E) (re_today E) history_days rows of
        (SUCCESS, Some S) \<Rightarrow>
          (case display_report_name (re_mem E) (re_calcs_dir E) (fc_name F) (re_date E) suffix of
             None \<Rightarrow> (ERR_NO_MEMORY, [])
           | Some name \<Rightarrow> write_json E (history_report S F (re_now E)) name)
      | (st, _) \<Rightarrow> (st, []))"

definition load_spots ::
  "(int \<Rightarrow> int \<Rightarrow> electricity_spots result) \<Rightarrow> int \<Rightarrow> int \<Rightarrow> bool \<Rightarrow> electricity_spots result" where
  "load_spots get_spots today day_start allow_today_fallback =
     (case get_spots day_start (day_start + 86400) of
        Inr s \<Rightarrow> Inr s
      | Inl e \<Rightarrow> if allow_today_fallback then get_spots (today - 3600) (today + 86400 - 3600)
                 else Inl e)"

text \<open>The prices of tomorrow and where they come from.\<close>

definition tomorrow_spots ::
  "report_env \<Rightarrow> facility_config \<Rightarrow> electricity_spots \<Rightarrow> electricity_spots \<times> tomorrow_spot_source" where
  "tomorrow_spots E F today =
     (let start = re_today E + 86400 - 3600
      in case load_spots (re_spots E) (re_today E) start False of
           Inr s \<Rightarrow> (s, TOMORROW_SPOTS_ACTUAL)
         | Inl e \<Rightarrow>
             (case estimate_tomorrow_spots (re_mem E) (re_spots E) (re_weather E) today F start of
                Inr est \<Rightarrow> est
              | Inl e \<Rightarrow> (today, TOMORROW_SPOTS_FALLBACK_TODAY)))"

definition create_facility_report ::
  "report_env \<Rightarrow> facility_config \<Rightarrow> consumption_profile \<Rightarrow> meter_point list \<Rightarrow> status \<times> report_files" where
  "create_facility_report E F base_profile rows =
     (if rows = [] then (ERR_INVALID_ARG, [])
      else case load_spots (re_spots E) (re_today E) (re_today E - 3600) True of
        Inl e \<Rightarrow> (e, [])
      | Inr today \<Rightarrow>
          (case tomorrow_spots E F today of (tomorrow, source) \<Rightarrow>
             let P = apply_spot_costs base_profile today tomorrow;
                 dir = re_calcs_dir E; name = fc_name F; date = re_date E
             in case report_name (re_mem E) dir name ''json'' date of
                None \<Rightarrow> (ERR_NO_MEMORY, [])
              | Some json_name \<Rightarrow>
                  let (res, fs1) = write_json E (json_report P today tomorrow F source) json_name
                  in if res \<noteq> SUCCESS then (res, fs1)
                     else case display_report_name (re_mem E) dir name date [] of
                       None \<Rightarrow> (ERR_NO_MEMORY, fs1)
                     | Some display_name \<Rightarrow>
                         let (res, fs2) = write_json E
                               (display_report P today tomorrow F source (re_now E)) display_name
                         in if res \<noteq> SUCCESS then (res, fs1 @ fs2)
                            else case report_name (re_mem E) dir name ''txt'' date of
                              None \<Rightarrow> (ERR_NO_MEMORY, fs1 @ fs2)
                            | Some txt_name \<Rightarrow>
                                let (res, fs3) = write_txt_report E P today F source txt_name
                                in if res \<noteq> SUCCESS then (res, fs1 @ fs2 @ fs3)
                                   else (SUCCESS, fs1 @ fs2 @ fs3
                                     @ snd (write_history_display_report E F 7 ''-7d'' rows)
                                     @ snd (write_history_display_report E F 30 ''-30d'' rows))))"

text \<open>The rows of the last days from the store of the server, which is opened for reading. The fields of
  the environment are the results of the calls.\<close>

record rows_env =
  lr_mutex :: bool
  lr_open :: bool
  lr_mem :: allocator
  lr_columns :: columns
  lr_prepare :: bool
  lr_fail :: "nat option"

definition load_global_meter_rows :: "rows_env \<Rightarrow> meter_db \<Rightarrow> int \<Rightarrow> int \<Rightarrow> meter_point list result" where
  "load_global_meter_rows E db today history_days =
     (if history_days < 1 \<or> history_days > int profile_history_max_days then Inl ERR_INVALID_ARG
      else case meter_store_init (lr_mutex E) \<lparr>ms_db = None, ms_locked = False\<rparr> of
        (res, st) \<Rightarrow>
          if res \<noteq> SUCCESS then Inl res
          else case meter_store_open (lr_open E) True db True st of
            (res2, st2) \<Rightarrow>
              if res2 \<noteq> SUCCESS then Inl res2
              else fst (meter_store_read_range (lr_mem E) (lr_columns E) (lr_prepare E) (lr_fail E)
                     (today - history_days * 86400) (today + 86400) st2))"

text \<open>One facility after the other; the result is that of the last facility that failed.\<close>

definition consumption_analysis_create_reports ::
  "(facility_config \<Rightarrow> report_env) \<Rightarrow> local_time \<Rightarrow> int \<Rightarrow> rows_env \<Rightarrow> meter_db
   \<Rightarrow> facility_config list \<Rightarrow> status \<times> report_files" where
  "consumption_analysis_create_reports env local today E db facilities =
     (if facilities = [] then (ERR_INVALID_ARG, [])
      else case load_global_meter_rows E db today (int profile_history_max_days) of
        Inl e \<Rightarrow> (e, [])
      | Inr rows \<Rightarrow>
          (case build_profile local today rows 14 zero_profile of
             (SUCCESS, P) \<Rightarrow>
               fold (\<lambda>F (res, files).
                   case create_facility_report (env F) F P rows of (r, fs) \<Rightarrow>
                     (if r \<noteq> SUCCESS then r else res, files @ fs)) facilities (SUCCESS, [])
           | (e, P) \<Rightarrow> (e, [])))"

section \<open>Lemmas on prices\<close>

lemma extend_down_spec:
  "extend_down P n \<le> n \<and> (\<forall>i. extend_down P n \<le> i \<and> i < n \<longrightarrow> P i)
   \<and> (0 < extend_down P n \<longrightarrow> \<not> P (extend_down P n - 1))"
  by (induction n) (auto simp: less_Suc_eq)

lemma extend_up_spec:
  "e \<le> n \<Longrightarrow> e \<le> extend_up P n e \<and> extend_up P n e \<le> n
   \<and> (\<forall>i. e \<le> i \<and> i < extend_up P n e \<longrightarrow> P i)
   \<and> (extend_up P n e < n \<longrightarrow> \<not> P (extend_up P n e))"
proof (induction P n e rule: extend_up.induct)
  case (1 P n e)
  show ?case
  proof (cases "e < n \<and> P e")
    case True
    with 1 have IH: "e + 1 \<le> extend_up P n (e + 1) \<and> extend_up P n (e + 1) \<le> n
      \<and> (\<forall>i. e + 1 \<le> i \<and> i < extend_up P n (e + 1) \<longrightarrow> P i)
      \<and> (extend_up P n (e + 1) < n \<longrightarrow> \<not> P (extend_up P n (e + 1)))" by simp
    have step: "extend_up P n e = extend_up P n (e + 1)"
      using True by (simp add: extend_up.simps [of P n e])
    have "P i" if "e \<le> i" "i < extend_up P n (e + 1)" for i
      using that True IH by (cases "i = e") auto
    with IH step show ?thesis by auto
  next
    case False
    with "1.prems" show ?thesis by (auto simp: extend_up.simps [of P n e])
  qed
qed

lemma max_price_index_spec:
  assumes "ps \<noteq> []"
  shows "max_price_index ps < length ps \<and> (\<forall>i < length ps. sp_price (ps ! i) \<le> sp_price (ps ! max_price_index ps))"
proof -
  obtain n where n: "length ps = Suc n" using assms by (cases ps) auto
  show ?thesis
    using fold_peak [of "\<lambda>i. sp_price (ps ! i)" n] unfolding n [symmetric] max_price_index_def
    by (simp add: n less_Suc_eq_le)
qed

lemma min_price_index_spec:
  assumes "ps \<noteq> []"
  shows "min_price_index ps < length ps \<and> (\<forall>i < length ps. sp_price (ps ! min_price_index ps) \<le> sp_price (ps ! i))"
proof -
  obtain n where n: "length ps = Suc n" using assms by (cases ps) auto
  show ?thesis
    using fold_low [of "\<lambda>i. sp_price (ps ! i)" n] unfolding n [symmetric] min_price_index_def
    by (simp add: n less_Suc_eq_le Let_def)
qed

text \<open>The search with an unset best score finds a smallest score.\<close>

lemma fold_best:
  fixes f :: "nat \<Rightarrow> dbl"
  defines "step \<equiv> \<lambda>start (best, score). let s = f start in
     (case score of None \<Rightarrow> (start, Some s)
      | Some b \<Rightarrow> if s < b then (start, Some s) else (best :: nat, Some b))"
  shows "\<exists>m. fold step [0..<Suc n] (0, None) = (m, Some (f m)) \<and> m \<le> n \<and> (\<forall>i \<le> n. f m \<le> f i)"
proof (induction n)
  case 0
  then show ?case by (simp add: step_def)
next
  case (Suc n)
  then obtain m where m: "fold step [0..<Suc n] (0, None) = (m, Some (f m))" "m \<le> n"
    "\<forall>i \<le> n. f m \<le> f i" by blast
  have step: "fold step [0..<Suc (Suc n)] (0, None) = step (Suc n) (m, Some (f m))"
    using m(1) by simp
  show ?case
  proof (cases "f (Suc n) < f m")
    case True
    then have "\<forall>i \<le> Suc n. f (Suc n) \<le> f i" using m(3) by (auto simp: le_Suc_eq intro: order.trans less_imp_le)
    with True step show ?thesis by (intro exI [of _ "Suc n"]) (simp add: step_def)
  next
    case False
    with m step show ?thesis by (intro exI [of _ m]) (auto simp: step_def le_Suc_eq)
  qed
qed

lemma bucket_index:
  assumes "b < 96" "0 < n"
  shows "b * n div 96 < (n :: nat)"
proof -
  have "b * n < 96 * n" using assms by simp
  then show ?thesis by (simp add: less_mult_imp_div_less mult.commute)
qed

lemma spot_at_bucket_index:
  assumes "es_prices S \<noteq> []" "b < 96" "96 * length (es_prices S) < 2 ^ 31"
  shows "spot_at_bucket S (int b) = sp_price (es_prices S ! (b * length (es_prices S) div 96))"
proof -
  let ?n = "length (es_prices S)"
  have i: "b * ?n div 96 < ?n" using assms bucket_index by simp
  have c: "c_div (int b * int ?n) (int profile_buckets) = int (b * ?n div 96)"
    by (simp add: profile_buckets_def zdiv_int)
  have "b * ?n div 96 < 2 ^ 32" using i assms(3) by simp
  then have w: "unat (word_of_int (int (b * ?n div 96)) :: 32 word) = b * ?n div 96"
    by (simp add: unsigned_of_nat take_bit_nat_eq_self)
  have h: "nat (c_div (int b) 4) = b * 24 div 96" by (simp add: nat_div_distrib)
  have "c_div (int b) 4 < 24" using assms(2) by simp
  then show ?thesis
    using assms(1) i h unfolding spot_at_bucket_def Let_def c w by auto
qed

lemma sum_slot_weeks:
  fixes n :: nat
  assumes "\<forall>(ps, w, b) \<in> set weeks. length ps = n" "0 < n"
  shows "(\<Sum>slot = 0..<n. sum_list (map (\<lambda>(ps, w, b). ps ! week_index slot (length ps) n * w) weeks))
     = of_nat n * sum_list (map (\<lambda>(ps, w, b). average ps * w) weeks)"
  using assms(1)
proof (induction weeks)
  case (Cons x weeks)
  obtain ps w b where x: "x = (ps, w, b)" by (cases x)
  have len: "length ps = n" using Cons.prems x by simp
  have idx: "week_index slot n n = slot" if "slot < n" for slot
    using that assms(2) by (simp add: week_index_def)
  have "(\<Sum>slot = 0..<n. ps ! week_index slot n n * w) = (\<Sum>slot = 0..<n. ps ! slot * w)"
    using idx by simp
  also have "\<dots> = sum_list ps * w"
    using len by (simp add: sum_list_sum_nth sum_distrib_right)
  also have "\<dots> = of_nat n * (average ps * w)" using len assms(2) by (simp add: average_def)
  finally show ?case using Cons len by (simp add: x sum.distrib algebra_simps)
qed simp

lemma inverse_bounds: "1 \<le> (d :: dbl) \<Longrightarrow> 0 < 1 / d \<and> 1 / d \<le> 1"
  by (simp add: divide_le_eq_1)

lemma weather_similarity_bounds: "0 < weather_similarity t c \<and> weather_similarity t c \<le> 1"
proof -
  have "1 \<le> 1 + \<bar>wd_temperature_avg t - wd_temperature_avg c\<bar> / 10
      + \<bar>wd_windspeed_avg t - wd_windspeed_avg c\<bar> / 8
      + \<bar>wd_precipitation_sum t - wd_precipitation_sum c\<bar> / 20
      + \<bar>wd_radiation_avg t - wd_radiation_avg c\<bar> / 500
      + \<bar>wd_sunshine_sum t - wd_sunshine_sum c\<bar> / 21600" (is "1 \<le> ?d") by simp
  then have "0 < 1 / ?d \<and> 1 / ?d \<le> 1" by (rule inverse_bounds)
  then show ?thesis by (simp add: weather_similarity_def)
qed

lemma history_week_weight:
  "history_week gs gw start i = Some (ps, w, b) \<Longrightarrow> 0 < w
     \<and> (\<exists>from to s. gs from to = Inr s \<and> es_prices s \<noteq> [] \<and> ps = prices_of s)"
  using weather_similarity_bounds
  by (fastforce simp: history_week_def Let_def split: sum.splits if_splits)

lemma weeks_in:
  "x \<in> set (List.map_filter f xs) \<longleftrightarrow> (\<exists>y \<in> set xs. f y = Some x)"
  by (auto simp: List.map_filter_def image_iff)

lemma weight_sum_pos:
  "weeks \<noteq> [] \<Longrightarrow> \<forall>(ps, w, b) \<in> set weeks. 0 < (w :: dbl) \<Longrightarrow>
   0 < sum_list (map (\<lambda>(ps, w, b). w) weeks)"
  by (induction weeks rule: list_nonempty_induct) (auto simp: add_pos_pos)

section \<open>The properties\<close>

text \<open>The price of a quarter. For any number of prices of the day, the quarter \<open>b\<close> of 96 gets the
  price at the index \<open>b * count / 96\<close>, which is inside the array; the special case of 24 prices
  agrees with the general one.\<close>

theorem spot_at_bucket_spec:
  assumes "es_prices S \<noteq> []" "b < 96" "96 * length (es_prices S) < 2 ^ 31"
  shows "b * length (es_prices S) div 96 < length (es_prices S)
    \<and> spot_at_bucket S (int b) = sp_price (es_prices S ! (b * length (es_prices S) div 96))
    \<and> (length (es_prices S) = 24 \<longrightarrow> b * length (es_prices S) div 96 = b div 4)"
  using spot_at_bucket_index [OF assms] bucket_index [OF assms(2)] assms(1) by auto

definition flat_spots :: "dbl list \<Rightarrow> electricity_spots" where
  "flat_spots ps = no_spots\<lparr>es_prices := map (\<lambda>p. \<lparr>sp_time_start = 0, sp_time_end = 0, sp_price = p\<rparr>) ps\<rparr>"

theorem spot_at_bucket_spec_witness:
  "spot_at_bucket (flat_spots [1, 2, 3, 4]) (int 50) = 3"
  using spot_at_bucket_spec [of "flat_spots [1, 2, 3, 4]" 50] by (simp add: flat_spots_def)

text \<open>C39: The recommended window starts so that its six quarters lie inside the day, and no other window
  of six quarters has a smaller sum of prices and weighted consumption.\<close>

theorem best_price_window_optimal:
  "best_price_window S P + 6 \<le> 96
   \<and> (\<forall>start \<in> set [0..<91]. window_score S P (best_price_window S P) \<le> window_score S P start)"
proof -
  obtain m where m: "fold (\<lambda>start (best, score). let s = window_score S P start in
     (case score of None \<Rightarrow> (start, Some s)
      | Some b \<Rightarrow> if s < b then (start, Some s) else (best, Some b))) [0..<Suc 90] (0, None)
       = (m, Some (window_score S P m))" "m \<le> 90" "\<forall>i \<le> 90. window_score S P m \<le> window_score S P i"
    using fold_best [of "window_score S P" 90] by blast
  have "profile_buckets - profile_window_buckets + 1 = Suc 90"
    by (simp add: profile_buckets_def profile_window_buckets_def)
  then have "best_price_window S P = m" by (simp only: best_price_window_def m(1) fst_conv)
  with m(2,3) show ?thesis by (simp add: less_Suc_eq_le [symmetric])
qed

text \<open>A maximal run of prices near that of the index \<open>m\<close>.\<close>

definition price_period :: "spot_price list \<Rightarrow> nat \<Rightarrow> nat \<Rightarrow> nat \<Rightarrow> bool" where
  "price_period ps m a b \<longleftrightarrow> a \<le> m \<and> m < b \<and> b \<le> length ps
     \<and> (\<forall>i. a \<le> i \<and> i < b \<longrightarrow> near_price ps m i)
     \<and> (0 < a \<longrightarrow> \<not> near_price ps m (a - 1)) \<and> (b < length ps \<longrightarrow> \<not> near_price ps m b)"

lemma extended_period:
  assumes "m < length ps"
  shows "price_period ps m (extend_down (near_price ps m) m)
           (extend_up (near_price ps m) (length ps) (m + 1))"
proof -
  have self: "near_price ps m m" by (simp add: near_price_def)
  have "near_price ps m i" if "extend_down (near_price ps m) m \<le> i"
      "i < extend_up (near_price ps m) (length ps) (m + 1)" for i
    using that self extend_down_spec [of "near_price ps m" m]
      extend_up_spec [of "m + 1" "length ps" "near_price ps m"] assms
    by (cases i m rule: linorder_cases) auto
  then show ?thesis
    using extend_down_spec [of "near_price ps m" m] assms
      extend_up_spec [of "m + 1" "length ps" "near_price ps m"]
    by (auto simp: price_period_def)
qed

text \<open>C38: The highest period lies inside the day's prices and holds an index whose price is the largest;
  all its prices are within 0.0001 of it and those next to it are not; likewise for the lowest.\<close>

theorem minmax_windows_spec:
  assumes "es_prices S \<noteq> []"
  shows "case minmax_price_windows S of (a, b, c, d) \<Rightarrow>
     (\<exists>m. price_period (es_prices S) m a b
        \<and> (\<forall>i < length (es_prices S). sp_price (es_prices S ! i) \<le> sp_price (es_prices S ! m)))
   \<and> (\<exists>m. price_period (es_prices S) m c d
        \<and> (\<forall>i < length (es_prices S). sp_price (es_prices S ! m) \<le> sp_price (es_prices S ! i)))"
  using extended_period [of "max_price_index (es_prices S)" "es_prices S"]
    extended_period [of "min_price_index (es_prices S)" "es_prices S"] assms
    max_price_index_spec [OF assms] min_price_index_spec [OF assms]
  by (auto simp: minmax_price_windows_def Let_def)

theorem minmax_windows_spec_witness:
  "\<exists>m. (case minmax_price_windows (flat_spots [1, 3, 3, 2]) of (a, b, c, d) \<Rightarrow> a \<le> m \<and> m < b)
     \<and> sp_price (es_prices (flat_spots [1, 3, 3, 2]) ! m) = 3"
proof -
  have w: "minmax_price_windows (flat_spots [1, 3, 3, 2]) = (1, 3, 0, 1)" by code_simp
  have "es_prices (flat_spots [1, 3, 3, 2]) \<noteq> []" by (simp add: flat_spots_def)
  from minmax_windows_spec [OF this] obtain m where "1 \<le> m" "m < (3 :: nat)"
    unfolding w
    by (auto simp: price_period_def)
  then have "m = 1 \<or> m = 2" by auto
  then show ?thesis unfolding w by (intro exI [of _ m]) (auto simp: flat_spots_def)
qed

text \<open>With 96 quarter prices the report is wrong: a single dear quarter, the 40th, is reported as the
  hours from 40 to 41, at the price of the last quarter of the day.\<close>

theorem report_quarter_as_hour:
  "let S = flat_spots (replicate 40 1 @ [5] @ replicate 55 2)
   in minmax_price_windows S = (40, 41, 0, 40)
      \<and> spot_at_bucket S (int 40 * 4) = 2 \<and> spot_at_bucket S (int 40) = 5"
  by code_simp

text \<open>C40: The estimate keeps the price level. When the weeks used have as many prices as today and a
  positive average, the estimated day has the same average price as today.\<close>

theorem estimate_keeps_average:
  assumes est: "estimate_tomorrow_spots mem gs gw today F start = Inr (E, src)"
    and counts: "\<And>from to s. gs from to = Inr s \<Longrightarrow>
        es_prices s = [] \<or> length (es_prices s) = length (es_prices today)"
    and positive: "0 < history_average (average (prices_of today)) (history_weeks gs gw start)"
  shows "average (prices_of E) = average (prices_of today)"
proof -
  let ?weeks = "history_weeks gs gw start"
  let ?t = "prices_of today" and ?n = "length (es_prices today)"
  let ?W = "sum_list (map (\<lambda>(ps, w, b). w) ?weeks)" and ?A = "average (prices_of today)"
  let ?sum = "sum_list (map (\<lambda>(ps, w, b). average ps * w) ?weeks)"
  let ?same = "\<lambda>slot. sum_list (map (\<lambda>(ps, w, b). ps ! week_index slot (length ps) ?n * w) ?weeks)"
  have n: "0 < ?n" and ne: "?weeks \<noteq> []"
    and E: "prices_of E = map (slot_estimate ?t ?A (history_average ?A ?weeks) ?weeks) [0..<?n]"
    using est by (auto simp: estimate_tomorrow_spots_def Let_def prices_of_def comp_def split: if_splits)
  have both: "\<forall>(ps, w, b) \<in> set ?weeks. 0 < w \<and> length ps = ?n"
  proof clarify
    fix ps w b assume "(ps, w, b) \<in> set ?weeks"
    then obtain i where "history_week gs gw start i = Some (ps, w, b)"
      unfolding history_weeks_def weeks_in by blast
    from history_week_weight [OF this] obtain t0 t1 s where
      "0 < w" "gs t0 t1 = Inr s" "es_prices s \<noteq> []" "ps = prices_of s" by blast
    with counts [of t0 t1 s] show "0 < w \<and> length ps = ?n" by (simp add: prices_of_def)
  qed
  have len: "\<forall>(ps, w, b) \<in> set ?weeks. length ps = ?n" using both by auto
  have W: "0 < ?W" by (rule weight_sum_pos [OF ne]) (use both in auto)
  have H: "history_average ?A ?weeks = ?sum / ?W" using W by (simp add: history_average_def Let_def)
  with positive W have S: "0 < ?sum" by (simp add: zero_less_divide_iff)
  have t: "(\<Sum>slot = 0..<?n. ?t ! slot) = of_nat ?n * ?A"
    using n by (simp add: average_def sum_list_sum_nth prices_of_def)
  have "slot_estimate ?t ?A (?sum / ?W) ?weeks slot
      = ?same slot * (?A / ?sum * (65 / 100)) + ?t ! slot * (35 / 100)" for slot
    using W S by (simp add: slot_estimate_def Let_def prices_of_def)
  then have "sum_list (prices_of E)
      = (\<Sum>slot = 0..<?n. ?same slot * (?A / ?sum * (65 / 100)) + ?t ! slot * (35 / 100))"
    unfolding E H by (simp add: interv_sum_list_conv_sum_set_nat)
  also have "\<dots> = (\<Sum>slot = 0..<?n. ?same slot) * (?A / ?sum * (65 / 100))
      + (\<Sum>slot = 0..<?n. ?t ! slot) * (35 / 100)"
    by (simp only: sum.distrib sum_distrib_right)
  also have "\<dots> = of_nat ?n * ?A"
    unfolding sum_slot_weeks [OF len n] t using S by (simp add: field_simps)
  finally show ?thesis using n E by (simp add: average_def)
qed

definition sample_facility :: facility_config where
  "sample_facility = \<lparr>fc_name = ''Home'', fc_panel = None, fc_lat = 0, fc_lon = 0,
                      fc_currency = SPOT_SEK, fc_price_class = SE3\<rparr>"

lemma flat_nonempty: "es_prices (flat_spots ps) = [] \<longleftrightarrow> ps = []"
  by (simp add: flat_spots_def)

theorem estimate_keeps_average_witness:
  "\<exists>E src. estimate_tomorrow_spots mem_unlimited (\<lambda>from to. Inr (flat_spots [1, 3]))
       (\<lambda>t. Inl ERR_NOT_FOUND) (flat_spots [2, 6]) sample_facility 0 = Inr (E, src)
     \<and> average (prices_of E) = 4"
proof -
  let ?gs = "\<lambda>from to :: int. Inr (flat_spots [1, 3]) :: electricity_spots result"
    and ?gw = "\<lambda>t :: int. Inl ERR_NOT_FOUND :: weather_values list result"
  have weeks: "history_weeks ?gs ?gw 0 = [([1, 3], 1, False), ([1, 3], 1, False)]"
    by code_simp
  obtain E src where est: "estimate_tomorrow_spots mem_unlimited ?gs ?gw (flat_spots [2, 6])
      sample_facility 0 = Inr (E, src)"
    by (simp add: estimate_tomorrow_spots_def weeks flat_nonempty mem_unlimited_def Let_def)
  have "average (prices_of E) = average (prices_of (flat_spots [2, 6]))"
  proof (rule estimate_keeps_average [OF est])
    show "0 < history_average (average (prices_of (flat_spots [2, 6]))) (history_weeks ?gs ?gw 0)"
      unfolding weeks by code_simp
    show "es_prices s = [] \<or> length (es_prices s) = length (es_prices (flat_spots [2, 6]))"
      if "?gs t0 t1 = Inr s" for t0 t1 s using that by (auto simp: flat_spots_def)
  qed
  also have "\<dots> = 4" by code_simp
  finally show ?thesis using est by blast
qed

text \<open>The estimated day is as many slots as today's, one after the other from its start, and they
  fill the 24 hours when their number divides 86400.\<close>

theorem estimate_slots_tile:
  assumes est: "estimate_tomorrow_spots mem gs gw today F start = Inr (E, src)"
  shows "length (es_prices E) = length (es_prices today)
    \<and> sp_time_start (es_prices E ! 0) = start
    \<and> (\<forall>k \<in> set [1..<length (es_prices E)].
          sp_time_start (es_prices E ! k) = sp_time_end (es_prices E ! (k - 1)))
    \<and> (length (es_prices E) dvd 86400 \<longrightarrow>
          sp_time_end (es_prices E ! (length (es_prices E) - 1)) = start + 86400)"
proof -
  define n where "n = length (es_prices today)"
  define d where "d = 86400 div int n"
  have n: "0 < n" and len: "length (es_prices E) = n"
    and slot: "\<And>k. k < n \<Longrightarrow> sp_time_start (es_prices E ! k) = start + int k * d
        \<and> sp_time_end (es_prices E ! k) = start + int k * d + d"
    using est by (auto simp: estimate_tomorrow_spots_def Let_def n_def d_def split: if_splits)
  have "sp_time_start (es_prices E ! k) = sp_time_end (es_prices E ! (k - 1))" if "0 < k" "k < n" for k
    using that slot [of k] slot [of "k - 1"] by (cases k) (simp_all add: algebra_simps)
  then have "\<forall>k \<in> set [1..<n]. sp_time_start (es_prices E ! k) = sp_time_end (es_prices E ! (k - 1))"
    by simp
  moreover have "sp_time_end (es_prices E ! (n - 1)) = start + 86400" if "n dvd 86400"
  proof -
    have "int n dvd 86400" using that by (metis of_nat_numeral of_nat_dvd_iff)
    then have "int n * d = 86400" by (simp add: d_def)
    moreover have "int (n - 1) * d + d = int n * d" using n by (cases n) (simp_all add: algebra_simps)
    ultimately show ?thesis using slot [of "n - 1"] n by simp
  qed
  ultimately show ?thesis using n slot [of 0] len by (simp add: n_def)
qed

theorem estimate_slots_tile_witness:
  "\<exists>E src. estimate_tomorrow_spots mem_unlimited (\<lambda>from to. Inr (flat_spots [1, 3]))
       (\<lambda>t. Inl ERR_NOT_FOUND) (flat_spots [2, 6]) sample_facility 0 = Inr (E, src)
     \<and> length (es_prices E) = 2 \<and> sp_time_start (es_prices E ! 0) = 0"
proof -
  have weeks: "history_weeks (\<lambda>from to. Inr (flat_spots [1, 3]))
      (\<lambda>t. Inl ERR_NOT_FOUND) 0 = [([1, 3], 1, False), ([1, 3], 1, False)]"
    by code_simp
  obtain E src where est: "estimate_tomorrow_spots mem_unlimited (\<lambda>from to. Inr (flat_spots [1, 3]))
       (\<lambda>t. Inl ERR_NOT_FOUND) (flat_spots [2, 6]) sample_facility 0 = Inr (E, src)"
    by (simp add: estimate_tomorrow_spots_def weeks flat_nonempty mem_unlimited_def Let_def)
  from estimate_slots_tile [OF est] est show ?thesis by (auto simp: flat_spots_def)
qed

theorem best_price_window_optimal_witness:
  "best_price_window no_spots zero_profile + 6 \<le> 96"
  using best_price_window_optimal [of no_spots zero_profile] by simp

end
