(* ===== verification/Http_Connection.thy ===== *)
theory Http_Connection
  imports Task_Machine
begin

text \<open>
  The connection task of the HTTP server, \<open>server/src/http/http_connection.c\<close>: one instance per
  accepted client. Each scheduler round runs one state of the machine: read the first line, the
  headers and the body, each call reading at most one buffer from the socket, validate, hand the
  request over to the API, send the response, dispose.

  The socket and the HTTP parser are libraries that are not in the repository. What a round's
  read delivers and which allocations succeed is the input of the round; the parser is a record
  of functions.
\<close>

section \<open>Data\<close>

text \<open>\<open>HTTP_OTHER\<close> stands for the methods of the parser that the server never names.\<close>

datatype http_method = HTTP_INVALID | HTTP_GET | HTTP_POST | HTTP_OTHER nat

type_synonym key_values = "(string \<times> string) list"

record http_request =
  req_method_str :: "string option"
  req_path :: "string option"
  req_version :: "string option"
  req_method :: http_method
  req_params :: "key_values option"
  req_headers :: "key_values option"

record http_response =
  resp_status :: int
  full_response :: "string option"

datatype conn_state =
    INITIALIZING
  | READING_FIRSTLINE
  | READING_HEADERS
  | READING_BODY
  | VALIDATING
  | WEATHER_HANDOVER
  | RESPONDING
  | DISPOSING
  | ERROR

text \<open>What the connection does to the outside: callbacks and socket operations, oldest first.\<close>

datatype conn_event = OnRequest | OnDispose | Disconnect | Write string

record http_conn =
  state :: conn_state
  retries :: int
  conn_data :: string
  request :: http_request
  response :: http_response
  content_length :: int
  weather_done :: bool
  events :: "conn_event list"

definition HTTP_SERVER_CONNECTION_FIRSTLINE_MAXLEN :: nat where
  "HTTP_SERVER_CONNECTION_FIRSTLINE_MAXLEN = 1024"

definition HTTP_SERVER_CONNECTION_MAX_RETRIES :: int where
  "HTTP_SERVER_CONNECTION_MAX_RETRIES = 20"

text \<open>The libraries: \<open>tcp_client_realloc_data\<close>, the parser functions, the reason phrases.\<close>

record http_lib =
  realloc_data :: "allocator \<Rightarrow> string \<Rightarrow> string \<Rightarrow> string option"
  find_line_end :: "string \<Rightarrow> nat option"
  first_line :: "string \<Rightarrow> http_request \<Rightarrow> status \<times> http_request"
  find_headers_end :: "string \<Rightarrow> nat option"
  parse_headers :: "string \<Rightarrow> key_values option \<Rightarrow> status \<times> key_values option"
  header_value :: "key_values option \<Rightarrow> string \<Rightarrow> string option"
  reason_phrase :: "int \<Rightarrow> string"

text \<open>A round: the bytes a read returns (none when it returns 0 or fails), allocation, and
  whether \<open>linked_list_create\<close> succeeds.\<close>

record conn_input =
  rx :: "string option"
  mem :: allocator
  list_ok :: bool

definition empty_request :: http_request where
  "empty_request = \<lparr> req_method_str = None, req_path = None, req_version = None,
     req_method = HTTP_INVALID, req_params = None, req_headers = None \<rparr>"

definition http_server_connection_init :: http_conn where
  "http_server_connection_init = \<lparr> state = INITIALIZING, retries = 0, conn_data = [],
     request = empty_request, response = \<lparr> resp_status = 0, full_response = None \<rparr>,
     content_length = 0, weather_done = False, events = [] \<rparr>"

text \<open>\<open>memmove(addr, addr + k, size - k)\<close>: the bytes move down, the last \<open>k\<close> stay as they were.\<close>

definition move_down :: "nat \<Rightarrow> string \<Rightarrow> string" where
  "move_down k d = (if k < length d then drop k d @ drop (length d - k) d else d)"

text \<open>Then \<open>size -= k\<close>. The parser's contract is that \<open>k\<close> is at most the size.\<close>

definition consume :: "nat \<Rightarrow> string \<Rightarrow> string" where
  "consume k d = take (length d - k) (move_down k d)"

lemma consume_drop: "consume k d = drop k d"
  by (auto simp: consume_def move_down_def)

section \<open>Reading\<close>

definition set_status :: "int \<Rightarrow> http_conn \<Rightarrow> http_conn" where
  "set_status n c = c\<lparr> response := (response c)\<lparr> resp_status := n \<rparr> \<rparr>"

text \<open>The start of the three reading states: count the call, read the socket once, store what
  it delivered. \<open>Inl\<close> when the call budget is spent or the bytes cannot be stored.\<close>

definition read_socket :: "http_lib \<Rightarrow> conn_input \<Rightarrow> http_conn \<Rightarrow> http_conn + http_conn" where
  "read_socket lib i c =
     (let c1 = c\<lparr> retries := retries c + 1 \<rparr>
      in if HTTP_SERVER_CONNECTION_MAX_RETRIES < retries c then Inl c1
         else case rx i of
             None \<Rightarrow> Inr c1
           | Some bytes \<Rightarrow>
               (case realloc_data lib (mem i) (conn_data c1) bytes of
                  None \<Rightarrow> Inl c1
                | Some d \<Rightarrow> Inr (c1\<lparr> conn_data := d \<rparr>)))"

definition worktask_init :: "http_conn \<Rightarrow> http_conn" where
  "worktask_init c = c\<lparr> state := READING_FIRSTLINE \<rparr>"

definition worktask_request_read_firstline ::
    "http_lib \<Rightarrow> conn_input \<Rightarrow> http_conn \<Rightarrow> http_conn" where
  "worktask_request_read_firstline lib i c0 =
     (case read_socket lib i c0 of
        Inl c \<Rightarrow> c\<lparr> state := ERROR \<rparr>
      | Inr c \<Rightarrow>
          if conn_data c = [] then c\<lparr> state := READING_FIRSTLINE \<rparr>
          else case find_line_end lib (conn_data c) of
              None \<Rightarrow>
                if HTTP_SERVER_CONNECTION_FIRSTLINE_MAXLEN \<le> length (conn_data c)
                then (set_status 400 c)\<lparr> state := RESPONDING \<rparr>
                else c\<lparr> state := READING_FIRSTLINE \<rparr>
            | Some line_len \<Rightarrow>
                if line_len = 0 \<or> HTTP_SERVER_CONNECTION_FIRSTLINE_MAXLEN \<le> line_len
                then (set_status 400 c)\<lparr> state := RESPONDING \<rparr>
                else (let (res, req) = first_line lib (conn_data c) (request c);
                          c1 = c\<lparr> request := req \<rparr>
                      in if res \<noteq> SUCCESS then c1\<lparr> state := ERROR \<rparr>
                         else c1\<lparr> conn_data := consume (line_len + 2) (conn_data c1),
                                  state := READING_HEADERS \<rparr>))"

text \<open>The path without headers moves the bytes down but keeps the size.\<close>

definition worktask_request_read_headers ::
    "http_lib \<Rightarrow> conn_input \<Rightarrow> http_conn \<Rightarrow> http_conn" where
  "worktask_request_read_headers lib i c0 =
     (case read_socket lib i c0 of
        Inl c \<Rightarrow> c\<lparr> state := ERROR \<rparr>
      | Inr c \<Rightarrow>
          if conn_data c = [] then c\<lparr> state := READING_HEADERS \<rparr>
          else if take 2 (conn_data c) = [CR, NL]
          then (let c1 = c\<lparr> conn_data := move_down 2 (conn_data c) \<rparr>
                in if \<not> list_ok i
                   then c1\<lparr> request := (request c1)\<lparr> req_headers := None \<rparr>, state := ERROR \<rparr>
                   else c1\<lparr> request := (request c1)\<lparr> req_headers := Some [] \<rparr>,
                            retries := 0, state := VALIDATING \<rparr>)
          else case find_headers_end lib (conn_data c) of
              None \<Rightarrow> c\<lparr> state := READING_HEADERS \<rparr>
            | Some headers_end \<Rightarrow>
                (let parsed = headers_end + 4;
                     (res, hs) = parse_headers lib (take parsed (conn_data c))
                                   (req_headers (request c));
                     c1 = c\<lparr> request := (request c)\<lparr> req_headers := hs \<rparr> \<rparr>
                 in if res \<noteq> SUCCESS then (set_status 400 c1)\<lparr> state := RESPONDING \<rparr>
                    else (let c2 = c1\<lparr> conn_data := consume parsed (conn_data c1),
                                       retries := 0 \<rparr>
                          in case header_value lib hs ''Content-Length'' of
                              None \<Rightarrow> c2\<lparr> state := VALIDATING \<rparr>
                            | Some v \<Rightarrow>
                                (let c3 = c2\<lparr> content_length := c_atoi v \<rparr>
                                 in if 0 < content_length c3
                                    then c3\<lparr> state := READING_BODY \<rparr>
                                    else c3\<lparr> state := VALIDATING \<rparr>))))"

definition worktask_request_read_body ::
    "http_lib \<Rightarrow> conn_input \<Rightarrow> http_conn \<Rightarrow> http_conn" where
  "worktask_request_read_body lib i c0 =
     (case read_socket lib i c0 of
        Inl c \<Rightarrow> c\<lparr> state := ERROR \<rparr>
      | Inr c \<Rightarrow>
          if int (length (conn_data c)) < content_length c then c\<lparr> state := READING_BODY \<rparr>
          else c\<lparr> retries := 0, state := VALIDATING \<rparr>)"

definition worktask_request_validate :: "http_conn \<Rightarrow> http_conn" where
  "worktask_request_validate c =
     (let req = request c
      in if req_method_str req = None \<or> req_path req = None \<or> req_version req = None
         then (set_status 400 c)\<lparr> state := RESPONDING \<rparr>
         else if req_method req = HTTP_INVALID
         then (set_status 400 c)\<lparr> state := RESPONDING \<rparr>
         else if req_path req = Some ''/echo'' \<or> req_path req = Some ''api/v1/echo''
         then (set_status 200 c)\<lparr> weather_done := True, state := RESPONDING \<rparr>
         else (set_status 200 c)\<lparr> events := events c @ [OnRequest],
                                    state := WEATHER_HANDOVER \<rparr>)"

section \<open>Responding\<close>

abbreviation CRLF :: string where "CRLF \<equiv> [CR, NL]"

definition http_message :: "int \<Rightarrow> string \<Rightarrow> string \<Rightarrow> string \<Rightarrow> string" where
  "http_message status reason ctype body =
     ''HTTP/1.1 '' @ dec_int status @ '' '' @ reason @ CRLF @
     ''Content-Type: '' @ ctype @ CRLF @
     ''Content-Length: '' @ dec_nat (length body) @ CRLF @
     ''Connection: close'' @ CRLF @ CRLF @ body"

text \<open>One key and value of the echo through the 128-byte \<open>temp\<close>, then \<open>strncat\<close> into the
  1024-byte list.\<close>

fun echo_pairs :: "string \<Rightarrow> string \<Rightarrow> key_values \<Rightarrow> string" where
  \<open>echo_pairs indent acc [] = acc\<close>
| \<open>echo_pairs indent acc ((k, v) # kvs) =
     (let temp = snprintf_trunc 128
            (indent @ ''{ "key": "'' @ k @ ''", "value": "'' @ v @
             (if kvs \<noteq> [] then ''" }, '' else ''" } '') @ [NL])
      in echo_pairs indent (acc @ take (1024 - length acc - 1) temp) kvs)\<close>

definition echo_list :: "string \<Rightarrow> key_values option \<Rightarrow> string" where
  "echo_list indent kvs = (case kvs of None \<Rightarrow> [] | Some l \<Rightarrow> echo_pairs indent [] l)"

definition drop_trailing_comma :: "string \<Rightarrow> string" where
  "drop_trailing_comma s =
     (if 2 < length s \<and> s ! (length s - 2) = CHR '',''
      then take (length s - 2) s @ [NL] else s)"

text \<open>\<open>%s\<close> of a NULL pointer prints as the C library of the target does.\<close>

definition c_opt_str :: "string option \<Rightarrow> string" where
  "c_opt_str s = (case s of None \<Rightarrow> ''(null)'' | Some t \<Rightarrow> t)"

definition echo_body :: "http_conn \<Rightarrow> string" where
  \<open>echo_body c =
     (let req = request c;
          body = (if 0 < content_length c \<and> content_length c \<le> int (length (conn_data c))
                  then take (nat (content_length c)) (cstr (conn_data c)) else []);
          queries_json = echo_list [] (req_params req);
          headers_json = drop_trailing_comma (echo_list ''    '' (req_headers req))
      in snprintf_trunc 4096
           (''{'' @ [NL] @
            ''  "method": "'' @ c_opt_str (req_method_str req) @ ''",'' @ [NL] @
            ''  "path": "'' @ c_opt_str (req_path req) @ ''",'' @ [NL] @
            ''  "query": "'' @ queries_json @ ''",'' @ [NL] @
            ''  "headers": ['' @ [NL] @ headers_json @ ''  ],'' @ [NL] @
            ''  "body": "'' @ body @ ''"'' @ [NL] @ ''}'' @ [NL]))\<close>

definition send :: "conn_input \<Rightarrow> string \<Rightarrow> http_conn \<Rightarrow> http_conn" where
  "send i msg c =
     (if \<not> mem i (length msg + 1) then c\<lparr> state := ERROR \<rparr>
      else c\<lparr> events := events c @ [Write msg], state := DISPOSING \<rparr>)"

text \<open>The generic message goes through a buffer of 512 bytes and the echo through one of 8192;
  both are longer than any message that is written through them.\<close>

definition worktask_respond :: "http_lib \<Rightarrow> conn_input \<Rightarrow> http_conn \<Rightarrow> http_conn" where
  "worktask_respond lib i c =
     (if full_response (response c) \<noteq> None \<and> resp_status (response c) \<noteq> 500 \<and>
         resp_status (response c) \<noteq> 400
      then send i (cstr (the (full_response (response c)))) c
      else if req_path (request c) = Some ''/echo''
      then send i (snprintf_trunc 8192
                     (http_message 200 ''OK'' ''application/json'' (echo_body c))) c
      else (let n = resp_status (response c); reason = reason_phrase lib n
            in send i (snprintf_trunc 512 (http_message n reason ''application/text'' reason)) c))"

section \<open>The task\<close>

definition http_server_connection_taskwork ::
    "http_lib \<Rightarrow> conn_input \<Rightarrow> http_conn \<Rightarrow> http_conn" where
  "http_server_connection_taskwork lib i c =
     (case state c of
        INITIALIZING \<Rightarrow> worktask_init c
      | READING_FIRSTLINE \<Rightarrow> worktask_request_read_firstline lib i c
      | READING_HEADERS \<Rightarrow> worktask_request_read_headers lib i c
      | READING_BODY \<Rightarrow> worktask_request_read_body lib i c
      | VALIDATING \<Rightarrow> worktask_request_validate c
      | WEATHER_HANDOVER \<Rightarrow> if weather_done c then c\<lparr> state := RESPONDING \<rparr> else c
      | RESPONDING \<Rightarrow> worktask_respond lib i c
      | DISPOSING \<Rightarrow> c\<lparr> events := events c @ [Disconnect, OnDispose] \<rparr>
      | ERROR \<Rightarrow> (set_status 500 c)\<lparr> state := RESPONDING \<rparr>)"

section \<open>Every connection settles\<close>

text \<open>A connection rests when the API owns it or when it is being disposed. The rank counts the
  calls that are left: the three reading states share the call budget of \<open>retries\<close>, which is
  reset once between the headers and the body.\<close>

definition conn_settled :: "http_conn \<Rightarrow> bool" where
  "conn_settled c \<longleftrightarrow> state c = WEATHER_HANDOVER \<or> state c = DISPOSING"

definition budget_left :: "http_conn \<Rightarrow> nat" where
  "budget_left c = nat (22 - retries c)"

definition conn_rank :: "http_conn \<Rightarrow> nat" where
  "conn_rank c = (case state c of
       INITIALIZING \<Rightarrow> 49
     | READING_FIRSTLINE \<Rightarrow> 26 + budget_left c
     | READING_HEADERS \<Rightarrow> 26 + budget_left c
     | READING_BODY \<Rightarrow> 3 + budget_left c
     | VALIDATING \<Rightarrow> 2
     | ERROR \<Rightarrow> 2
     | RESPONDING \<Rightarrow> 1
     | _ \<Rightarrow> 0)"

definition retries_ok :: "http_conn \<Rightarrow> bool" where
  "retries_ok c \<longleftrightarrow>
     (state c = INITIALIZING \<longrightarrow> retries c = 0) \<and>
     (state c \<in> {READING_FIRSTLINE, READING_HEADERS, READING_BODY} \<longrightarrow>
        0 \<le> retries c \<and> retries c \<le> 21)"

definition memory_ok :: "conn_input \<Rightarrow> bool" where
  "memory_ok i \<longleftrightarrow> mem i = mem_unlimited"

named_theorems conn_steps \<comment> \<open>the state functions of the connection\<close>

lemmas conn_step_defs =
  http_server_connection_taskwork_def worktask_init_def worktask_request_read_firstline_def
  worktask_request_read_headers_def worktask_request_read_body_def
  worktask_request_validate_def worktask_respond_def send_def set_status_def

lemma read_socket_frame:
  "read_socket lib i c = Inl c' \<Longrightarrow>
     retries c' = retries c + 1 \<and> content_length c' = content_length c \<and>
     events c' = events c \<and> request c' = request c \<and> response c' = response c"
  "read_socket lib i c = Inr c' \<Longrightarrow>
     retries c \<le> 20 \<and>
     retries c' = retries c + 1 \<and> content_length c' = content_length c \<and>
     events c' = events c \<and> request c' = request c \<and> response c' = response c"
  by (auto simp: read_socket_def Let_def HTTP_SERVER_CONNECTION_MAX_RETRIES_def
      split: if_splits option.splits)

lemma firstline_next:
  assumes "c' = worktask_request_read_firstline lib i c"
  shows "state c' \<in> {ERROR, RESPONDING} \<or>
         state c' \<in> {READING_FIRSTLINE, READING_HEADERS} \<and> retries c \<le> 20 \<and>
         retries c' = retries c + 1"
  using assms read_socket_frame [of lib i c]
  by (auto simp: worktask_request_read_firstline_def set_status_def Let_def
      split: sum.splits option.splits prod.splits if_splits)

lemma headers_next:
  assumes "c' = worktask_request_read_headers lib i c"
  shows "state c' \<in> {ERROR, RESPONDING, VALIDATING} \<or>
         state c' = READING_HEADERS \<and> retries c \<le> 20 \<and> retries c' = retries c + 1 \<or>
         state c' = READING_BODY \<and> retries c' = 0 \<and> retries c \<le> 20"
proof (cases "read_socket lib i c")
  case (Inl d)
  then show ?thesis by (simp add: assms worktask_request_read_headers_def)
next
  case (Inr d)
  note d = read_socket_frame(2) [OF Inr]
  show ?thesis
  proof (cases "conn_data d = [] \<or> take 2 (conn_data d) = [CR, NL]")
    case True
    then show ?thesis
      using d by (auto simp: assms worktask_request_read_headers_def Inr Let_def)
  next
    case False
    show ?thesis
    proof (cases "find_headers_end lib (conn_data d)")
      case None
      with False d show ?thesis by (simp add: assms worktask_request_read_headers_def Inr)
    next
      case (Some n)
      obtain res hs where "parse_headers lib (take (n + 4) (conn_data d)) (req_headers (request d)) =
        (res, hs)" by force
      with False Some d show ?thesis
        by (simp add: assms worktask_request_read_headers_def Inr set_status_def Let_def
            split: option.split)
    qed
  qed
qed

lemma body_next:
  assumes "c' = worktask_request_read_body lib i c"
  shows "state c' \<in> {ERROR, VALIDATING} \<or>
         state c' = READING_BODY \<and> retries c \<le> 20 \<and> retries c' = retries c + 1"
  using assms read_socket_frame [of lib i c]
  by (auto simp: worktask_request_read_body_def split: sum.splits if_splits)

lemma validate_next:
  "state (worktask_request_validate c) \<in> {RESPONDING, WEATHER_HANDOVER}"
  by (auto simp: worktask_request_validate_def set_status_def Let_def)

lemma respond_next:
  "state (worktask_respond lib i c) \<in> {ERROR, DISPOSING}"
  "memory_ok i \<Longrightarrow> state (worktask_respond lib i c) = DISPOSING"
  by (auto simp: worktask_respond_def send_def Let_def memory_ok_def mem_unlimited_def)

text \<open>One step, state by state: the next state, and what the step does to the call budget.\<close>

lemma taskwork_next:
  assumes "c' = http_server_connection_taskwork lib i c"
  shows "state c = INITIALIZING \<Longrightarrow> state c' = READING_FIRSTLINE \<and> retries c' = retries c"
    and "state c = READING_FIRSTLINE \<Longrightarrow> state c' \<in> {ERROR, RESPONDING} \<or>
           state c' \<in> {READING_FIRSTLINE, READING_HEADERS} \<and> retries c \<le> 20 \<and>
           retries c' = retries c + 1"
    and "state c = READING_HEADERS \<Longrightarrow> state c' \<in> {ERROR, RESPONDING, VALIDATING} \<or>
           state c' = READING_HEADERS \<and> retries c \<le> 20 \<and> retries c' = retries c + 1 \<or>
           state c' = READING_BODY \<and> retries c' = 0 \<and> retries c \<le> 20"
    and "state c = READING_BODY \<Longrightarrow> state c' \<in> {ERROR, VALIDATING} \<or>
           state c' = READING_BODY \<and> retries c \<le> 20 \<and> retries c' = retries c + 1"
    and "state c = VALIDATING \<Longrightarrow> state c' \<in> {RESPONDING, WEATHER_HANDOVER}"
    and "state c = WEATHER_HANDOVER \<Longrightarrow> state c' \<in> {RESPONDING, WEATHER_HANDOVER}"
    and "state c = RESPONDING \<Longrightarrow> state c' \<in> {ERROR, DISPOSING}"
    and "state c = RESPONDING \<Longrightarrow> memory_ok i \<Longrightarrow> state c' = DISPOSING"
    and "state c = DISPOSING \<Longrightarrow> state c' = DISPOSING"
    and "state c = ERROR \<Longrightarrow> state c' = RESPONDING"
proof -
  assume "state c = READING_FIRSTLINE"
  then have "c' = worktask_request_read_firstline lib i c"
    by (simp add: assms http_server_connection_taskwork_def)
  then show "state c' \<in> {ERROR, RESPONDING} \<or>
      state c' \<in> {READING_FIRSTLINE, READING_HEADERS} \<and> retries c \<le> 20 \<and>
      retries c' = retries c + 1" by (rule firstline_next)
next
  assume "state c = READING_HEADERS"
  then have "c' = worktask_request_read_headers lib i c"
    by (simp add: assms http_server_connection_taskwork_def)
  then show "state c' \<in> {ERROR, RESPONDING, VALIDATING} \<or>
      state c' = READING_HEADERS \<and> retries c \<le> 20 \<and> retries c' = retries c + 1 \<or>
      state c' = READING_BODY \<and> retries c' = 0 \<and> retries c \<le> 20" by (rule headers_next)
next
  assume "state c = READING_BODY"
  then have "c' = worktask_request_read_body lib i c"
    by (simp add: assms http_server_connection_taskwork_def)
  then show "state c' \<in> {ERROR, VALIDATING} \<or>
      state c' = READING_BODY \<and> retries c \<le> 20 \<and> retries c' = retries c + 1"
    by (rule body_next)
qed (use validate_next [of c] respond_next(1) [of lib i c] respond_next(2) [of i lib c] in
  \<open>simp_all add: assms http_server_connection_taskwork_def worktask_init_def set_status_def\<close>)

lemma retries_ok_step: "retries_ok c \<Longrightarrow> retries_ok (http_server_connection_taskwork lib i c)"
  using taskwork_next [OF refl, where lib = lib and i = i and c = c] unfolding retries_ok_def
  by (cases "state c") auto

lemma conn_rank_step:
  assumes "retries_ok c" and "memory_ok i" and "\<not> conn_settled c"
  shows "conn_rank (http_server_connection_taskwork lib i c) < conn_rank c"
  using assms taskwork_next [OF refl, where lib = lib and i = i and c = c]
  unfolding retries_ok_def conn_settled_def conn_rank_def budget_left_def
  by (cases "state c") auto

interpretation http_connection_task:
  settling_task "http_server_connection_taskwork lib" memory_ok retries_ok conn_settled conn_rank
  for lib
  by unfold_locales (auto intro: retries_ok_step conn_rank_step)

text \<open>C12: Every connection settles, whatever the client sends or does not send: from a fresh
  connection, any 50 scheduler rounds in which memory is available contain one after which the
  request has been handed over to the API or the connection has been answered and is being
  disposed. The retry budget is what bounds the wait for a silent or slow client.\<close>

theorem connection_settles:
  assumes "length inputs = 50" and "\<forall>i \<in> set inputs. memory_ok i"
  shows "\<exists>n \<le> 49. conn_settled (run_task (http_server_connection_taskwork lib) (take n inputs)
           http_server_connection_init)"
proof -
  have "retries_ok http_server_connection_init" and "conn_rank http_server_connection_init = 49"
    by (simp_all add: retries_ok_def conn_rank_def http_server_connection_init_def)
  with http_connection_task.settles [of http_server_connection_init inputs lib] assms
  show ?thesis by simp
qed

section \<open>What a connection does\<close>

text \<open>Any interleaving of scheduler rounds with the API, which may set the response and the done
  flag of a connection that was handed over to it.\<close>

inductive conn_reach :: "http_lib \<Rightarrow> http_conn \<Rightarrow> bool" for lib where
  start: "conn_reach lib http_server_connection_init"
| work: "conn_reach lib c \<Longrightarrow> conn_reach lib (http_server_connection_taskwork lib i c)"
| answer: "conn_reach lib c \<Longrightarrow> state c = WEATHER_HANDOVER \<Longrightarrow>
    conn_reach lib (c\<lparr> response := r, weather_done := w \<rparr>)"

definition request_valid :: "http_request \<Rightarrow> bool" where
  "request_valid r \<longleftrightarrow> req_method_str r \<noteq> None \<and> req_path r \<noteq> None \<and> req_version r \<noteq> None \<and>
     req_method r \<noteq> HTTP_INVALID"

definition body_complete :: "http_conn \<Rightarrow> bool" where
  "body_complete c \<longleftrightarrow> content_length c \<le> int (length (conn_data c))"

definition disposals :: "nat \<Rightarrow> conn_event list" where
  "disposals k = concat (replicate k [Disconnect, OnDispose])"

text \<open>At most one handover, then exactly one response, then disposal.\<close>

definition answered_once :: "conn_event list \<Rightarrow> bool" where
  "answered_once e \<longleftrightarrow> (\<exists>pre msg k. (pre = [] \<or> pre = [OnRequest]) \<and>
     e = pre @ [Write msg] @ disposals k)"

definition conn_inv :: "http_conn \<Rightarrow> bool" where
  "conn_inv c = (case state c of
       INITIALIZING \<Rightarrow> content_length c = 0 \<and> events c = []
     | READING_FIRSTLINE \<Rightarrow> content_length c = 0 \<and> events c = []
     | READING_HEADERS \<Rightarrow> content_length c = 0 \<and> events c = []
     | READING_BODY \<Rightarrow> events c = []
     | VALIDATING \<Rightarrow> body_complete c \<and> events c = []
     | WEATHER_HANDOVER \<Rightarrow> body_complete c \<and> request_valid (request c) \<and> events c = [OnRequest]
     | RESPONDING \<Rightarrow> events c = [] \<or> events c = [OnRequest]
     | ERROR \<Rightarrow> events c = [] \<or> events c = [OnRequest]
     | DISPOSING \<Rightarrow> answered_once (events c))"

lemma disposals_simps [simp]: "disposals 0 = []" "disposals k @ [Disconnect, OnDispose] = disposals (Suc k)"
proof -
  show "disposals 0 = []" by (simp add: disposals_def)
  have "disposals (Suc k) = concat (replicate k [Disconnect, OnDispose] @ [[Disconnect, OnDispose]])"
    by (simp add: disposals_def replicate_append_same)
  then show "disposals k @ [Disconnect, OnDispose] = disposals (Suc k)"
    by (simp add: disposals_def)
qed

lemma answered_once_write: "e = [] \<or> e = [OnRequest] \<Longrightarrow> answered_once (e @ [Write msg])"
  unfolding answered_once_def by (metis append_Nil2 disposals_simps(1))

lemma answered_once_dispose: "answered_once e \<Longrightarrow> answered_once (e @ [Disconnect, OnDispose])"
  unfolding answered_once_def by (metis append.assoc disposals_simps(2))

lemma firstline_inv:
  assumes "conn_inv c" and "state c = READING_FIRSTLINE"
  shows "conn_inv (worktask_request_read_firstline lib i c)"
proof (cases "read_socket lib i c")
  case (Inl d)
  with read_socket_frame(1) [OF Inl] assms show ?thesis
    by (simp add: worktask_request_read_firstline_def conn_inv_def)
next
  case (Inr d)
  have d: "content_length d = 0" "events d = []"
    using read_socket_frame(2) [OF Inr] assms by (simp_all add: conn_inv_def)
  obtain res req where "first_line lib (conn_data d) (request d) = (res, req)" by force
  with d show ?thesis
    by (simp add: worktask_request_read_firstline_def Inr Let_def conn_inv_def set_status_def
        split: option.split)
qed

lemma headers_inv:
  assumes "conn_inv c" and "state c = READING_HEADERS"
  shows "conn_inv (worktask_request_read_headers lib i c)"
proof (cases "read_socket lib i c")
  case (Inl d)
  with read_socket_frame(1) [OF Inl] assms show ?thesis
    by (simp add: worktask_request_read_headers_def conn_inv_def)
next
  case (Inr d)
  have d: "content_length d = 0" "events d = []"
    using read_socket_frame(2) [OF Inr] assms by (simp_all add: conn_inv_def)
  show ?thesis
  proof (cases "conn_data d = [] \<or> take 2 (conn_data d) = [CR, NL]")
    case True
    with d show ?thesis
      by (auto simp: worktask_request_read_headers_def Inr Let_def conn_inv_def body_complete_def)
  next
    case False
    show ?thesis
    proof (cases "find_headers_end lib (conn_data d)")
      case None
      with False d show ?thesis by (simp add: worktask_request_read_headers_def Inr conn_inv_def)
    next
      case (Some n)
      obtain res hs where "parse_headers lib (take (n + 4) (conn_data d)) (req_headers (request d)) =
        (res, hs)" by force
      with False Some d show ?thesis
        by (simp add: worktask_request_read_headers_def Inr set_status_def Let_def conn_inv_def
            body_complete_def split: option.split)
    qed
  qed
qed

lemma body_inv:
  assumes "conn_inv c" and "state c = READING_BODY"
  shows "conn_inv (worktask_request_read_body lib i c)"
  using assms read_socket_frame [of lib i c]
  by (auto simp: worktask_request_read_body_def conn_inv_def body_complete_def
      split: sum.splits if_splits)

lemma validate_inv:
  assumes "conn_inv c" and "state c = VALIDATING"
  shows "conn_inv (worktask_request_validate c)"
  using assms
  by (auto simp: worktask_request_validate_def set_status_def Let_def conn_inv_def
      body_complete_def request_valid_def)

lemma send_inv:
  "conn_inv c \<Longrightarrow> state c = RESPONDING \<Longrightarrow> conn_inv (send i msg c)"
  by (auto simp: send_def conn_inv_def intro: answered_once_write [of "[]", simplified]
      answered_once_write [of "[OnRequest]", simplified])

lemma dispose_inv:
  "conn_inv c \<Longrightarrow> state c = DISPOSING \<Longrightarrow>
     conn_inv (c\<lparr> events := events c @ [Disconnect, OnDispose] \<rparr>)"
  by (simp add: conn_inv_def answered_once_dispose)

lemma taskwork_inv: "conn_inv c \<Longrightarrow> conn_inv (http_server_connection_taskwork lib i c)"
  using firstline_inv [of c lib i] headers_inv [of c lib i] body_inv [of c lib i]
    validate_inv [of c] send_inv [of c i] dispose_inv [of c]
  by (cases "state c")
    (simp_all add: http_server_connection_taskwork_def worktask_init_def worktask_respond_def
      set_status_def Let_def, simp_all add: conn_inv_def)

lemma conn_reach_inv: "conn_reach lib c \<Longrightarrow> conn_inv c"
proof (induction rule: conn_reach.induct)
  case start
  then show ?case by (simp add: conn_inv_def http_server_connection_init_def)
next
  case (work c i)
  then show ?case by (simp add: taskwork_inv)
next
  case (answer c r w)
  then show ?case by (simp add: conn_inv_def body_complete_def)
qed

section \<open>Properties of the connection\<close>

text \<open>C13: The API only ever sees complete requests, and each once: in every reachable state in
  which the connection waits for the API, the request has a method the server knows, a path and
  a version, the buffer holds at least as many bytes as \<open>Content-Length\<close> announced, and the
  callback has been called exactly once with nothing sent yet. The endpoints read
  \<open>content_length\<close> bytes from the buffer without a check of their own.\<close>

theorem handover_is_complete:
  assumes "conn_reach lib c" and "state c = WEATHER_HANDOVER"
  shows "request_valid (request c) \<and> content_length c \<le> int (length (conn_data c)) \<and>
         events c = [OnRequest]"
  using conn_reach_inv [OF assms(1)] assms(2) by (simp add: conn_inv_def body_complete_def)

text \<open>C14: No connection is answered twice, and none is disposed unanswered: nothing has been
  written in any reachable state before \<open>DISPOSING\<close>, and once it is reached the connection has
  made at most one handover, then exactly one write, then only disconnected and disposed.\<close>

theorem one_response_per_connection:
  assumes "conn_reach lib c"
  shows "if state c = DISPOSING then answered_once (events c)
         else \<forall>msg. Write msg \<notin> set (events c)"
  using conn_reach_inv [OF assms]
  by (auto simp: conn_inv_def split: conn_state.splits)

text \<open>What is sent for a request the API has answered: the API's response byte for byte,
  unless its status is 400 or 500. Then it is replaced by a generic message whose body is the
  reason phrase, so the JSON error bodies that the endpoints build with these two statuses never
  reach a client.\<close>

theorem respond_replaces_error_bodies:
  assumes "state c = RESPONDING" and "memory_ok i"
    and "full_response (response c) = Some r" and "req_path (request c) \<noteq> Some ''/echo''"
  shows "events (http_server_connection_taskwork lib i c) = events c @ [Write
           (if resp_status (response c) \<in> {400, 500}
            then snprintf_trunc 512 (http_message (resp_status (response c))
                   (reason_phrase lib (resp_status (response c))) ''application/text''
                   (reason_phrase lib (resp_status (response c))))
            else cstr r)]"
  using assms
  by (simp add: http_server_connection_taskwork_def worktask_respond_def send_def memory_ok_def
      mem_unlimited_def Let_def)

lemma length_echo_body: "length (echo_body c) < 4096"
  unfolding echo_body_def Let_def by (rule length_snprintf_trunc) simp

lemma length_http_message_echo: "length (http_message 200 ''OK'' ''application/json'' (echo_body c)) < 8192"
proof -
  have "length (dec_nat (length (echo_body c))) \<le> 4"
    using length_echo_body [of c] by (intro length_dec_nat_le) simp_all
  moreover have "dec_int 200 = ''200''" by code_simp
  ultimately show ?thesis using length_echo_body [of c] by (simp add: http_message_def)
qed

text \<open>The echo path answers every request it gets with a complete 200 message: the buffers
  never truncate the message or falsify its length field, and the status is not looked at, so a
  request to \<open>/echo\<close> that was found malformed is answered 200 as well.\<close>

theorem echo_always_answers_200:
  assumes "state c = RESPONDING" and "memory_ok i"
    and "full_response (response c) = None" and "req_path (request c) = Some ''/echo''"
  shows "events (http_server_connection_taskwork lib i c) = events c @
           [Write (http_message 200 ''OK'' ''application/json'' (echo_body c))]"
  using assms length_http_message_echo [of c]
  by (simp add: http_server_connection_taskwork_def worktask_respond_def send_def memory_ok_def
      mem_unlimited_def Let_def)

section \<open>A connection on a small parser\<close>

text \<open>A concrete parser for the witnesses: the first line is split at spaces, headers are skipped
  except for \<open>Content-Length\<close>.\<close>

fun find_sub :: "string \<Rightarrow> string \<Rightarrow> nat option" where
  "find_sub pat [] = None"
| "find_sub pat (c # s) =
     (if take (length pat) (c # s) = pat then Some 0 else map_option Suc (find_sub pat s))"

definition word_of :: "string \<Rightarrow> string" where
  "word_of s = takeWhile (\<lambda>c. c \<notin> {CHR '' '', CR}) s"

definition after_word :: "string \<Rightarrow> string" where
  "after_word s = drop 1 (dropWhile (\<lambda>c. c \<notin> {CHR '' '', CR}) s)"

definition small_parser :: http_lib where
  "small_parser = \<lparr>
     realloc_data = (\<lambda>m d b. if m (length d + length b) then Some (d @ b) else None),
     find_line_end = find_sub [CR, NL],
     first_line = (\<lambda>d r. (SUCCESS, r\<lparr> req_method_str := Some (word_of d),
        req_path := Some (word_of (after_word d)),
        req_version := Some (word_of (after_word (after_word d))),
        req_method := (if word_of d = ''POST'' then HTTP_POST
                       else if word_of d = ''GET'' then HTTP_GET else HTTP_INVALID),
        req_params := Some [] \<rparr>)),
     find_headers_end = find_sub [CR, NL, CR, NL],
     parse_headers = (\<lambda>d h. (SUCCESS, Some [(''Content-Length'', drop 16 d)])),
     header_value = (\<lambda>h k. case h of None \<Rightarrow> None | Some l \<Rightarrow> map_of l k),
     reason_phrase = (\<lambda>n. if n = 200 then ''OK'' else if n = 400 then ''Bad Request'' else ''Error'')
   \<rparr>"

definition quiet_round :: conn_input where
  "quiet_round = \<lparr> rx = None, mem = mem_unlimited, list_ok = True \<rparr>"

definition receive :: "string \<Rightarrow> conn_input" where
  "receive bytes = quiet_round\<lparr> rx := Some bytes \<rparr>"

definition post_rounds :: "conn_input list" where
  "post_rounds = [quiet_round,
     receive (''POST /x HTTP/1.1'' @ CRLF @ ''Content-Length: 3'' @ CRLF @ CRLF @ ''a''),
     quiet_round, receive ''bc'', quiet_round]"

definition posted :: http_conn where
  "posted = run_task (http_server_connection_taskwork small_parser) post_rounds
     http_server_connection_init"

lemma conn_reach_run:
  "conn_reach lib c \<Longrightarrow> conn_reach lib (run_task (http_server_connection_taskwork lib) ins c)"
  by (induction ins arbitrary: c) (simp_all add: conn_reach.work)

lemma posted_reach: "conn_reach small_parser posted"
  unfolding posted_def by (intro conn_reach_run conn_reach.start)

lemma posted_state: "state posted = WEATHER_HANDOVER" "conn_data posted = ''abc''"
  by code_simp+

theorem connection_settles_witness:
  "\<exists>n \<le> 49. conn_settled (run_task (http_server_connection_taskwork small_parser)
     (take n (replicate 50 quiet_round)) http_server_connection_init)"
  using connection_settles [of "replicate 50 quiet_round" small_parser]
  by (simp add: quiet_round_def memory_ok_def)

theorem handover_is_complete_witness:
  "request_valid (request posted) \<and> content_length posted \<le> int (length (conn_data posted)) \<and>
   events posted = [OnRequest]"
  by (rule handover_is_complete [OF posted_reach posted_state(1)])

definition answered_conn :: "int \<Rightarrow> string \<Rightarrow> http_conn" where
  "answered_conn n msg = http_server_connection_taskwork small_parser quiet_round
     (posted\<lparr> response := \<lparr> resp_status = n, full_response = Some msg \<rparr>, weather_done := True \<rparr>)"

theorem one_response_per_connection_witness:
  "answered_once (events (http_server_connection_taskwork small_parser quiet_round
     (answered_conn 200 ''hello'')))"
proof -
  let ?c = "http_server_connection_taskwork small_parser quiet_round (answered_conn 200 ''hello'')"
  have "conn_reach small_parser ?c"
    unfolding answered_conn_def
    by (intro conn_reach.work conn_reach.answer posted_reach posted_state(1))
  moreover have "state ?c = DISPOSING" by code_simp
  ultimately show ?thesis using one_response_per_connection [of small_parser ?c] by simp
qed

theorem respond_replaces_error_bodies_witness:
  "events (http_server_connection_taskwork small_parser quiet_round (answered_conn 400 ''detail''))
     = [OnRequest, Write (snprintf_trunc 512 (http_message 400 ''Bad Request'' ''application/text''
          ''Bad Request''))]"
proof -
  have "state (answered_conn 400 ''detail'') = RESPONDING"
    and "full_response (response (answered_conn 400 ''detail'')) = Some ''detail''"
    and "resp_status (response (answered_conn 400 ''detail'')) = 400"
    and "req_path (request (answered_conn 400 ''detail'')) \<noteq> Some ''/echo''"
    and "events (answered_conn 400 ''detail'') = [OnRequest]" by code_simp+
  moreover have "memory_ok quiet_round" by (simp add: memory_ok_def quiet_round_def)
  ultimately show ?thesis
    using respond_replaces_error_bodies [of "answered_conn 400 ''detail''" quiet_round "''detail''"
        small_parser]
    by (simp add: small_parser_def)
qed

text \<open>A request to \<open>/echo\<close> whose method is not known.\<close>

definition echo_conn :: http_conn where
  "echo_conn = run_task (http_server_connection_taskwork small_parser)
     [quiet_round, receive (''FROB /echo HTTP/1.1'' @ CRLF @ CRLF), quiet_round, quiet_round]
     http_server_connection_init"

theorem echo_always_answers_200_witness:
  "resp_status (response echo_conn) = 400 \<and>
   events (http_server_connection_taskwork small_parser quiet_round echo_conn) =
     [Write (http_message 200 ''OK'' ''application/json'' (echo_body echo_conn))]"
proof -
  have "resp_status (response echo_conn) = 400" and "state echo_conn = RESPONDING"
    and "full_response (response echo_conn) = None" and "events echo_conn = []"
    and "req_path (request echo_conn) = Some ''/echo''" by code_simp+
  moreover have "memory_ok quiet_round" by (simp add: memory_ok_def quiet_round_def)
  ultimately show ?thesis
    using echo_always_answers_200 [of echo_conn quiet_round small_parser] by simp
qed

end
