(* ===== verification/Server_Pipeline.thy ===== *)
theory Server_Pipeline
  imports Prelude
begin

text \<open>
  The three long-lived tasks of the server and the path of a client through them:
  \<open>server/src/tcp/tcp_server.c\<close> accepts, \<open>server/src/http/http_server.c\<close> makes a connection of
  the file descriptor, \<open>server/src/opti/opti_server.c\<close> makes an instance of the connection. Each
  hands over to the next through a single slot and a state change, so that nothing is lost
  depends on the timing of the three state machines; the theory proves it for every order in
  which the scheduler runs them within a round. A connection is named by its file descriptor.
  The operating system and the library are the inputs of a round.
\<close>

section \<open>State\<close>

datatype tcp_server_state =
    TCP_SERVER_INITIALIZING
  | TCP_SERVER_LISTENING
  | TCP_SERVER_CONNECTING
  | TCP_SERVER_CONNECTED
  | TCP_SERVER_DISPOSING
  | TCP_SERVER_ERROR

record tcp_server =
  tcp_fd :: int
  tcp_client_fd :: int
  tcp_state :: tcp_server_state
  tcp_task :: bool

datatype http_server_error_state =
    HTTP_SERVER_ERROR_NONE
  | HTTP_SERVER_ERROR_INVALID_ARGUMENT
  | HTTP_SERVER_ERROR_TCP_INIT_FAILED
  | HTTP_SERVER_ERROR_CREATE_TASK_FAILED
  | HTTP_SERVER_ERROR_ACCEPT_FAILED

datatype http_server_state =
    HTTP_SERVER_INITIALIZING
  | HTTP_SERVER_IDLING
  | HTTP_SERVER_CONNECTING
  | HTTP_SERVER_CONNECTED
  | HTTP_SERVER_ERROR
  | HTTP_SERVER_DISPOSING

text \<open>\<open>retry_armed\<close>: \<open>retry_function\<close> and \<open>retry_args\<close> are set.\<close>

record http_server =
  http_port :: string
  http_task :: bool
  retry_armed :: bool
  next_retry_at :: nat
  http_client_fd :: int
  error_retries :: int
  http_state :: http_server_state
  error_state :: http_server_error_state

datatype opti_server_state =
    OPTI_SERVER_INIT
  | OPTI_SERVER_IDLE
  | OPTI_SERVER_CONNECTING
  | OPTI_SERVER_CONNECTED
  | OPTI_SERVER_ERROR
  | OPTI_SERVER_DISPOSING

record opti_server =
  opti_connection :: "int option"
  opti_task :: bool
  opti_instances :: "int list"
  opti_state :: opti_server_state

text \<open>The server, with a history of the clients: those accepted, in order, and what became of
  each of them, in order.\<close>

datatype outcome = Served | Refused

record server =
  tcp :: tcp_server
  http :: http_server
  opti :: opti_server
  accepted :: "int list"
  outcomes :: "(int \<times> outcome) list"

section \<open>The TCP server\<close>

text \<open>What happens with one address that \<open>getaddrinfo\<close> returns.\<close>

datatype attempt =
    SocketFails
  | BindFails int
  | ListenFails int
  | NonblockFails int
  | Listens int

text \<open>The loop over the addresses: the listening descriptor, and the descriptors closed and the
  ones left open on the way.\<close>

fun try_addresses :: "attempt list \<Rightarrow> int option \<times> int list \<times> int list" where
  "try_addresses [] = (None, [], [])"
| "try_addresses (SocketFails # as) = try_addresses as"
| "try_addresses (BindFails fd # as) = (let (r, cl, op) = try_addresses as in (r, fd # cl, op))"
| "try_addresses (ListenFails fd # as) = (let (r, cl, op) = try_addresses as in (r, fd # cl, op))"
| "try_addresses (NonblockFails fd # as) = (let (r, cl, op) = try_addresses as in (r, cl, fd # op))"
| "try_addresses (Listens fd # as) = (Some fd, [], [])"

text \<open>\<open>addrs\<close> is \<open>None\<close> when \<open>getaddrinfo\<close> fails. The result of \<open>scheduler_create_task\<close> is kept
  but not looked at.\<close>

definition tcp_server_init ::
    "attempt list option \<Rightarrow> bool \<Rightarrow> tcp_server \<Rightarrow> status \<times> tcp_server" where
  "tcp_server_init addrs task s0 =
     (let s = s0\<lparr> tcp_fd := - 1, tcp_state := TCP_SERVER_INITIALIZING, tcp_task := False \<rparr>
      in case addrs of
           None \<Rightarrow> (ERR_IO, s)
         | Some as \<Rightarrow>
             (case try_addresses as of
                (Some fd, _) \<Rightarrow>
                  (SUCCESS, s\<lparr> tcp_fd := fd, tcp_state := TCP_SERVER_LISTENING, tcp_task := task \<rparr>)
              | (None, _) \<Rightarrow> (ERR_IO, s)))"

text \<open>One call of \<open>accept\<close>, and \<open>O_NONBLOCK\<close> on the new descriptor.\<close>

datatype accept_result = Accepts int | NothingPending | AcceptFails | AcceptsBlocking int

definition tcp_server_accept :: "accept_result \<Rightarrow> tcp_server \<Rightarrow> status \<times> tcp_server" where
  "tcp_server_accept a s =
     (case a of
        NothingPending \<Rightarrow> (ERR_WOULD_BLOCK, s)
      | AcceptFails \<Rightarrow> (ERR_CONNECTION_FAIL, s)
      | AcceptsBlocking fd \<Rightarrow> (ERR_IO, s)
      | Accepts fd \<Rightarrow> (SUCCESS, s\<lparr> tcp_client_fd := fd \<rparr>))"

definition tcp_server_handle_listening ::
    "accept_result \<Rightarrow> tcp_server \<Rightarrow> tcp_server_state \<times> tcp_server" where
  "tcp_server_handle_listening a s =
     (let (result, s') = tcp_server_accept a s
      in (if result = SUCCESS then TCP_SERVER_CONNECTING
          else if result = ERR_WOULD_BLOCK then TCP_SERVER_LISTENING
          else TCP_SERVER_ERROR, s'))"

text \<open>\<open>memset\<close> to zero: state 0 is \<open>TCP_SERVER_INITIALIZING\<close>.\<close>

definition tcp_server_dispose :: "tcp_server \<Rightarrow> tcp_server" where
  "tcp_server_dispose s = \<lparr> tcp_fd = 0, tcp_client_fd = 0, tcp_state = TCP_SERVER_INITIALIZING,
     tcp_task = False \<rparr>"

section \<open>The HTTP server\<close>

text \<open>The port is the configured \<open>http.port\<close>, or the default.\<close>

definition http_server_port :: "string option \<Rightarrow> string" where
  "http_server_port conf =
     (case conf of
        None \<Rightarrow> ''10580''
      | Some v \<Rightarrow> if cstr v = [] then ''10580'' else snprintf_trunc 16 (cstr v))"

definition http_server_init ::
    "string option \<Rightarrow> attempt list option \<Rightarrow> bool \<Rightarrow> bool \<Rightarrow> bool \<Rightarrow> nat \<Rightarrow> server \<Rightarrow> status \<times> server" where
  "http_server_init conf addrs tcp_task_ok mem_ok task_ok now s =
     (let h = \<lparr> http_port = http_server_port conf, http_task = False, retry_armed = False,
                next_retry_at = 0, http_client_fd = - 1, error_retries = 0,
                http_state = HTTP_SERVER_INITIALIZING, error_state = HTTP_SERVER_ERROR_NONE \<rparr>;
          (result, t) = tcp_server_init addrs tcp_task_ok (tcp s);
          s1 = s\<lparr> tcp := t \<rparr>
      in if result \<noteq> SUCCESS
         then (let h1 = h\<lparr> http_state := HTTP_SERVER_ERROR,
                            error_state := HTTP_SERVER_ERROR_TCP_INIT_FAILED \<rparr>
               in if \<not> mem_ok then (ERR_NO_MEMORY, s1\<lparr> http := h1 \<rparr>)
                  else (result, s1\<lparr> http := h1\<lparr> retry_armed := True, next_retry_at := now + 30000,
                                                http_task := task_ok \<rparr> \<rparr>))
         else if \<not> task_ok
         then (ERR_FATAL, s1\<lparr> tcp := tcp_server_dispose t, http := h\<lparr> http_state := HTTP_SERVER_ERROR \<rparr> \<rparr>)
         else (SUCCESS, s1\<lparr> http := h\<lparr> http_task := True, http_state := HTTP_SERVER_IDLING \<rparr> \<rparr>))"

definition http_server_on_accept :: "int \<Rightarrow> server \<Rightarrow> status \<times> server" where
  "http_server_on_accept fd s =
     (if fd < 0 then (ERR_INVALID_ARG, s)
      else (SUCCESS, s\<lparr> http := (http s)\<lparr> http_client_fd := fd,
                                          http_state := HTTP_SERVER_CONNECTING \<rparr> \<rparr>))"

text \<open>\<open>opti_s_on_http_connection\<close>, the callback of the server above.\<close>

definition opti_s_on_http_connection :: "int \<Rightarrow> server \<Rightarrow> status \<times> server" where
  "opti_s_on_http_connection fd s =
     (SUCCESS, s\<lparr> opti := (opti s)\<lparr> opti_connection := Some fd,
                                   opti_state := OPTI_SERVER_CONNECTING \<rparr> \<rparr>)"

definition http_server_connection_handover ::
    "status \<Rightarrow> int \<Rightarrow> server \<Rightarrow> http_server_state \<times> server" where
  "http_server_connection_handover conn_result fd s =
     (if fd < 0 then (HTTP_SERVER_ERROR, s)
      else if conn_result \<noteq> SUCCESS
      then (HTTP_SERVER_IDLING, s\<lparr> http := (http s)\<lparr> http_client_fd := - 1 \<rparr>,
                                   outcomes := outcomes s @ [(fd, Refused)] \<rparr>)
      else (let (result, s1) = opti_s_on_http_connection fd s
            in if result \<noteq> SUCCESS
               then (HTTP_SERVER_IDLING, s1\<lparr> http := (http s1)\<lparr> http_client_fd := - 1 \<rparr>,
                                             outcomes := outcomes s1 @ [(fd, Refused)] \<rparr>)
               else (HTTP_SERVER_CONNECTED, s1)))"

text \<open>A retry runs \<open>tcp_server_init\<close> again on the same server.\<close>

definition http_server_retry_work ::
    "nat \<Rightarrow> attempt list option \<Rightarrow> bool \<Rightarrow> server \<Rightarrow> http_server_state \<times> server" where
  "http_server_retry_work now addrs task s =
     (let h = http s
      in if now < next_retry_at h then (HTTP_SERVER_ERROR, s)
         else if \<not> retry_armed h then (HTTP_SERVER_DISPOSING, s)
         else (let (result, t) = tcp_server_init addrs task (tcp s); s1 = s\<lparr> tcp := t \<rparr>
               in if result = SUCCESS
                  then (HTTP_SERVER_IDLING,
                        s1\<lparr> http := h\<lparr> retry_armed := False, error_state := HTTP_SERVER_ERROR_NONE,
                                         error_retries := 0 \<rparr> \<rparr>)
                  else (let h1 = h\<lparr> error_retries := error_retries h + 1 \<rparr>
                        in if 3 < error_retries h1
                           then (HTTP_SERVER_DISPOSING, s1\<lparr> http := h1\<lparr> retry_armed := False \<rparr> \<rparr>)
                           else (HTTP_SERVER_ERROR, s1\<lparr> http := h1\<lparr> next_retry_at := now + 30000 \<rparr> \<rparr>))))"

definition http_server_error_work ::
    "nat \<Rightarrow> attempt list option \<Rightarrow> bool \<Rightarrow> server \<Rightarrow> http_server_state \<times> server" where
  "http_server_error_work now addrs task s =
     (case error_state (http s) of
        HTTP_SERVER_ERROR_NONE \<Rightarrow> (HTTP_SERVER_IDLING, s)
      | HTTP_SERVER_ERROR_INVALID_ARGUMENT \<Rightarrow> (HTTP_SERVER_DISPOSING, s)
      | HTTP_SERVER_ERROR_ACCEPT_FAILED \<Rightarrow> http_server_retry_work now addrs task s
      | HTTP_SERVER_ERROR_TCP_INIT_FAILED \<Rightarrow> http_server_retry_work now addrs task s
      | _ \<Rightarrow> (HTTP_SERVER_DISPOSING, s))"

definition http_server_dispose :: "server \<Rightarrow> server" where
  "http_server_dispose s = s\<lparr> tcp := tcp_server_dispose (tcp s),
     http := \<lparr> http_port = [], http_task = False, retry_armed = False, next_retry_at = 0,
       http_client_fd = 0, error_retries = 0, http_state = HTTP_SERVER_INITIALIZING,
       error_state = HTTP_SERVER_ERROR_NONE \<rparr> \<rparr>"

section \<open>The task functions\<close>

text \<open>The input of one scheduler round.\<close>

record round_input =
  in_accept :: accept_result
  in_conn :: status                     \<comment> \<open>\<open>http_server_connection_init_ptr\<close>\<close>
  in_instance :: status                 \<comment> \<open>\<open>osi_init_ptr\<close>\<close>
  in_now :: nat
  in_addrs :: "attempt list option"
  in_task :: bool

definition tcp_server_connection_handover :: "server \<Rightarrow> tcp_server_state \<times> server" where
  "tcp_server_connection_handover s =
     (let (result, s1) = http_server_on_accept (tcp_client_fd (tcp s)) s
      in if result \<noteq> SUCCESS then (TCP_SERVER_ERROR, s1)
         else (TCP_SERVER_CONNECTED, s1\<lparr> tcp := (tcp s1)\<lparr> tcp_client_fd := - 1 \<rparr> \<rparr>))"

definition set_tcp :: "tcp_server_state \<Rightarrow> server \<Rightarrow> server" where
  "set_tcp st s = s\<lparr> tcp := (tcp s)\<lparr> tcp_state := st \<rparr> \<rparr>"

definition set_http :: "http_server_state \<Rightarrow> server \<Rightarrow> server" where
  "set_http st s = s\<lparr> http := (http s)\<lparr> http_state := st \<rparr> \<rparr>"

definition set_opti :: "opti_server_state \<Rightarrow> server \<Rightarrow> server" where
  "set_opti st s = s\<lparr> opti := (opti s)\<lparr> opti_state := st \<rparr> \<rparr>"

text \<open>The history records a client once the server owns its descriptor.\<close>

definition tcp_server_taskwork :: "round_input \<Rightarrow> server \<Rightarrow> server" where
  "tcp_server_taskwork i s =
     (case tcp_state (tcp s) of
        TCP_SERVER_LISTENING \<Rightarrow>
          (let (next, t) = tcp_server_handle_listening (in_accept i) (tcp s);
               s1 = s\<lparr> tcp := t \<rparr>
           in set_tcp next (if next = TCP_SERVER_CONNECTING
                            then s1\<lparr> accepted := accepted s1 @ [tcp_client_fd t] \<rparr> else s1))
      | TCP_SERVER_CONNECTING \<Rightarrow>
          (let (next, s1) = tcp_server_connection_handover s in set_tcp next s1)
      | TCP_SERVER_CONNECTED \<Rightarrow> set_tcp TCP_SERVER_LISTENING s
      | TCP_SERVER_DISPOSING \<Rightarrow> s\<lparr> tcp := tcp_server_dispose (tcp s) \<rparr>
      | _ \<Rightarrow> s)"

definition http_server_taskwork :: "round_input \<Rightarrow> server \<Rightarrow> server" where
  "http_server_taskwork i s =
     (case http_state (http s) of
        HTTP_SERVER_CONNECTING \<Rightarrow>
          (let (next, s1) = http_server_connection_handover (in_conn i) (http_client_fd (http s)) s
           in set_http next s1)
      | HTTP_SERVER_CONNECTED \<Rightarrow> set_http HTTP_SERVER_IDLING s
      | HTTP_SERVER_ERROR \<Rightarrow>
          (let (next, s1) = http_server_error_work (in_now i) (in_addrs i) (in_task i) s
           in set_http next s1)
      | HTTP_SERVER_DISPOSING \<Rightarrow> http_server_dispose s
      | _ \<Rightarrow> s)"

section \<open>The opti server\<close>

text \<open>The handover to an instance. What becomes of the memory when \<open>linked_list_item_add\<close> fails is in
  \<open>Server_Memory\<close>; here the item is added.\<close>

definition opti_server_connection_handover ::
    "status \<Rightarrow> server \<Rightarrow> opti_server_state \<times> server" where
  "opti_server_connection_handover inst_result s =
     (case opti_connection (opti s) of
        None \<Rightarrow> (OPTI_SERVER_ERROR, s)
      | Some fd \<Rightarrow>
          if inst_result \<noteq> SUCCESS then (OPTI_SERVER_ERROR, s)
          else (OPTI_SERVER_CONNECTED,
                s\<lparr> opti := (opti s)\<lparr> opti_instances := opti_instances (opti s) @ [fd],
                                   opti_connection := None \<rparr>,
                   outcomes := outcomes s @ [(fd, Served)] \<rparr>))"

definition opti_s_on_instance_finish :: "int \<Rightarrow> server \<Rightarrow> server" where
  "opti_s_on_instance_finish fd s =
     s\<lparr> opti := (opti s)\<lparr> opti_instances := remove1 fd (opti_instances (opti s)) \<rparr> \<rparr>"

definition opti_s_dispose :: "server \<Rightarrow> server" where
  "opti_s_dispose s =
     (let s1 = http_server_dispose (s\<lparr> opti := (opti s)\<lparr> opti_instances := [] \<rparr> \<rparr>)
      in s1\<lparr> opti := (opti s1)\<lparr> opti_task := False \<rparr> \<rparr>)"

definition opti_s_taskwork :: "round_input \<Rightarrow> server \<Rightarrow> server" where
  "opti_s_taskwork i s =
     (case opti_state (opti s) of
        OPTI_SERVER_INIT \<Rightarrow> set_opti OPTI_SERVER_IDLE s
      | OPTI_SERVER_IDLE \<Rightarrow> s
      | OPTI_SERVER_CONNECTING \<Rightarrow>
          (let (next, s1) = opti_server_connection_handover (in_instance i) s in set_opti next s1)
      | OPTI_SERVER_CONNECTED \<Rightarrow> set_opti OPTI_SERVER_IDLE s
      | OPTI_SERVER_ERROR \<Rightarrow> set_opti OPTI_SERVER_DISPOSING s
      | OPTI_SERVER_DISPOSING \<Rightarrow> set_opti OPTI_SERVER_DISPOSING (opti_s_dispose s))"

text \<open>Start-up. The results of the two databases are inputs; \<open>main\<close> does not look at the status
  and runs the scheduler in any case.\<close>

record init_input =
  in_port :: "string option"
  in_bind :: "attempt list option"
  in_tcp_task :: bool
  in_retry_mem :: bool
  in_http_task :: bool
  in_time :: nat
  in_list :: bool
  in_opti_task :: bool
  in_meter_store :: status
  in_cache :: status

definition zero_server :: server where
  "zero_server = \<lparr>
     tcp = \<lparr> tcp_fd = 0, tcp_client_fd = 0, tcp_state = TCP_SERVER_INITIALIZING, tcp_task = False \<rparr>,
     http = \<lparr> http_port = [], http_task = False, retry_armed = False, next_retry_at = 0,
       http_client_fd = 0, error_retries = 0, http_state = HTTP_SERVER_INITIALIZING,
       error_state = HTTP_SERVER_ERROR_NONE \<rparr>,
     opti = \<lparr> opti_connection = None, opti_task = False, opti_instances = [],
       opti_state = OPTI_SERVER_INIT \<rparr>,
     accepted = [], outcomes = [] \<rparr>"

definition opti_s_init :: "init_input \<Rightarrow> server \<Rightarrow> status \<times> server" where
  "opti_s_init i s0 =
     (let s = s0\<lparr> opti := \<lparr> opti_connection = None, opti_task = False, opti_instances = [],
                           opti_state = OPTI_SERVER_INIT \<rparr> \<rparr>;
          (result, s1) = http_server_init (in_port i) (in_bind i) (in_tcp_task i) (in_retry_mem i)
                           (in_http_task i) (in_time i) s;
          failed = (\<lambda>t. set_opti OPTI_SERVER_ERROR (http_server_dispose t))
      in if result \<noteq> SUCCESS then (result, set_opti OPTI_SERVER_ERROR s1)
         else if \<not> in_list i then (ERR_NO_MEMORY, failed s1)
         else if \<not> in_opti_task i then (ERR_FATAL, failed s1)
         else if in_meter_store i \<noteq> SUCCESS then (in_meter_store i, failed s1)
         else if in_cache i \<noteq> SUCCESS then (in_cache i, failed s1)
         else (SUCCESS, set_opti OPTI_SERVER_IDLE (s1\<lparr> opti := (opti s1)\<lparr> opti_task := True \<rparr> \<rparr>)))"

section \<open>Scheduler rounds\<close>

datatype server_task = TcpTask | HttpTask | OptiTask

text \<open>The scheduler runs the tasks that exist.\<close>

definition run_server_task :: "round_input \<Rightarrow> server_task \<Rightarrow> server \<Rightarrow> server" where
  "run_server_task i t s =
     (case t of
        TcpTask \<Rightarrow> if tcp_task (tcp s) then tcp_server_taskwork i s else s
      | HttpTask \<Rightarrow> if http_task (http s) then http_server_taskwork i s else s
      | OptiTask \<Rightarrow> if opti_task (opti s) then opti_s_taskwork i s else s)"

definition run_round :: "server_task list \<times> round_input \<Rightarrow> server \<Rightarrow> server" where
  "run_round r s = fold (run_server_task (snd r)) (fst r) s"

definition run_rounds :: "(server_task list \<times> round_input) list \<Rightarrow> server \<Rightarrow> server" where
  "run_rounds rs s = fold run_round rs s"

lemma run_rounds_simps [simp]:
  "run_rounds [] s = s" "run_rounds (r # rs) s = run_rounds rs (run_round r s)"
  "run_rounds (rs @ qs) s = run_rounds qs (run_rounds rs s)"
  by (simp_all add: run_rounds_def)

lemmas pipeline_defs =
  run_server_task_def tcp_server_taskwork_def http_server_taskwork_def opti_s_taskwork_def
  tcp_server_handle_listening_def tcp_server_accept_def tcp_server_connection_handover_def
  http_server_on_accept_def http_server_connection_handover_def opti_s_on_http_connection_def
  opti_server_connection_handover_def set_tcp_def set_http_def set_opti_def

section \<open>No client is lost between the tasks\<close>

definition in_flight :: "server \<Rightarrow> int list" where
  "in_flight s =
     (if opti_state (opti s) = OPTI_SERVER_CONNECTING then [the (opti_connection (opti s))] else []) @
     (if http_state (http s) = HTTP_SERVER_CONNECTING then [http_client_fd (http s)] else []) @
     (if tcp_state (tcp s) = TCP_SERVER_CONNECTING then [tcp_client_fd (tcp s)] else [])"

text \<open>
  The argument is a check of the product of the three state machines. \<open>next_modes\<close> lists the
  combinations of states (modes) a task may move to, and whether it decides the fate of a client
  doing so; \<open>may_run\<close> says when its handover finds the slot of the next task free. The modes of
  \<open>between_rounds\<close> are closed under rounds in every order, because between two handovers of the
  TCP server lie three rounds.
\<close>

type_synonym modes = "tcp_server_state \<times> http_server_state \<times> opti_server_state"

definition modes_of :: "server \<Rightarrow> modes" where
  "modes_of s = (tcp_state (tcp s), http_state (http s), opti_state (opti s))"

fun next_modes :: "server_task \<Rightarrow> modes \<Rightarrow> (modes \<times> bool) list" where
  "next_modes TcpTask (t, h, p) =
     (case t of
        TCP_SERVER_LISTENING \<Rightarrow> [((TCP_SERVER_LISTENING, h, p), False),
          ((TCP_SERVER_CONNECTING, h, p), False), ((TCP_SERVER_ERROR, h, p), False)]
      | TCP_SERVER_CONNECTING \<Rightarrow> [((TCP_SERVER_CONNECTED, HTTP_SERVER_CONNECTING, p), False)]
      | TCP_SERVER_CONNECTED \<Rightarrow> [((TCP_SERVER_LISTENING, h, p), False)]
      | _ \<Rightarrow> [((t, h, p), False)])"
| "next_modes HttpTask (t, h, p) =
     (case h of
        HTTP_SERVER_CONNECTING \<Rightarrow> [((t, HTTP_SERVER_IDLING, p), True),
          ((t, HTTP_SERVER_CONNECTED, OPTI_SERVER_CONNECTING), False)]
      | HTTP_SERVER_CONNECTED \<Rightarrow> [((t, HTTP_SERVER_IDLING, p), False)]
      | _ \<Rightarrow> [((t, h, p), False)])"
| "next_modes OptiTask (t, h, p) =
     (case p of
        OPTI_SERVER_CONNECTING \<Rightarrow> [((t, h, OPTI_SERVER_CONNECTED), True)]
      | OPTI_SERVER_CONNECTED \<Rightarrow> [((t, h, OPTI_SERVER_IDLE), False)]
      | OPTI_SERVER_INIT \<Rightarrow> [((t, h, OPTI_SERVER_IDLE), False)]
      | _ \<Rightarrow> [((t, h, p), False)])"

fun may_run :: "server_task \<Rightarrow> modes \<Rightarrow> bool" where
  "may_run TcpTask (t, h, p) \<longleftrightarrow> t \<noteq> TCP_SERVER_DISPOSING \<and>
     (t = TCP_SERVER_CONNECTING \<longrightarrow> h \<noteq> HTTP_SERVER_CONNECTING)"
| "may_run HttpTask (t, h, p) \<longleftrightarrow> h \<noteq> HTTP_SERVER_ERROR \<and> h \<noteq> HTTP_SERVER_DISPOSING \<and>
     (h = HTTP_SERVER_CONNECTING \<longrightarrow> p \<noteq> OPTI_SERVER_CONNECTING)"
| "may_run OptiTask (t, h, p) \<longleftrightarrow> p \<noteq> OPTI_SERVER_ERROR \<and> p \<noteq> OPTI_SERVER_DISPOSING"

definition between_rounds :: "modes list" where
  "between_rounds =
     map (Pair TCP_SERVER_CONNECTED)
       [(HTTP_SERVER_CONNECTING, OPTI_SERVER_IDLE), (HTTP_SERVER_CONNECTED, OPTI_SERVER_CONNECTING),
        (HTTP_SERVER_CONNECTED, OPTI_SERVER_CONNECTED), (HTTP_SERVER_IDLING, OPTI_SERVER_IDLE)] @
     [(t, m). t \<leftarrow> [TCP_SERVER_LISTENING, TCP_SERVER_ERROR],
              m \<leftarrow> [(HTTP_SERVER_CONNECTED, OPTI_SERVER_CONNECTING),
                   (HTTP_SERVER_CONNECTED, OPTI_SERVER_CONNECTED),
                   (HTTP_SERVER_IDLING, OPTI_SERVER_CONNECTED), (HTTP_SERVER_IDLING, OPTI_SERVER_IDLE)]] @
     map (Pair TCP_SERVER_CONNECTING)
       [(HTTP_SERVER_IDLING, OPTI_SERVER_CONNECTED), (HTTP_SERVER_IDLING, OPTI_SERVER_IDLE)]"

definition round_orders :: "server_task list list" where
  "round_orders = [[TcpTask, HttpTask, OptiTask], [TcpTask, OptiTask, HttpTask],
     [HttpTask, TcpTask, OptiTask], [HttpTask, OptiTask, TcpTask],
     [OptiTask, TcpTask, HttpTask], [OptiTask, HttpTask, TcpTask]]"

text \<open>Rounds until the client that is on its way has been dealt with.\<close>

fun rounds_left :: "modes \<Rightarrow> nat" where
  "rounds_left (t, h, p) =
     (if t = TCP_SERVER_CONNECTING then 3
      else if h = HTTP_SERVER_CONNECTING then 2
      else if p = OPTI_SERVER_CONNECTING then 1 else 0)"

text \<open>From a mode \<open>m\<close> at the start of a round: every handover finds its slot free, the round ends
  in \<open>between_rounds\<close>, and a client on its way is dealt with or comes a step closer.\<close>

fun round_checks :: "nat \<Rightarrow> bool \<Rightarrow> server_task list \<Rightarrow> modes \<Rightarrow> bool" where
  "round_checks n done [] m \<longleftrightarrow> m \<in> set between_rounds \<and> (done \<or> n = 0 \<or> rounds_left m < n)"
| "round_checks n done (t # ts) m \<longleftrightarrow> may_run t m \<and>
     list_all (\<lambda>(m', d). round_checks n (done \<or> d) ts m') (next_modes t m)"

lemma all_rounds_check:
  "list_all (\<lambda>order. list_all (\<lambda>m. round_checks (rounds_left m) False order m) between_rounds)
     round_orders"
  by code_simp

text \<open>What every single task step keeps.\<close>

definition clients_kept :: "server \<Rightarrow> bool" where
  "clients_kept s \<longleftrightarrow>
     tcp_task (tcp s) \<and> http_task (http s) \<and> opti_task (opti s) \<and>
     (tcp_state (tcp s) = TCP_SERVER_CONNECTING \<longrightarrow> 0 \<le> tcp_client_fd (tcp s)) \<and>
     (http_state (http s) = HTTP_SERVER_CONNECTING \<longrightarrow> 0 \<le> http_client_fd (http s)) \<and>
     (opti_state (opti s) = OPTI_SERVER_CONNECTING \<longrightarrow> opti_connection (opti s) \<noteq> None) \<and>
     accepted s = map fst (outcomes s) @ in_flight s"

definition pipeline_inv :: "server \<Rightarrow> bool" where
  "pipeline_inv s \<longleftrightarrow> clients_kept s \<and> modes_of s \<in> set between_rounds"

text \<open>The operating system returns no negative descriptor as an accepted one, and there is memory
  for an instance. Accepting and making a connection may fail.\<close>

definition input_ok :: "round_input \<Rightarrow> bool" where
  "input_ok i \<longleftrightarrow> in_instance i = SUCCESS \<and> (\<forall>fd. in_accept i = Accepts fd \<longrightarrow> 0 \<le> fd)"

definition round_ok :: "server_task list \<times> round_input \<Rightarrow> bool" where
  "round_ok r \<longleftrightarrow> fst r \<in> set round_orders \<and> input_ok (snd r)"

text \<open>What a step of a task does to the clients, seen from \<open>s\<close>.\<close>

definition task_step_ok :: "server_task \<Rightarrow> server \<Rightarrow> server \<Rightarrow> bool" where
  "task_step_ok t s s' \<longleftrightarrow> clients_kept s' \<and>
     (\<exists>ys. accepted s' = accepted s @ ys \<and>
        (tcp_state (tcp s) = TCP_SERVER_ERROR \<longrightarrow> ys = [])) \<and>
     (\<exists>d. (modes_of s', d) \<in> set (next_modes t (modes_of s)) \<and>
        (if d then \<exists>x. outcomes s' = outcomes s @ [x] else outcomes s' = outcomes s))"

lemma tcp_step_ok:
  assumes "clients_kept s" and "may_run TcpTask (modes_of s)" and "input_ok i"
  shows "task_step_ok TcpTask s (run_server_task i TcpTask s)"
  using assms unfolding task_step_ok_def input_ok_def
  by (cases "tcp_state (tcp s)"; cases "in_accept i")
    (simp_all add: clients_kept_def in_flight_def modes_of_def pipeline_defs Let_def ex_bool_eq)

lemma http_step_ok:
  assumes "clients_kept s" and "may_run HttpTask (modes_of s)"
  shows "task_step_ok HttpTask s (run_server_task i HttpTask s)"
  using assms unfolding task_step_ok_def
  by (cases "http_state (http s)"; cases "in_conn i = SUCCESS")
    (simp_all add: clients_kept_def in_flight_def modes_of_def pipeline_defs Let_def ex_bool_eq)

lemma opti_step_ok:
  assumes "clients_kept s" and "may_run OptiTask (modes_of s)" and "input_ok i"
  shows "task_step_ok OptiTask s (run_server_task i OptiTask s)"
  using assms unfolding task_step_ok_def input_ok_def
  by (cases "opti_state (opti s)"; cases "opti_connection (opti s)")
    (simp_all add: clients_kept_def in_flight_def modes_of_def pipeline_defs Let_def ex_bool_eq)

lemma task_step:
  "clients_kept s \<Longrightarrow> may_run t (modes_of s) \<Longrightarrow> input_ok i \<Longrightarrow>
     task_step_ok t s (run_server_task i t s)"
  by (cases t) (simp_all add: tcp_step_ok http_step_ok opti_step_ok)

lemma round_steps:
  assumes "clients_kept s" and "input_ok i" and "round_checks n done order (modes_of s)"
  shows "clients_kept (fold (run_server_task i) order s) \<and>
         (\<exists>ys. accepted (fold (run_server_task i) order s) = accepted s @ ys) \<and>
         modes_of (fold (run_server_task i) order s) \<in> set between_rounds \<and>
         (\<exists>xs. outcomes (fold (run_server_task i) order s) = outcomes s @ xs \<and>
            (xs \<noteq> [] \<or> done \<or> n = 0 \<or> rounds_left (modes_of (fold (run_server_task i) order s)) < n))"
  using assms
proof (induction order arbitrary: s "done")
  case Nil
  then show ?case by simp
next
  case (Cons t ts)
  let ?s = "run_server_task i t s"
  from Cons.prems have step: "task_step_ok t s ?s" by (simp add: task_step)
  then obtain ys where ys: "accepted ?s = accepted s @ ys" by (auto simp: task_step_ok_def)
  from step obtain d where d: "(modes_of ?s, d) \<in> set (next_modes t (modes_of s))"
      and outs: "if d then \<exists>x. outcomes ?s = outcomes s @ [x] else outcomes ?s = outcomes s"
    by (auto simp: task_step_ok_def)
  from d Cons.prems(3) have "round_checks n (done \<or> d) ts (modes_of ?s)"
    by (auto simp: list_all_iff)
  from Cons.IH [OF _ Cons.prems(2) this] step obtain xs
    where IH: "clients_kept (fold (run_server_task i) ts ?s)"
        "\<exists>zs. accepted (fold (run_server_task i) ts ?s) = accepted ?s @ zs"
        "modes_of (fold (run_server_task i) ts ?s) \<in> set between_rounds"
        "outcomes (fold (run_server_task i) ts ?s) = outcomes ?s @ xs"
        "xs \<noteq> [] \<or> (done \<or> d) \<or> n = 0 \<or>
           rounds_left (modes_of (fold (run_server_task i) ts ?s)) < n"
    by (auto simp: task_step_ok_def)
  show ?case
  proof (cases d)
    case True
    with outs obtain x where "outcomes ?s = outcomes s @ [x]" by auto
    with IH ys show ?thesis by auto
  next
    case False
    with outs IH ys show ?thesis by auto
  qed
qed

lemma pipeline_round:
  assumes "pipeline_inv s" and "round_ok r"
  shows "pipeline_inv (run_round r s)"
    and "\<exists>ys. accepted (run_round r s) = accepted s @ ys"
    and "\<exists>xs. outcomes (run_round r s) = outcomes s @ xs \<and>
           (xs \<noteq> [] \<or> rounds_left (modes_of s) = 0 \<or>
            rounds_left (modes_of (run_round r s)) < rounds_left (modes_of s))"
proof -
  have "round_checks (rounds_left (modes_of s)) False (fst r) (modes_of s)"
    using assms all_rounds_check by (auto simp: pipeline_inv_def round_ok_def list_all_iff)
  with round_steps [of s "snd r" "rounds_left (modes_of s)" False "fst r"] assms
  show "pipeline_inv (run_round r s)"
    and "\<exists>ys. accepted (run_round r s) = accepted s @ ys"
    and "\<exists>xs. outcomes (run_round r s) = outcomes s @ xs \<and>
           (xs \<noteq> [] \<or> rounds_left (modes_of s) = 0 \<or>
            rounds_left (modes_of (run_round r s)) < rounds_left (modes_of s))"
    by (auto simp: pipeline_inv_def round_ok_def run_round_def)
qed

lemma pipeline_rounds:
  "pipeline_inv s \<Longrightarrow> list_all round_ok rs \<Longrightarrow> pipeline_inv (run_rounds rs s)"
  by (induction rs arbitrary: s) (simp_all add: pipeline_round(1))

lemma outcomes_grow:
  "pipeline_inv s \<Longrightarrow> list_all round_ok rs \<Longrightarrow> \<exists>xs. outcomes (run_rounds rs s) = outcomes s @ xs"
proof (induction rs arbitrary: s)
  case (Cons r rs)
  then have r: "pipeline_inv s" "round_ok r" by simp_all
  from Cons.IH [OF pipeline_round(1) [OF r]] Cons.prems
  obtain xs where "outcomes (run_rounds rs (run_round r s)) = outcomes (run_round r s) @ xs" by auto
  with pipeline_round(3) [OF r] show ?case by auto
qed simp

text \<open>At the end of a round at most one client is on its way, and none when no round is left.\<close>

definition clients_between :: "modes \<Rightarrow> nat" where
  "clients_between m = (case m of (t, h, p) \<Rightarrow>
     of_bool (p = OPTI_SERVER_CONNECTING) + of_bool (h = HTTP_SERVER_CONNECTING) +
     of_bool (t = TCP_SERVER_CONNECTING))"

lemma length_in_flight: "length (in_flight s) = clients_between (modes_of s)"
  by (simp add: in_flight_def clients_between_def modes_of_def)

lemma between_rounds_check:
  "list_all (\<lambda>m. clients_between m \<le> 1 \<and> (rounds_left m = 0 \<longrightarrow> clients_between m = 0) \<and>
     rounds_left m \<le> 3) between_rounds"
  by code_simp

lemma in_flight_le:
  assumes "pipeline_inv s"
  shows "length (in_flight s) \<le> 1" and "rounds_left (modes_of s) = 0 \<Longrightarrow> in_flight s = []"
    and "rounds_left (modes_of s) \<le> 3"
  using assms between_rounds_check length_in_flight [of s]
  by (auto simp: pipeline_inv_def list_all_iff)

lemma accepted_split: "pipeline_inv s \<Longrightarrow> accepted s = map fst (outcomes s) @ in_flight s"
  by (simp add: pipeline_inv_def clients_kept_def)

lemma clients_dealt_with:
  assumes "pipeline_inv s" and "list_all round_ok qs" and "rounds_left (modes_of s) \<le> length qs"
  shows "\<exists>later. map fst (outcomes (run_rounds qs s)) = accepted s @ later"
  using assms
proof (induction qs arbitrary: s)
  case Nil
  then show ?case by (simp add: accepted_split in_flight_le(2))
next
  case (Cons q qs)
  let ?s = "run_round q s"
  from Cons.prems have inv: "pipeline_inv s" "round_ok q" "list_all round_ok qs" by simp_all
  note inv' = pipeline_round(1) [OF inv(1,2)]
  obtain ys where ys: "accepted ?s = accepted s @ ys" using pipeline_round(2) [OF inv(1,2)] by blast
  obtain xs where xs: "outcomes ?s = outcomes s @ xs"
      and prog: "xs \<noteq> [] \<or> rounds_left (modes_of s) = 0 \<or>
        rounds_left (modes_of ?s) < rounds_left (modes_of s)"
    using pipeline_round(3) [OF inv(1,2)] by blast
  obtain zs where zs: "outcomes (run_rounds qs ?s) = outcomes ?s @ zs"
    using outcomes_grow [OF inv' inv(3)] by blast
  show ?case
  proof (cases "xs = [] \<and> rounds_left (modes_of s) \<noteq> 0")
    case True
    with prog Cons.prems have "rounds_left (modes_of ?s) \<le> length qs" by simp
    with Cons.IH [OF inv' inv(3)] ys show ?thesis by auto
  next
    case False
    have "\<exists>later. map fst (outcomes ?s) = accepted s @ later"
    proof (cases "in_flight s")
      case Nil
      with xs accepted_split [OF inv(1)] show ?thesis by simp
    next
      case (Cons c cs)
      with in_flight_le(1) [OF inv(1)] have c: "in_flight s = [c]" by simp
      with False in_flight_le(2) [OF inv(1)] have "xs \<noteq> []" by auto
      then obtain x xs' where x: "xs = x # xs'" by (cases xs) auto
      from ys accepted_split [OF inv(1)] accepted_split [OF inv'] xs c x
      have "fst x = c" by simp
      with x xs c accepted_split [OF inv(1)] show ?thesis by simp
    qed
    with zs show ?thesis by auto
  qed
qed

lemma pipeline_start:
  assumes "opti_s_init i zero_server = (SUCCESS, s)" and "in_tcp_task i"
  shows "pipeline_inv s"
proof -
  have "opti_s_init i zero_server \<noteq> (SUCCESS, s) \<or> clients_kept s \<and>
      modes_of s = (TCP_SERVER_LISTENING, HTTP_SERVER_IDLING, OPTI_SERVER_IDLE)"
    using assms(2)
    by (auto simp: opti_s_init_def http_server_init_def tcp_server_init_def Let_def zero_server_def
        clients_kept_def in_flight_def modes_of_def set_opti_def
        split: option.splits prod.splits if_splits)
  with assms(1) show ?thesis by (simp add: pipeline_inv_def between_rounds_def)
qed

text \<open>C9: No accepted client is lost on its way through the three servers, although each hands
  over through one slot that it does not check: after a successful start and any rounds, in
  which the scheduler runs the three tasks in any order, the accepted clients are those already
  made an instance or refused, in the order of acceptance, followed by the at most one client
  that is in a slot; and whoever is accepted is dealt with at the latest three rounds later.\<close>

theorem pipeline_keeps_clients:
  assumes "opti_s_init i zero_server = (SUCCESS, s)" and "in_tcp_task i"
    and "list_all round_ok rs" and "list_all round_ok qs" and "length qs = 3"
  shows "accepted (run_rounds rs s) =
           map fst (outcomes (run_rounds rs s)) @ in_flight (run_rounds rs s) \<and>
         length (in_flight (run_rounds rs s)) \<le> 1 \<and>
         (\<exists>later. map fst (outcomes (run_rounds (rs @ qs) s)) = accepted (run_rounds rs s) @ later)"
proof -
  have inv: "pipeline_inv (run_rounds rs s)"
    by (rule pipeline_rounds [OF pipeline_start [OF assms(1,2)] assms(3)])
  with clients_dealt_with [OF inv assms(4)] in_flight_le [OF inv] assms(5) show ?thesis
    by (simp add: accepted_split)
qed

section \<open>When accepting fails\<close>

definition accept_fails :: "round_input \<Rightarrow> bool" where
  "accept_fails i \<longleftrightarrow> in_accept i = AcceptFails \<or> (\<exists>fd. in_accept i = AcceptsBlocking fd)"

definition closing :: "round_input \<Rightarrow> server \<Rightarrow> bool" where
  "closing i s \<longleftrightarrow> tcp_state (tcp s) = TCP_SERVER_ERROR \<or>
     tcp_state (tcp s) = TCP_SERVER_LISTENING \<and> accept_fails i"

lemma closing_step:
  assumes "clients_kept s" and "may_run t (modes_of s)" and "closing i s"
  shows "accepted (run_server_task i t s) = accepted s \<and>
         tcp_state (tcp (run_server_task i t s)) =
           (if t = TcpTask then TCP_SERVER_ERROR else tcp_state (tcp s))"
proof (cases t)
  case TcpTask
  with assms show ?thesis
    by (cases "in_accept i")
      (auto simp: closing_def accept_fails_def clients_kept_def pipeline_defs)
next
  case HttpTask
  with assms show ?thesis
    by (cases "http_state (http s)") (simp_all add: clients_kept_def modes_of_def pipeline_defs)
next
  case OptiTask
  with assms show ?thesis
    by (cases "opti_state (opti s)")
      (simp_all add: clients_kept_def modes_of_def pipeline_defs split: option.split)
qed

lemma closing_steps:
  assumes "clients_kept s" and "input_ok i" and "round_checks n done order (modes_of s)"
    and "closing i s"
  shows "accepted (fold (run_server_task i) order s) = accepted s \<and>
         (TcpTask \<in> set order \<or> tcp_state (tcp s) = TCP_SERVER_ERROR \<longrightarrow>
            tcp_state (tcp (fold (run_server_task i) order s)) = TCP_SERVER_ERROR)"
  using assms
proof (induction order arbitrary: s "done")
  case Nil
  then show ?case by simp
next
  case (Cons t ts)
  let ?s = "run_server_task i t s"
  from Cons.prems have may: "may_run t (modes_of s)" by simp
  with Cons.prems have step: "task_step_ok t s ?s" by (simp add: task_step)
  then obtain d where "(modes_of ?s, d) \<in> set (next_modes t (modes_of s))"
    by (auto simp: task_step_ok_def)
  with Cons.prems(3) have checks: "round_checks n (done \<or> d) ts (modes_of ?s)"
    by (auto simp: list_all_iff)
  note c = closing_step [OF Cons.prems(1) may Cons.prems(4)]
  then have "closing i ?s" using Cons.prems(4) by (auto simp: closing_def)
  with Cons.IH [OF _ Cons.prems(2) checks] step c show ?case
    by (auto simp: task_step_ok_def split: if_splits)
qed

lemma closing_round:
  assumes "pipeline_inv s" and "round_ok r" and "closing (snd r) s"
  shows "accepted (run_round r s) = accepted s \<and>
         tcp_state (tcp (run_round r s)) = TCP_SERVER_ERROR"
proof -
  have "round_checks (rounds_left (modes_of s)) False (fst r) (modes_of s)"
    using assms all_rounds_check by (auto simp: pipeline_inv_def round_ok_def list_all_iff)
  moreover have "TcpTask \<in> set (fst r)"
    using assms by (auto simp: round_ok_def round_orders_def)
  ultimately show ?thesis
    using closing_steps [of s "snd r" "rounds_left (modes_of s)" False "fst r"] assms
    by (auto simp: pipeline_inv_def round_ok_def run_round_def)
qed

lemma closed_rounds:
  assumes "pipeline_inv s" and "list_all round_ok qs" and "tcp_state (tcp s) = TCP_SERVER_ERROR"
  shows "accepted (run_rounds qs s) = accepted s"
  using assms
proof (induction qs arbitrary: s)
  case (Cons q qs)
  then have "pipeline_inv s" "round_ok q" "closing (snd q) s" by (simp_all add: closing_def)
  with closing_round [of s q] pipeline_round(1) [of s q] Cons show ?case by simp
qed simp

text \<open>A single failing \<open>accept\<close> ends the service: when the TCP server is listening and
  \<open>accept\<close> fails for any reason but that nothing is pending (too many open files, a connection
  aborted by its client, ...), or the new socket cannot be made non-blocking, then no client is
  accepted in any later round, whatever happens. \<open>TCP_SERVER_ERROR\<close> has no way out, and the
  retry machinery of the HTTP server is never told.\<close>

theorem accept_failure_is_final:
  assumes "opti_s_init i zero_server = (SUCCESS, s)" and "in_tcp_task i"
    and "list_all round_ok rs" and "tcp_state (tcp (run_rounds rs s)) = TCP_SERVER_LISTENING"
    and "round_ok r" and "accept_fails (snd r)" and "list_all round_ok qs"
  shows "accepted (run_rounds (rs @ r # qs) s) = accepted (run_rounds rs s)"
proof -
  let ?s = "run_rounds rs s"
  have inv: "pipeline_inv ?s"
    by (rule pipeline_rounds [OF pipeline_start [OF assms(1,2)] assms(3)])
  from assms(4,6) have "closing (snd r) ?s" by (simp add: closing_def)
  from closing_round [OF inv assms(5) this]
    closed_rounds [OF pipeline_round(1) [OF inv assms(5)] assms(7)]
  show ?thesis by simp
qed

section \<open>After a failed start\<close>

definition unserved :: "server \<Rightarrow> bool" where
  "unserved s \<longleftrightarrow> \<not> opti_task (opti s) \<and> (\<forall>c. (c, Served) \<notin> set (outcomes s))"

lemmas retry_defs = http_server_error_work_def http_server_retry_work_def http_server_dispose_def
  tcp_server_init_def

lemma unserved_step: "unserved s \<Longrightarrow> unserved (run_server_task i t s)"
  by (cases t; cases "tcp_state (tcp s)"; cases "http_state (http s)")
    (simp_all add: unserved_def pipeline_defs retry_defs Let_def
      split: accept_result.split http_server_error_state.split option.split prod.split)

lemma unserved_rounds: "unserved s \<Longrightarrow> unserved (run_rounds rs s)"
proof (induction rs arbitrary: s)
  case (Cons r rs)
  have "unserved (fold (run_server_task (snd r)) ts s)" for ts
    using Cons.prems by (induction ts arbitrary: s) (simp_all add: unserved_step)
  with Cons show ?case by (simp add: run_round_def)
qed simp

lemma failed_start:
  assumes "opti_s_init i zero_server = (r, s)" and "r \<noteq> SUCCESS"
  shows "unserved s"
  using assms
  by (auto simp: opti_s_init_def http_server_init_def retry_defs Let_def zero_server_def
      unserved_def set_opti_def split: option.splits prod.splits if_splits)

text \<open>The retry after a failed start revives only the front: \<open>main\<close> keeps running the
  scheduler when \<open>opti_s_init\<close> fails, and the HTTP server may bind its port in a later retry and
  accept clients, but the server task was never created, so in no number of rounds is any
  client ever served.\<close>

theorem failed_start_serves_nobody:
  assumes "opti_s_init i zero_server = (r, s)" and "r \<noteq> SUCCESS"
  shows "\<forall>c. (c, Served) \<notin> set (outcomes (run_rounds rs s))"
  using unserved_rounds [OF failed_start [OF assms]] by (simp add: unserved_def)

section \<open>Concrete runs\<close>

definition start_input :: init_input where
  "start_input = \<lparr> in_port = None, in_bind = Some [BindFails 3, Listens 4], in_tcp_task = True,
     in_retry_mem = True, in_http_task = True, in_time = 0, in_list = True, in_opti_task = True,
     in_meter_store = SUCCESS, in_cache = SUCCESS \<rparr>"

definition started :: server where
  "started = snd (opti_s_init start_input zero_server)"

definition round_with :: "accept_result \<Rightarrow> server_task list \<times> round_input" where
  "round_with a = ([HttpTask, OptiTask, TcpTask], \<lparr> in_accept = a, in_conn = SUCCESS,
     in_instance = SUCCESS, in_now = 40000, in_addrs = Some [Listens 4], in_task = True \<rparr>)"

definition two_clients :: "(server_task list \<times> round_input) list" where
  "two_clients = map round_with [Accepts 5, NothingPending, NothingPending, Accepts 6]"

lemma started_ok: "opti_s_init start_input zero_server = (SUCCESS, started)"
  by code_simp

lemma round_with_ok: "(\<forall>fd. a = Accepts fd \<longrightarrow> 0 \<le> fd) \<Longrightarrow> round_ok (round_with a)"
  by (simp add: round_ok_def round_with_def input_ok_def round_orders_def)

lemma two_clients_ok: "list_all round_ok two_clients"
  by (simp add: two_clients_def round_with_ok)

lemmas start_defs = start_input_def opti_s_init_def http_server_init_def tcp_server_init_def
  zero_server_def set_opti_def http_server_dispose_def tcp_server_dispose_def

lemma started_simp:
  "accepted started = [] \<and> tcp_state (tcp started) = TCP_SERVER_LISTENING"
  by (simp add: started_def start_defs)

lemma two_clients_accepted: "accepted (run_rounds two_clients started) = [5, 6]"
  by (simp add: two_clients_def round_with_def started_def start_defs run_round_def pipeline_defs)

theorem pipeline_keeps_clients_witness:
  "\<exists>later. map fst (outcomes (run_rounds (two_clients @ replicate 3 (round_with NothingPending))
     started)) = [5, 6] @ later"
proof -
  have task: "in_tcp_task start_input" by (simp add: start_input_def)
  have quiet: "list_all round_ok (replicate 3 (round_with NothingPending))"
    by (simp add: list_all_iff round_with_ok)
  note pipeline_keeps_clients [OF started_ok task two_clients_ok quiet length_replicate]
  then show ?thesis by (elim conjE) (simp only: two_clients_accepted)
qed

theorem accept_failure_is_final_witness:
  "accepted (run_rounds ([] @ round_with AcceptFails # two_clients) started) = []"
proof -
  have "in_tcp_task start_input" by (simp add: start_input_def)
  moreover have "accept_fails (snd (round_with AcceptFails))"
    by (simp add: round_with_def accept_fails_def)
  ultimately show ?thesis
    using accept_failure_is_final [OF started_ok, of "[]" "round_with AcceptFails" two_clients]
    by (simp add: two_clients_ok round_with_ok started_simp)
qed

definition failed_input :: init_input where
  "failed_input = start_input\<lparr> in_bind := Some [BindFails 3] \<rparr>"

lemma failed_ok: "opti_s_init failed_input zero_server =
    (ERR_IO, snd (opti_s_init failed_input zero_server))"
  by (simp add: failed_input_def start_defs)

definition late_client :: "(server_task list \<times> round_input) list" where
  "late_client = map round_with [NothingPending, Accepts 6, NothingPending]"

lemma late_client_accepted:
  "accepted (run_rounds late_client (snd (opti_s_init failed_input zero_server))) = [6]"
  by (simp add: late_client_def round_with_def failed_input_def start_defs run_round_def
      pipeline_defs http_server_error_work_def http_server_retry_work_def)

text \<open>The port is taken at the start and free 40 seconds later: a client is accepted, and stays
  unserved.\<close>

theorem failed_start_serves_nobody_witness:
  "accepted (run_rounds late_client (snd (opti_s_init failed_input zero_server))) = [6] \<and>
   (\<forall>c. (c, Served) \<notin> set (outcomes (run_rounds late_client
      (snd (opti_s_init failed_input zero_server)))))"
  using failed_start_serves_nobody [OF failed_ok, of late_client] late_client_accepted by simp

end
