(* ===== verification/Sql_Tables.thy ===== *)
theory Sql_Tables
  imports Prelude
begin

text \<open>
  The parts of SQLite that the caches rely on, as a model of their documented meaning. A connection
  sees tables and remembers what is committed; statements outside a transaction commit themselves.
  A keyed table is a list of rows with an \<open>INSERT ... ON CONFLICT(key) DO UPDATE\<close>, and the locale
  \<open>keyed_table\<close> says what such an operation owes its clients: it is an update of the finite map
  from keys to rows, and it keeps the keys distinct. The consequences for batches of rows are
  proved once, inside the locale.
\<close>

section \<open>Transactions\<close>

record 't sql_conn =
  sc_tables :: 't
  sc_saved :: 't
  sc_in_tx :: bool

text \<open>\<open>BEGIN\<close> inside a transaction is an error that changes nothing; a \<open>COMMIT\<close> that fails leaves
  the transaction open.\<close>

definition tx_begin :: "bool \<Rightarrow> 't sql_conn \<Rightarrow> 't sql_conn" where
  "tx_begin ok c = (if ok \<and> \<not> sc_in_tx c then c\<lparr>sc_in_tx := True, sc_saved := sc_tables c\<rparr> else c)"

definition tx_commit :: "bool \<Rightarrow> 't sql_conn \<Rightarrow> 't sql_conn" where
  "tx_commit ok c = (if ok then c\<lparr>sc_in_tx := False, sc_saved := sc_tables c\<rparr> else c)"

definition tx_rollback :: "'t sql_conn \<Rightarrow> 't sql_conn" where
  "tx_rollback c = (if sc_in_tx c then c\<lparr>sc_in_tx := False, sc_tables := sc_saved c\<rparr> else c)"

definition tx_write :: "('t \<Rightarrow> 't) \<Rightarrow> 't sql_conn \<Rightarrow> 't sql_conn" where
  "tx_write f c =
     (if sc_in_tx c then c\<lparr>sc_tables := f (sc_tables c)\<rparr>
      else c\<lparr>sc_tables := f (sc_tables c), sc_saved := f (sc_tables c)\<rparr>)"

text \<open>A connection at rest: no transaction is open and everything seen is committed.\<close>

definition sql_rest :: "'t \<Rightarrow> 't sql_conn" where
  "sql_rest t = \<lparr>sc_tables = t, sc_saved = t, sc_in_tx = False\<rparr>"

named_theorems tx_simps \<comment> \<open>the transaction statements on a connection at rest or in a transaction\<close>

lemma tx_rest [tx_simps]:
  "tx_write f (sql_rest t) = sql_rest (f t)"
  "tx_begin True (sql_rest t) = (sql_rest t)\<lparr>sc_in_tx := True\<rparr>"
  "tx_begin False c = c"
  "tx_commit ok (sql_rest t) = sql_rest t"
  "tx_rollback (sql_rest t) = sql_rest t"
  "sc_tables (sql_rest t) = t" "sc_in_tx (sql_rest t) = False" "sc_saved (sql_rest t) = t"
  by (simp_all add: sql_rest_def tx_write_def tx_begin_def tx_commit_def tx_rollback_def)

lemma tx_open [tx_simps]:
  "sc_in_tx c \<Longrightarrow> tx_write f c = c\<lparr>sc_tables := f (sc_tables c)\<rparr>"
  "sc_in_tx c \<Longrightarrow> tx_begin ok c = c"
  "tx_commit True c = sql_rest (sc_tables c)"
  "sc_in_tx c \<Longrightarrow> tx_rollback c = sql_rest (sc_saved c)"
  by (simp_all add: sql_rest_def tx_write_def tx_begin_def tx_commit_def tx_rollback_def)

lemma tx_tables [simp]:
  "sc_tables (tx_write f c) = f (sc_tables c)"
  "sc_tables (tx_begin ok c) = sc_tables c"
  "sc_tables (tx_commit ok c) = sc_tables c"
  "sc_in_tx (tx_write f c) = sc_in_tx c"
  by (simp_all add: tx_write_def tx_begin_def tx_commit_def)

text \<open>An invariant of the tables that every write keeps holds of the tables seen and committed.\<close>

definition conn_all :: "('t \<Rightarrow> bool) \<Rightarrow> 't sql_conn \<Rightarrow> bool" where
  "conn_all P c \<longleftrightarrow> P (sc_tables c) \<and> P (sc_saved c)"

lemma conn_all_tx [intro]:
  "conn_all P c \<Longrightarrow> conn_all P (tx_begin ok c)"
  "conn_all P c \<Longrightarrow> conn_all P (tx_commit ok c)"
  "conn_all P c \<Longrightarrow> conn_all P (tx_rollback c)"
  "conn_all P c \<Longrightarrow> (\<And>t. P t \<Longrightarrow> P (f t)) \<Longrightarrow> conn_all P (tx_write f c)"
  by (simp_all add: conn_all_def tx_begin_def tx_commit_def tx_rollback_def tx_write_def)

section \<open>Keyed tables\<close>

text \<open>The row with a key.\<close>

definition row_at :: "('r \<Rightarrow> 'k) \<Rightarrow> 'r list \<Rightarrow> 'k \<Rightarrow> 'r option" where
  "row_at key rows k = List.find (\<lambda>r. key r = k) rows"

text \<open>The upsert: a row with the same key is replaced by \<open>upd old new\<close>, else the new one is added.\<close>

definition upsert :: "('r \<Rightarrow> 'k) \<Rightarrow> ('r \<Rightarrow> 'r \<Rightarrow> 'r) \<Rightarrow> 'r \<Rightarrow> 'r list \<Rightarrow> 'r list" where
  "upsert key upd r rows =
     (if \<exists>x \<in> set rows. key x = key r
      then map (\<lambda>x. if key x = key r then upd x r else x) rows
      else rows @ [r])"

definition keys_distinct :: "('r \<Rightarrow> 'k) \<Rightarrow> 'r list \<Rightarrow> bool" where
  "keys_distinct key rows \<longleftrightarrow> distinct (map key rows)"

lemma row_at_simps [simp]:
  "row_at key [] k = None"
  "row_at key (r # rows) k = (if key r = k then Some r else row_at key rows k)"
  by (simp_all add: row_at_def)

lemma row_at_append:
  "row_at key (xs @ ys) k = (case row_at key xs k of None \<Rightarrow> row_at key ys k | Some r \<Rightarrow> Some r)"
  by (induction xs) auto

lemma row_at_None: "row_at key rows k = None \<longleftrightarrow> k \<notin> key ` set rows"
  by (induction rows) auto

lemma row_at_SomeD: "row_at key rows k = Some r \<Longrightarrow> r \<in> set rows \<and> key r = k"
  by (induction rows) (auto split: if_splits)

lemma row_at_distinct:
  "keys_distinct key rows \<Longrightarrow> r \<in> set rows \<Longrightarrow> row_at key rows (key r) = Some r"
  by (induction rows) (auto simp: keys_distinct_def)

lemma keys_distinct_filter: "keys_distinct key rows \<Longrightarrow> keys_distinct key (filter P rows)"
  by (simp add: keys_distinct_def distinct_map inj_on_def)

lemma row_at_filter:
  assumes "keys_distinct key rows"
  shows "row_at key (filter P rows) k =
    (case row_at key rows k of None \<Rightarrow> None | Some r \<Rightarrow> if P r then Some r else None)"
  using assms
proof (induction rows)
  case (Cons r rows)
  then have rows: "keys_distinct key rows" by (simp add: keys_distinct_def)
  show ?case
  proof (cases "key r = k")
    case True
    with Cons.prems have "row_at key rows k = None"
      by (auto simp: keys_distinct_def row_at_None)
    with True Cons.IH [OF rows] show ?thesis by simp
  next
    case False
    with Cons.IH [OF rows] show ?thesis by simp
  qed
qed simp

lemma map_key_upsert:
  assumes "\<And>x. upd x r = r \<or> key (upd x r) = key x"
  shows "map key (upsert key upd r rows) =
    (if key r \<in> key ` set rows then map key rows else map key rows @ [key r])"
proof -
  have "key \<circ> (\<lambda>x. if key x = key r then upd x r else x) = key"
  proof (rule ext)
    show "(key \<circ> (\<lambda>x. if key x = key r then upd x r else x)) x = key x" for x
      using assms [of x] by auto
  qed
  moreover have "key r \<in> key ` set rows \<longleftrightarrow> (\<exists>x \<in> set rows. key x = key r)"
    by (simp add: image_iff eq_commute)
  ultimately show ?thesis by (simp add: upsert_def)
qed

text \<open>The contract of an upsert whose rows carry nothing but what is inserted.\<close>

locale keyed_table =
  fixes key :: "'r \<Rightarrow> 'k" and put :: "'r \<Rightarrow> 'r list \<Rightarrow> 'r list"
  assumes row_at_put: "row_at key (put r rows) k = (if k = key r then Some r else row_at key rows k)"
    and keys_put: "keys_distinct key rows \<Longrightarrow> keys_distinct key (put r rows)"
begin

text \<open>A batch is an override of the map; of two rows with the same key the later wins.\<close>

lemma row_at_batch:
  "row_at key (fold put rs rows) k =
     (case row_at key (rev rs) k of Some r \<Rightarrow> Some r | None \<Rightarrow> row_at key rows k)"
  by (induction rs arbitrary: rows) (auto simp: row_at_put row_at_append split: option.split)

lemma keys_batch: "keys_distinct key rows \<Longrightarrow> keys_distinct key (fold put rs rows)"
  by (induction rs arbitrary: rows) (simp_all add: keys_put)

text \<open>Inserting a batch again changes nothing that a lookup can see.\<close>

lemma batch_idem: "row_at key (fold put rs (fold put rs rows)) = row_at key (fold put rs rows)"
  by (rule ext) (auto simp: row_at_batch split: option.split)

lemma in_batch:
  assumes "keys_distinct key rows"
  shows "r \<in> set (fold put rs rows) \<longleftrightarrow>
    row_at key (rev rs) (key r) = Some r \<or>
    row_at key (rev rs) (key r) = None \<and> row_at key rows (key r) = Some r"
proof -
  have "r \<in> set (fold put rs rows) \<longleftrightarrow> row_at key (fold put rs rows) (key r) = Some r"
    using row_at_distinct [OF keys_batch [OF assms]] row_at_SomeD by metis
  then show ?thesis by (auto simp: row_at_batch split: option.split)
qed

end

lemma row_at_replace:
  "row_at key (map (\<lambda>x. if key x = key r then r else x) rows) k =
     (case row_at key rows k of None \<Rightarrow> None | Some x \<Rightarrow> Some (if k = key r then r else x))"
  by (induction rows) auto

lemma row_at_upsert_replace:
  "row_at key (upsert key (\<lambda>x y. y) r rows) k = (if k = key r then Some r else row_at key rows k)"
proof (cases "\<exists>x \<in> set rows. key x = key r")
  case True
  then have "key r \<in> key ` set rows" by (metis imageI)
  then obtain y where "row_at key rows (key r) = Some y"
    using row_at_None [of key rows "key r"] by (cases "row_at key rows (key r)") simp_all
  with True show ?thesis by (simp add: upsert_def row_at_replace split: option.split)
next
  case False
  then have "key r \<notin> key ` set rows" by force
  then have "row_at key rows (key r) = None" by (simp only: row_at_None not_False_eq_True)
  with False show ?thesis by (auto simp: upsert_def row_at_append split: option.split)
qed

lemma keys_upsert_replace:
  "keys_distinct key rows \<Longrightarrow> keys_distinct key (upsert key (\<lambda>x y. y) r rows)"
  by (auto simp: keys_distinct_def map_key_upsert)

end
