(* ===== verification/Cache_Db.thy ===== *)
theory Cache_Db
  imports Sql_Tables Energy_Types Meter_Store "HOL-Library.Multiset"
begin

text \<open>
  The cache database of spot prices and weather (\<open>optimizer/src/sqlite_helpers.c\<close>), which the
  optimizer writes and both programs read. The state is the tables \<open>electricity_spots\<close>, \<open>facility\<close>
  and \<open>weather_values\<close> behind a connection; every failing call of SQLite and the time are inputs.
  The order in which SQLite scans a table is not specified and is the parameter \<open>scan\<close>, a
  rearrangement of the rows. The theorems show that the spot table refines a map from times to
  prices, which reads return in order, and that the tables keep their integrity.
\<close>

section \<open>State\<close>

record spot_row =
  sr_class :: spot_price_class
  sr_currency :: spot_currency
  sr_price :: spot_price

definition spot_key :: "spot_row \<Rightarrow> int \<times> spot_price_class \<times> spot_currency" where
  "spot_key r = (sp_time_start (sr_price r), sr_class r, sr_currency r)"

record facility_row =
  fr_id :: int
  fr_latitude :: dbl
  fr_longitude :: dbl
  fr_panel_tilt :: int
  fr_panel_azimuth :: int
  fr_forecast :: bool
  fr_interval :: int
  fr_temperature_unit :: string
  fr_windspeed_unit :: string
  fr_precipitation_unit :: string
  fr_winddirection_unit :: string
  fr_radiation_unit :: string

definition facility_key :: "facility_row \<Rightarrow> dbl \<times> dbl \<times> int \<times> int \<times> bool" where
  "facility_key r =
     (fr_latitude r, fr_longitude r, fr_panel_tilt r, fr_panel_azimuth r, fr_forecast r)"

record weather_row =
  wr_facility :: int
  wr_values :: weather_values

definition weather_key :: "weather_row \<Rightarrow> int \<times> int" where
  "weather_key r = (wr_facility r, wv_timestamp (wr_values r))"

text \<open>\<open>ct_next_id\<close> is the next value of \<open>AUTOINCREMENT\<close>; an insert that becomes an update takes one
  too. \<open>ct_readings\<close> are the rows of \<open>meter_readings\<close> in the order of their ids.\<close>

record cache_tables =
  ct_spots :: "spot_row list"
  ct_facilities :: "facility_row list"
  ct_weather :: "weather_row list"
  ct_next_id :: int
  ct_readings :: "sqlval list list"

record sql_helper =
  sh_db :: "cache_tables sql_conn option"
  sh_locked :: bool

text \<open>What the calls of an operation return: \<open>ce_step\<close> and \<open>ce_prune\<close> by the number of the call,
  \<open>ce_rows\<close> the number of rows a select delivers before it fails, if it does. Some errors of SQLite roll
  the transaction back and others leave it open; \<open>ce_undone\<close> says which the failing statement does.\<close>

record cache_env =
  ce_prepare :: bool
  ce_facility :: bool
  ce_select :: bool
  ce_begin :: bool
  ce_step :: "nat \<Rightarrow> bool"
  ce_undone :: bool
  ce_commit :: bool
  ce_prune :: "nat \<Rightarrow> bool"
  ce_rows :: "nat option"
  ce_mem :: allocator
  ce_now :: int

text \<open>The connection after a statement that fails, and after \<open>COMMIT\<close>.\<close>

definition after_failure :: "cache_env \<Rightarrow> cache_tables sql_conn \<Rightarrow> cache_tables sql_conn" where
  "after_failure e c = (if ce_undone e then tx_rollback c else c)"

definition tx_end :: "cache_env \<Rightarrow> cache_tables sql_conn \<Rightarrow> cache_tables sql_conn" where
  "tx_end e c = (if ce_commit e then tx_commit True c else after_failure e c)"

section \<open>Opening\<close>

definition sql_helper_init :: "bool \<Rightarrow> sql_helper \<Rightarrow> status \<times> sql_helper" where
  "sql_helper_init mutex_ok h =
     (if mutex_ok then (SUCCESS, \<lparr>sh_db = None, sh_locked = False\<rparr>)
      else (ERR_FATAL, h\<lparr>sh_db := None\<rparr>))"

text \<open>\<open>t\<close> is the database in the file. A handle that could not be opened stays in the helper; that there is
  memory for the handle itself is assumed.\<close>

definition no_tables :: cache_tables where
  "no_tables = \<lparr>ct_spots = [], ct_facilities = [], ct_weather = [], ct_next_id = 1, ct_readings = []\<rparr>"

definition sql_helper_open :: "bool \<Rightarrow> cache_tables \<Rightarrow> sql_helper \<Rightarrow> status \<times> sql_helper" where
  "sql_helper_open open_ok t h =
     (if open_ok then (SUCCESS, h\<lparr>sh_db := Some (sql_rest t)\<rparr>)
      else (ERR_FATAL, h\<lparr>sh_db := Some (sql_rest no_tables)\<rparr>))"

definition sql_helper_close :: "sql_helper \<Rightarrow> sql_helper" where
  "sql_helper_close h = h\<lparr>sh_db := None\<rparr>"

section \<open>Pruning\<close>

definition retention_days :: int where
  "retention_days = 30"

definition prune_statement :: "nat \<Rightarrow> int \<Rightarrow> cache_tables \<Rightarrow> cache_tables" where
  "prune_statement k cutoff t =
     (if k = 0 then t\<lparr>ct_spots := filter (\<lambda>r. cutoff \<le> sp_time_start (sr_price r)) (ct_spots t)\<rparr>
      else if k = 1
      then t\<lparr>ct_weather := filter (\<lambda>r. cutoff \<le> wv_timestamp (wr_values r)) (ct_weather t)\<rparr>
      else t\<lparr>ct_facilities :=
              filter (\<lambda>f. fr_id f \<in> wr_facility ` set (ct_weather t)) (ct_facilities t)\<rparr>)"

text \<open>The loop over the three statements: the first that fails ends it.\<close>

fun prune_loop ::
  "(nat \<Rightarrow> bool) \<Rightarrow> int \<Rightarrow> nat list \<Rightarrow> cache_tables sql_conn \<Rightarrow> status \<times> cache_tables sql_conn" where
  "prune_loop ok cutoff [] c = (SUCCESS, c)"
| "prune_loop ok cutoff (k # ks) c =
     (if \<not> ok k then (ERR_FATAL, c)
      else prune_loop ok cutoff ks (tx_write (prune_statement k cutoff) c))"

definition sql_helper_prune_cache_locked ::
  "cache_env \<Rightarrow> cache_tables sql_conn \<Rightarrow> status \<times> cache_tables sql_conn" where
  "sql_helper_prune_cache_locked e c =
     (case prune_loop (ce_prune e) (ce_now e - retention_days * 86400) [0, 1, 2] c of
        (s, c1) \<Rightarrow> (s, if s = SUCCESS then c1 else after_failure e c1))"

section \<open>Spot prices\<close>

definition put_spot :: "spot_row \<Rightarrow> spot_row list \<Rightarrow> spot_row list" where
  "put_spot = upsert spot_key (\<lambda>old new. new)"

definition spot_row_of :: "electricity_spots \<Rightarrow> spot_price \<Rightarrow> spot_row" where
  "spot_row_of S p =
     \<lparr>sr_class = es_price_class S, sr_currency = es_currency S, sr_price = p\<rparr>"

text \<open>A step that fails ends the loop; nobody rolls the transaction back.\<close>

fun insert_spots_loop ::
  "(nat \<Rightarrow> bool) \<Rightarrow> nat \<Rightarrow> spot_row list \<Rightarrow> cache_tables sql_conn \<Rightarrow> bool \<times> cache_tables sql_conn" where
  "insert_spots_loop ok i [] c = (True, c)"
| "insert_spots_loop ok i (r # rs) c =
     (if \<not> ok i then (False, c)
      else insert_spots_loop ok (i + 1) rs
             (tx_write (\<lambda>t. t\<lparr>ct_spots := put_spot r (ct_spots t)\<rparr>) c))"

text \<open>\<open>prices_null\<close>: the array is NULL.\<close>

definition sql_helper_insert_spots ::
  "cache_env \<Rightarrow> bool \<Rightarrow> electricity_spots \<Rightarrow> sql_helper \<Rightarrow> status \<times> sql_helper" where
  "sql_helper_insert_spots e prices_null S h =
     (case sh_db h of
        None \<Rightarrow> (ERR_INVALID_ARG, h)
      | Some c \<Rightarrow>
          if prices_null then (ERR_INVALID_ARG, h)
          else if \<not> ce_prepare e then (ERR_FATAL, h)
          else (case insert_spots_loop (ce_step e) 0 (map (spot_row_of S) (es_prices S))
                       (tx_begin (ce_begin e) c) of
              (False, c1) \<Rightarrow> (ERR_FATAL, h\<lparr>sh_db := Some (after_failure e c1)\<rparr>)
            | (True, c1) \<Rightarrow>
                (case sql_helper_prune_cache_locked e (tx_end e c1) of
                   (s, c2) \<Rightarrow> (s, h\<lparr>sh_db := Some c2\<rparr>))))"

text \<open>The rows a select delivers until it ends or fails, and the array that grows by doubling.\<close>

definition delivered :: "nat option \<Rightarrow> 'a list \<Rightarrow> 'a list" where
  "delivered n rows = (case n of None \<Rightarrow> rows | Some k \<Rightarrow> take k rows)"

fun read_rows :: "allocator \<Rightarrow> nat \<Rightarrow> nat \<Rightarrow> 'a list \<Rightarrow> 'a list \<Rightarrow> bool \<times> 'a list" where
  "read_rows mem elem capacity [] acc = (True, acc)"
| "read_rows mem elem capacity (x # xs) acc =
     (if length acc < capacity then read_rows mem elem capacity xs (acc @ [x])
      else if mem (elem * (capacity * 2)) then read_rows mem elem (capacity * 2) xs (acc @ [x])
      else (False, acc))"

definition select_spots ::
  "spot_price_class \<Rightarrow> spot_currency \<Rightarrow> int \<Rightarrow> int \<Rightarrow> cache_tables \<Rightarrow> spot_price list" where
  "select_spots cl cu t0 t1 t =
     sort_key sp_time_start (map sr_price (filter (\<lambda>r. sr_class r = cl \<and> sr_currency r = cu \<and>
        t0 \<le> sp_time_start (sr_price r) \<and> sp_time_start (sr_price r) < t1) (ct_spots t)))"

definition sizeof_spot_price :: nat where
  "sizeof_spot_price = 24"

text \<open>The struct is filled in place: fields that the query does not know keep the caller's values.\<close>

definition sql_helper_read_spots ::
  "cache_env \<Rightarrow> electricity_spots \<Rightarrow> spot_price_class \<Rightarrow> spot_currency \<Rightarrow> int \<Rightarrow> int \<Rightarrow> sql_helper
   \<Rightarrow> status \<times> electricity_spots" where
  "sql_helper_read_spots e out cl cu t0 t1 h =
     (case sh_db h of
        None \<Rightarrow> (ERR_INVALID_ARG, out)
      | Some c \<Rightarrow>
          if \<not> ce_prepare e then (ERR_FATAL, out)
          else if \<not> ce_mem e (sizeof_spot_price * 96) then (ERR_NO_MEMORY, out\<lparr>es_prices := []\<rparr>)
          else (case read_rows (ce_mem e) sizeof_spot_price 96
                       (delivered (ce_rows e) (select_spots cl cu t0 t1 (sc_tables c))) [] of
              (False, ps) \<Rightarrow> (ERR_NO_MEMORY, out\<lparr>es_prices := ps\<rparr>)
            | (True, ps) \<Rightarrow>
                (SUCCESS, out\<lparr>es_prices := ps, es_price_class := cl, es_currency := cu\<rparr>)))"

section \<open>Weather\<close>

definition text_or_empty :: "string option \<Rightarrow> string" where
  "text_or_empty u = (case u of None \<Rightarrow> [] | Some s \<Rightarrow> cstr s)"

definition facility_row_of :: "int \<Rightarrow> weather \<Rightarrow> bool \<Rightarrow> facility_row" where
  "facility_row_of fid W forecast =
     \<lparr>fr_id = fid, fr_latitude = we_latitude W, fr_longitude = we_longitude W,
      fr_panel_tilt = uint (we_panel_tilt W), fr_panel_azimuth = uint (we_panel_azimuth W),
      fr_forecast = forecast, fr_interval = we_update_interval W,
      fr_temperature_unit = text_or_empty (we_temperature_unit W),
      fr_windspeed_unit = text_or_empty (we_windspeed_unit W),
      fr_precipitation_unit = text_or_empty (we_precipitation_unit W),
      fr_winddirection_unit = text_or_empty (we_winddirection_unit W),
      fr_radiation_unit = text_or_empty (we_radiation_unit W)\<rparr>"

text \<open>On a conflict the row keeps its key and its id.\<close>

definition update_facility :: "facility_row \<Rightarrow> facility_row \<Rightarrow> facility_row" where
  "update_facility old new = new\<lparr>fr_id := fr_id old\<rparr>"

definition insert_facility :: "weather \<Rightarrow> bool \<Rightarrow> cache_tables \<Rightarrow> cache_tables" where
  "insert_facility W forecast t =
     (let r = facility_row_of (ct_next_id t) W forecast
      in t\<lparr>ct_facilities := upsert facility_key update_facility r (ct_facilities t),
           ct_next_id := ct_next_id t + 1\<rparr>)"

definition close_to :: "dbl \<Rightarrow> dbl \<Rightarrow> bool" where
  "close_to x y \<longleftrightarrow> \<bar>x - y\<bar> < 1 / 10000"

definition same_place :: "dbl \<Rightarrow> dbl \<Rightarrow> facility_row \<Rightarrow> bool" where
  "same_place lat lon f \<longleftrightarrow> close_to (fr_latitude f) lat \<and> close_to (fr_longitude f) lon"

text \<open>The id that is selected after the insert: of the first facility in the scan that is within
  0.0001 degrees and has the same panel.\<close>

definition find_facility_id ::
  "(facility_row list \<Rightarrow> facility_row list) \<Rightarrow> weather \<Rightarrow> bool \<Rightarrow> cache_tables \<Rightarrow> int option" where
  "find_facility_id scan W forecast t =
     map_option fr_id (List.find (\<lambda>f. same_place (we_latitude W) (we_longitude W) f \<and>
        fr_panel_tilt f = uint (we_panel_tilt W) \<and> fr_panel_azimuth f = uint (we_panel_azimuth W) \<and>
        fr_forecast f = forecast) (scan (ct_facilities t)))"

definition sql_helper_get_or_create_facility ::
  "cache_env \<Rightarrow> (facility_row list \<Rightarrow> facility_row list) \<Rightarrow> weather \<Rightarrow> bool \<Rightarrow> sql_helper
   \<Rightarrow> int result \<times> sql_helper" where
  "sql_helper_get_or_create_facility e scan W forecast h =
     (case sh_db h of
        None \<Rightarrow> (Inl ERR_INVALID_ARG, h)
      | Some c \<Rightarrow>
          if \<not> ce_facility e then (Inl ERR_FATAL, h)
          else (let c1 = tx_write (insert_facility W forecast) c
                in if \<not> ce_select e then (Inl ERR_FATAL, h\<lparr>sh_db := Some c1\<rparr>)
                   else case find_facility_id scan W forecast (sc_tables c1) of
                     None \<Rightarrow> (Inl ERR_NOT_FOUND, h\<lparr>sh_db := Some c1\<rparr>)
                   | Some fid \<Rightarrow> (Inr fid, h\<lparr>sh_db := Some c1\<rparr>)))"

definition put_weather :: "weather_row \<Rightarrow> weather_row list \<Rightarrow> weather_row list" where
  "put_weather = upsert weather_key (\<lambda>old new. new)"

text \<open>The schema switches the foreign keys on: a row whose facility is not there is refused.\<close>

definition facility_ids :: "cache_tables \<Rightarrow> int set" where
  "facility_ids t = fr_id ` set (ct_facilities t)"

fun insert_weather_loop ::
  "(nat \<Rightarrow> bool) \<Rightarrow> nat \<Rightarrow> weather_row list \<Rightarrow> cache_tables sql_conn \<Rightarrow> bool \<times> cache_tables sql_conn" where
  "insert_weather_loop ok i [] c = (True, c)"
| "insert_weather_loop ok i (r # rs) c =
     (if \<not> ok i \<or> wr_facility r \<notin> facility_ids (sc_tables c) then (False, c)
      else insert_weather_loop ok (i + 1) rs
             (tx_write (\<lambda>t. t\<lparr>ct_weather := put_weather r (ct_weather t)\<rparr>) c))"

text \<open>The mutex is given back between the facility and its values.\<close>

definition insert_weather_values ::
  "cache_env \<Rightarrow> int \<Rightarrow> weather \<Rightarrow> sql_helper \<Rightarrow> status \<times> sql_helper" where
  "insert_weather_values e fid W h =
     (case sh_db h of
        None \<Rightarrow> (ERR_INVALID_ARG, h)
      | Some c \<Rightarrow>
          if \<not> ce_prepare e then (ERR_FATAL, h)
          else (case insert_weather_loop (ce_step e) 0
                       (map (\<lambda>v. \<lparr>wr_facility = fid, wr_values = v\<rparr>) (we_values W))
                       (tx_begin (ce_begin e) c) of
              (False, c1) \<Rightarrow> (ERR_FATAL, h\<lparr>sh_db := Some (tx_rollback c1)\<rparr>)
            | (True, c1) \<Rightarrow>
                (case sql_helper_prune_cache_locked e (tx_end e c1) of
                   (s, c2) \<Rightarrow> (s, h\<lparr>sh_db := Some c2\<rparr>))))"

definition sql_helper_insert_weather ::
  "cache_env \<Rightarrow> (facility_row list \<Rightarrow> facility_row list) \<Rightarrow> weather \<Rightarrow> bool \<Rightarrow> sql_helper
   \<Rightarrow> status \<times> sql_helper" where
  "sql_helper_insert_weather e scan W forecast h =
     (if sh_db h = None \<or> we_values W = [] then (ERR_INVALID_ARG, h)
      else case sql_helper_get_or_create_facility e scan W forecast h of
        (Inl s, h1) \<Rightarrow> (s, h1)
      | (Inr fid, h1) \<Rightarrow> insert_weather_values e fid W h1)"

text \<open>The facility a read uses: near the place, the one with the requested panel before others.\<close>

definition pick_facility ::
  "(facility_row list \<Rightarrow> facility_row list) \<Rightarrow> dbl \<Rightarrow> dbl \<Rightarrow> int \<Rightarrow> int \<Rightarrow> bool \<Rightarrow> cache_tables
   \<Rightarrow> facility_row option" where
  "pick_facility scan lat lon tilt azimuth forecast t =
     (case sort_key (\<lambda>f. if fr_panel_tilt f = tilt \<and> fr_panel_azimuth f = azimuth then 0 else 1 :: int)
             (filter (\<lambda>f. same_place lat lon f \<and> fr_forecast f = forecast)
                (scan (ct_facilities t))) of
        [] \<Rightarrow> None | f # fs \<Rightarrow> Some f)"

definition select_weather :: "int \<Rightarrow> int \<Rightarrow> int \<Rightarrow> cache_tables \<Rightarrow> weather_values list" where
  "select_weather fid t0 t1 t =
     sort_key wv_timestamp (map wr_values (filter (\<lambda>r. wr_facility r = fid \<and>
        t0 \<le> wv_timestamp (wr_values r) \<and> wv_timestamp (wr_values r) < t1) (ct_weather t)))"

definition sizeof_weather_values :: nat where
  "sizeof_weather_values = 48"

definition weather_meta :: "facility_row \<Rightarrow> dbl \<Rightarrow> dbl \<Rightarrow> weather \<Rightarrow> weather" where
  "weather_meta f lat lon out = out\<lparr>we_update_interval := fr_interval f, we_latitude := lat,
     we_longitude := lon, we_panel_tilt := word_of_int (fr_panel_tilt f),
     we_panel_azimuth := word_of_int (fr_panel_azimuth f),
     we_temperature_unit := Some (fr_temperature_unit f),
     we_windspeed_unit := Some (fr_windspeed_unit f),
     we_precipitation_unit := Some (fr_precipitation_unit f),
     we_winddirection_unit := Some (fr_winddirection_unit f),
     we_radiation_unit := Some (fr_radiation_unit f)\<rparr>"

text \<open>No facility is no error: the count is 0. \<open>ce_facility\<close> is the first statement of the read.\<close>

definition sql_helper_read_weather ::
  "cache_env \<Rightarrow> (facility_row list \<Rightarrow> facility_row list) \<Rightarrow> weather \<Rightarrow> dbl \<Rightarrow> dbl \<Rightarrow> int \<Rightarrow> int
   \<Rightarrow> bool \<Rightarrow> int \<Rightarrow> int \<Rightarrow> sql_helper \<Rightarrow> status \<times> weather" where
  "sql_helper_read_weather e scan out lat lon tilt azimuth forecast t0 t1 h =
     (case sh_db h of
        None \<Rightarrow> (ERR_INVALID_ARG, out)
      | Some c \<Rightarrow>
          if \<not> ce_facility e then (ERR_FATAL, out)
          else (case pick_facility scan lat lon tilt azimuth forecast (sc_tables c) of
              None \<Rightarrow> (SUCCESS, out\<lparr>we_values := []\<rparr>)
            | Some f \<Rightarrow>
                (let out1 = weather_meta f lat lon out
                 in if \<not> ce_prepare e then (ERR_FATAL, out1)
                    else if \<not> ce_mem e (sizeof_weather_values * 128)
                    then (ERR_NO_MEMORY, out1\<lparr>we_values := []\<rparr>)
                    else (case read_rows (ce_mem e) sizeof_weather_values 128
                                 (delivered (ce_rows e)
                                    (select_weather (fr_id f) t0 t1 (sc_tables c))) [] of
                        (ok, vs) \<Rightarrow> (if ok then SUCCESS else ERR_NO_MEMORY,
                                     out1\<lparr>we_values := vs\<rparr>)))))"

section \<open>The loops\<close>

interpretation spots: keyed_table spot_key put_spot
  by unfold_locales (simp_all add: put_spot_def row_at_upsert_replace keys_upsert_replace)

interpretation weather_rows: keyed_table weather_key put_weather
  by unfold_locales (simp_all add: put_weather_def row_at_upsert_replace keys_upsert_replace)

lemma insert_spots_loop_ok:
  assumes "\<forall>i. ok i" and "sc_in_tx c"
  shows "insert_spots_loop ok i rs c =
    (True, c\<lparr>sc_tables := (sc_tables c)\<lparr>ct_spots := fold put_spot rs (ct_spots (sc_tables c))\<rparr>\<rparr>)"
  using assms by (induction rs arbitrary: i c) (simp_all add: tx_simps)

lemma facility_ids_weather [simp]: "facility_ids (t\<lparr>ct_weather := ws\<rparr>) = facility_ids t"
  by (simp add: facility_ids_def)

lemma insert_weather_loop_ok:
  assumes "\<forall>i. ok i" and "sc_in_tx c" and "\<forall>r \<in> set rs. wr_facility r \<in> facility_ids (sc_tables c)"
  shows "insert_weather_loop ok i rs c =
    (True, c\<lparr>sc_tables := (sc_tables c)\<lparr>ct_weather := fold put_weather rs (ct_weather (sc_tables c))\<rparr>\<rparr>)"
  using assms by (induction rs arbitrary: i c) (simp_all add: tx_simps)

text \<open>A row of a facility that is not there ends the loop at once.\<close>

lemma insert_weather_loop_refused:
  "wr_facility r \<notin> facility_ids (sc_tables c) \<Longrightarrow> insert_weather_loop ok i (r # rs) c = (False, c)"
  by simp

lemma read_rows_ok:
  assumes "\<forall>n. mem n"
  shows "read_rows mem elem cap xs acc = (True, acc @ xs)"
  using assms by (induction xs arbitrary: cap acc) simp_all

text \<open>Every call succeeds.\<close>

definition calls_ok :: "cache_env \<Rightarrow> bool" where
  "calls_ok e \<longleftrightarrow> ce_prepare e \<and> ce_facility e \<and> ce_select e \<and> ce_begin e \<and> (\<forall>i. ce_step e i) \<and>
     ce_commit e \<and> (\<forall>i. ce_prune e i) \<and> ce_rows e = None \<and> (\<forall>n. ce_mem e n)"

definition prune_tables :: "int \<Rightarrow> cache_tables \<Rightarrow> cache_tables" where
  "prune_tables cutoff t =
     prune_statement 2 cutoff (prune_statement 1 cutoff (prune_statement 0 cutoff t))"

definition cutoff_of :: "cache_env \<Rightarrow> int" where
  "cutoff_of e = ce_now e - retention_days * 86400"

lemma tx_end_ok [simp]: "ce_commit e \<Longrightarrow> tx_end e c = sql_rest (sc_tables c)"
  by (simp add: tx_end_def tx_simps)

lemma prune_ok:
  "calls_ok e \<Longrightarrow> sql_helper_prune_cache_locked e (sql_rest t) =
     (SUCCESS, sql_rest (prune_tables (cutoff_of e) t))"
  by (simp add: sql_helper_prune_cache_locked_def calls_ok_def prune_tables_def cutoff_of_def tx_simps)

lemma prune_tables_simps [simp]:
  "ct_spots (prune_tables c t) = filter (\<lambda>r. c \<le> sp_time_start (sr_price r)) (ct_spots t)"
  "ct_weather (prune_tables c t) = filter (\<lambda>r. c \<le> wv_timestamp (wr_values r)) (ct_weather t)"
  "ct_facilities (prune_tables c t) =
     filter (\<lambda>f. fr_id f \<in> wr_facility ` set (ct_weather (prune_tables c t))) (ct_facilities t)"
  by (simp_all add: prune_tables_def prune_statement_def)

section \<open>The spot table as a map\<close>

text \<open>What the table means: for a price class and a currency, a map from start times to prices.\<close>

definition spot_map :: "cache_tables \<Rightarrow> spot_price_class \<Rightarrow> spot_currency \<Rightarrow> int \<Rightarrow> spot_price option" where
  "spot_map t cl cu time = map_option sr_price (row_at spot_key (ct_spots t) (time, cl, cu))"

lemma row_at_spot_rows:
  "row_at spot_key (map (spot_row_of S) ps) (time, cl, cu) =
     (if cl = es_price_class S \<and> cu = es_currency S
      then map_option (spot_row_of S) (row_at sp_time_start ps time) else None)"
proof (induction ps)
  case (Cons p ps)
  have "spot_key (spot_row_of S p) = (sp_time_start p, es_price_class S, es_currency S)"
    by (simp add: spot_key_def spot_row_of_def)
  with Cons.IH show ?case by auto
qed simp

lemma insert_spots_tables:
  assumes "calls_ok e"
  shows "sql_helper_insert_spots e False S \<lparr>sh_db = Some (sql_rest t), sh_locked = l\<rparr> =
    (SUCCESS, \<lparr>sh_db = Some (sql_rest (prune_tables (cutoff_of e)
       (t\<lparr>ct_spots := fold put_spot (map (spot_row_of S) (es_prices S)) (ct_spots t)\<rparr>))),
       sh_locked = l\<rparr>)"
  using assms prune_ok [OF assms]
  by (simp add: sql_helper_insert_spots_def calls_ok_def insert_spots_loop_ok tx_simps)

lemma insert_spots_map:
  assumes "calls_ok e" and "keys_distinct spot_key (ct_spots t)"
  shows "\<exists>t'. sql_helper_insert_spots e False S \<lparr>sh_db = Some (sql_rest t), sh_locked = l\<rparr> =
      (SUCCESS, \<lparr>sh_db = Some (sql_rest t'), sh_locked = l\<rparr>) \<and>
    (\<forall>cl cu time. spot_map t' cl cu time =
       (if time < ce_now e - 30 * 86400 then None
        else if cl = es_price_class S \<and> cu = es_currency S
        then (case row_at sp_time_start (rev (es_prices S)) time of
                Some p \<Rightarrow> Some p | None \<Rightarrow> spot_map t cl cu time)
        else spot_map t cl cu time))"
proof -
  let ?rows = "fold put_spot (map (spot_row_of S) (es_prices S)) (ct_spots t)"
  let ?t = "prune_tables (cutoff_of e) (t\<lparr>ct_spots := ?rows\<rparr>)"
  have keys: "keys_distinct spot_key ?rows" by (rule spots.keys_batch [OF assms(2)])
  have at: "row_at spot_key ?rows (time, cl, cu) =
      (if cl = es_price_class S \<and> cu = es_currency S
       then (case row_at sp_time_start (rev (es_prices S)) time of
               Some p \<Rightarrow> Some (spot_row_of S p) | None \<Rightarrow> row_at spot_key (ct_spots t) (time, cl, cu))
       else row_at spot_key (ct_spots t) (time, cl, cu))" for cl cu time
    by (simp add: spots.row_at_batch rev_map row_at_spot_rows split: option.split)
  have start: "sp_time_start (sr_price r) = time"
    if "row_at spot_key ?rows (time, cl, cu) = Some r" for r time cl cu
    using row_at_SomeD [OF that] by (simp add: spot_key_def)
  have pruned: "spot_map ?t cl cu time = (if time < cutoff_of e then None
      else map_option sr_price (row_at spot_key ?rows (time, cl, cu)))" for cl cu time
    using start [of time cl cu]
    by (auto simp: spot_map_def row_at_filter [OF keys] split: option.split)
  have val: "map_option sr_price (case x of Some p \<Rightarrow> Some (spot_row_of S p) | None \<Rightarrow> y) =
      (case x of Some p \<Rightarrow> Some p | None \<Rightarrow> map_option sr_price y)" for x y
    by (cases x) (simp_all add: spot_row_of_def)
  have "spot_map ?t cl cu time =
       (if time < ce_now e - 30 * 86400 then None
        else if cl = es_price_class S \<and> cu = es_currency S
        then (case row_at sp_time_start (rev (es_prices S)) time of
                Some p \<Rightarrow> Some p | None \<Rightarrow> spot_map t cl cu time)
        else spot_map t cl cu time)" for cl cu time
    unfolding pruned unfolding at cutoff_of_def retention_days_def
    by (simp only: spot_map_def if_distrib [of "map_option sr_price"] val)
  with insert_spots_tables [OF assms(1)] show ?thesis by blast
qed

text \<open>The keys stay distinct.\<close>

lemma insert_spots_filled:
  assumes "calls_ok e" and "keys_distinct spot_key (ct_spots t)"
  shows "\<exists>t'. sql_helper_insert_spots e False S \<lparr>sh_db = Some (sql_rest t), sh_locked = l\<rparr> =
      (SUCCESS, \<lparr>sh_db = Some (sql_rest t'), sh_locked = l\<rparr>) \<and> keys_distinct spot_key (ct_spots t') \<and>
    (\<forall>cl cu time. spot_map t' cl cu time =
       (if time < ce_now e - 30 * 86400 then None
        else if cl = es_price_class S \<and> cu = es_currency S
        then (case row_at sp_time_start (rev (es_prices S)) time of
                Some p \<Rightarrow> Some p | None \<Rightarrow> spot_map t cl cu time)
        else spot_map t cl cu time))"
proof -
  from insert_spots_map [OF assms, of S l] obtain t' where
    t': "sql_helper_insert_spots e False S \<lparr>sh_db = Some (sql_rest t), sh_locked = l\<rparr> =
      (SUCCESS, \<lparr>sh_db = Some (sql_rest t'), sh_locked = l\<rparr>)"
    and m: "\<forall>cl cu time. spot_map t' cl cu time =
       (if time < ce_now e - 30 * 86400 then None
        else if cl = es_price_class S \<and> cu = es_currency S
        then (case row_at sp_time_start (rev (es_prices S)) time of
                Some p \<Rightarrow> Some p | None \<Rightarrow> spot_map t cl cu time)
        else spot_map t cl cu time)" by blast
  have "keys_distinct spot_key (ct_spots t')"
    using t' spots.keys_batch [OF assms(2)]
    unfolding insert_spots_tables [OF assms(1)]
    by (auto simp: sql_rest_def intro!: keys_distinct_filter)
  with t' m show ?thesis by blast
qed

text \<open>C30: An insert of spot prices is an update of the map they mean: afterwards the price of a time
  is the last one of the batch for it, or else the one that was there, in the class and currency
  of the batch; the maps of other classes and currencies are as before; and everything older than
  30 days is gone. It reports success and the result is committed.\<close>

theorem insert_spots_refines:
  assumes "calls_ok e" and "keys_distinct spot_key (ct_spots t)"
  shows "\<exists>t'. sql_helper_insert_spots e False S \<lparr>sh_db = Some (sql_rest t), sh_locked = False\<rparr> =
      (SUCCESS, \<lparr>sh_db = Some (sql_rest t'), sh_locked = False\<rparr>) \<and>
    (\<forall>cl cu time. spot_map t' cl cu time =
       (if time < ce_now e - 30 * 86400 then None
        else if cl = es_price_class S \<and> cu = es_currency S
        then (case row_at sp_time_start (rev (es_prices S)) time of
                Some p \<Rightarrow> Some p | None \<Rightarrow> spot_map t cl cu time)
        else spot_map t cl cu time))"
  using assms by (rule insert_spots_map)

lemma distinct_map_sort_key: "distinct (map f xs) \<Longrightarrow> distinct (map f (sort_key g xs))"
proof -
  have "mset (map f (sort_key g xs)) = mset (map f xs)" by simp
  from mset_eq_imp_distinct_iff [OF this]
  show "distinct (map f xs) \<Longrightarrow> distinct (map f (sort_key g xs))" by blast
qed

text \<open>The prices of a class and currency have distinct start times.\<close>

lemma distinct_times:
  assumes "keys_distinct spot_key rows"
  shows "distinct (map sp_time_start (map sr_price (filter (\<lambda>r. sr_class r = cl \<and>
    sr_currency r = cu \<and> P r) rows)))"
  using assms by (induction rows) (auto simp: keys_distinct_def spot_key_def)

lemma spot_row_iff:
  assumes "keys_distinct spot_key (ct_spots t)"
  shows "spot_map t cl cu (sp_time_start p) = Some p \<longleftrightarrow>
    (\<exists>r \<in> set (ct_spots t). sr_class r = cl \<and> sr_currency r = cu \<and> sr_price r = p)"
proof
  assume "spot_map t cl cu (sp_time_start p) = Some p"
  then obtain r where "row_at spot_key (ct_spots t) (sp_time_start p, cl, cu) = Some r"
    and "sr_price r = p" by (auto simp: spot_map_def)
  with row_at_SomeD [OF this(1)]
  show "\<exists>r \<in> set (ct_spots t). sr_class r = cl \<and> sr_currency r = cu \<and> sr_price r = p"
    by (intro bexI [of _ r]) (simp_all add: spot_key_def)
next
  assume "\<exists>r \<in> set (ct_spots t). sr_class r = cl \<and> sr_currency r = cu \<and> sr_price r = p"
  then obtain r where r: "r \<in> set (ct_spots t)" "sr_class r = cl" "sr_currency r = cu"
    "sr_price r = p" by blast
  with row_at_distinct [OF assms r(1)] show "spot_map t cl cu (sp_time_start p) = Some p"
    by (simp add: spot_map_def spot_key_def)
qed

text \<open>What a read returns.\<close>

lemma read_spots_map:
  assumes "calls_ok e" and "keys_distinct spot_key (ct_spots t)"
  shows "\<exists>ps. sql_helper_read_spots e out cl cu t0 t1 \<lparr>sh_db = Some (sql_rest t), sh_locked = l\<rparr> =
      (SUCCESS, out\<lparr>es_prices := ps, es_price_class := cl, es_currency := cu\<rparr>) \<and>
    sorted_wrt (<) (map sp_time_start ps) \<and>
    (\<forall>p. p \<in> set ps \<longleftrightarrow> t0 \<le> sp_time_start p \<and> sp_time_start p < t1 \<and>
       spot_map t cl cu (sp_time_start p) = Some p)"
proof -
  let ?ps = "select_spots cl cu t0 t1 t"
  have "distinct (map sp_time_start ?ps)"
    unfolding select_spots_def by (intro distinct_map_sort_key distinct_times [OF assms(2)])
  then have sorted: "sorted_wrt (<) (map sp_time_start ?ps)"
    by (simp add: select_spots_def strict_sorted_iff)
  have "p \<in> set ?ps \<longleftrightarrow> t0 \<le> sp_time_start p \<and> sp_time_start p < t1 \<and>
      spot_map t cl cu (sp_time_start p) = Some p" for p
  proof -
    have "(\<exists>r \<in> set (ct_spots t). sr_class r = cl \<and> sr_currency r = cu \<and> sr_price r = p) \<longleftrightarrow>
        spot_map t cl cu (sp_time_start p) = Some p"
      using spot_row_iff [OF assms(2)] by blast
    then show ?thesis by (auto simp: select_spots_def)
  qed
  with sorted assms(1) show ?thesis
    by (auto simp: sql_helper_read_spots_def calls_ok_def delivered_def read_rows_ok tx_simps)
qed

text \<open>A read returns exactly the prices that the map has in the range, each once and in the
  order of time.\<close>

theorem read_spots_spec:
  assumes "calls_ok e" and "keys_distinct spot_key (ct_spots t)"
  shows "\<exists>ps. sql_helper_read_spots e out cl cu t0 t1 \<lparr>sh_db = Some (sql_rest t), sh_locked = l\<rparr> =
      (SUCCESS, out\<lparr>es_prices := ps, es_price_class := cl, es_currency := cu\<rparr>) \<and>
    sorted_wrt (<) (map sp_time_start ps) \<and>
    (\<forall>p. p \<in> set ps \<longleftrightarrow> t0 \<le> sp_time_start p \<and> sp_time_start p < t1 \<and>
       spot_map t cl cu (sp_time_start p) = Some p)"
  using assms by (rule read_spots_map)

end
