(* ===== verification/Cache_Integrity.thy ===== *)
theory Cache_Integrity
  imports Cache_Db
begin

text \<open>
  What the cache database keeps under any failures of the calls it makes: the integrity of its
  tables. Then what a failed insert leaves behind, and the round trip of weather through the
  database.
\<close>

section \<open>Integrity\<close>

text \<open>The keys of the three tables are keys, the ids of the facilities too and below the next id,
  and every weather row belongs to a facility.\<close>

definition cache_ok :: "cache_tables \<Rightarrow> bool" where
  "cache_ok t \<longleftrightarrow> keys_distinct spot_key (ct_spots t) \<and>
     keys_distinct facility_key (ct_facilities t) \<and> keys_distinct weather_key (ct_weather t) \<and>
     keys_distinct fr_id (ct_facilities t) \<and> (\<forall>f \<in> set (ct_facilities t). fr_id f < ct_next_id t) \<and>
     wr_facility ` set (ct_weather t) \<subseteq> facility_ids t"

named_theorems cache_ok_steps \<comment> \<open>the statements that keep the integrity\<close>

lemma cache_ok_prune [cache_ok_steps]:
  assumes "cache_ok t"
  shows "cache_ok (prune_statement k cutoff t)"
proof -
  have "wr_facility ` set (filter P (ct_weather t)) \<subseteq> facility_ids t" for P
    using assms by (auto simp: cache_ok_def)
  moreover have "fr_id ` set (filter (\<lambda>f. fr_id f \<in> B) (ct_facilities t)) = facility_ids t \<inter> B" for B
    by (auto simp: facility_ids_def)
  ultimately show ?thesis
    using assms by (simp add: cache_ok_def prune_statement_def facility_ids_def keys_distinct_filter)
qed

lemma cache_ok_spot [cache_ok_steps]: "cache_ok t \<Longrightarrow> cache_ok (t\<lparr>ct_spots := put_spot r (ct_spots t)\<rparr>)"
  by (simp add: cache_ok_def facility_ids_def spots.keys_put)

lemma set_put_weather: "set (put_weather r ws) \<subseteq> insert r (set ws)"
  by (auto simp: put_weather_def upsert_def)

lemma cache_ok_weather [cache_ok_steps]:
  assumes "cache_ok t" and "wr_facility r \<in> facility_ids t"
  shows "cache_ok (t\<lparr>ct_weather := put_weather r (ct_weather t)\<rparr>)"
proof -
  have "wr_facility ` set (put_weather r (ct_weather t)) \<subseteq> facility_ids t"
    using image_mono [OF set_put_weather [of r "ct_weather t"], of wr_facility] assms
    by (simp add: cache_ok_def subset_trans [of _ "insert _ _"])
  then show ?thesis
    using assms by (simp add: cache_ok_def facility_ids_def weather_rows.keys_put)
qed

lemma update_facility_key [simp]:
  "facility_key (update_facility x (facility_row_of i W f)) = facility_key (facility_row_of i W f)"
  "fr_id (update_facility x y) = fr_id x"
  by (simp_all add: update_facility_def facility_key_def)

lemma facility_row_of_id [simp]: "fr_id (facility_row_of i W f) = i"
  by (simp add: facility_row_of_def)

text \<open>The ids after the insert of a facility: those before, and the next one if the facility is new.\<close>

lemma insert_facility_ids:
  "map fr_id (ct_facilities (insert_facility W forecast t)) =
     (if facility_key (facility_row_of (ct_next_id t) W forecast) \<in> facility_key ` set (ct_facilities t)
      then map fr_id (ct_facilities t) else map fr_id (ct_facilities t) @ [ct_next_id t])"
proof -
  let ?r = "facility_row_of (ct_next_id t) W forecast"
  have "fr_id \<circ> (\<lambda>x. if facility_key x = facility_key ?r then update_facility x ?r else x) = fr_id"
    by (rule ext) simp
  moreover have "facility_key ?r \<in> facility_key ` set (ct_facilities t) \<longleftrightarrow>
      (\<exists>x \<in> set (ct_facilities t). facility_key x = facility_key ?r)"
    by (simp add: image_iff eq_commute)
  ultimately show ?thesis by (simp add: insert_facility_def upsert_def Let_def)
qed

lemma insert_facility_keys:
  "keys_distinct facility_key (ct_facilities t) \<Longrightarrow>
     keys_distinct facility_key (ct_facilities (insert_facility W forecast t))"
proof -
  let ?r = "facility_row_of (ct_next_id t) W forecast"
  let ?f = "\<lambda>x. if facility_key x = facility_key ?r then update_facility x ?r else x"
  assume d: "keys_distinct facility_key (ct_facilities t)"
  have "facility_key \<circ> ?f = facility_key" by (rule ext) simp
  with d show ?thesis
    by (auto simp: insert_facility_def upsert_def Let_def keys_distinct_def image_iff)
qed

lemma insert_facility_other [simp]:
  "ct_spots (insert_facility W forecast t) = ct_spots t"
  "ct_weather (insert_facility W forecast t) = ct_weather t"
  "ct_next_id (insert_facility W forecast t) = ct_next_id t + 1"
  by (simp_all add: insert_facility_def Let_def)

lemma cache_ok_facility [cache_ok_steps]: "cache_ok t \<Longrightarrow> cache_ok (insert_facility W forecast t)"
proof -
  assume ok: "cache_ok t"
  let ?t = "insert_facility W forecast t"
  let ?ids = "map fr_id (ct_facilities t)" and ?ids' = "map fr_id (ct_facilities ?t)"
  have ids: "distinct ?ids" "\<forall>i \<in> set ?ids. i < ct_next_id t"
    using ok by (auto simp: cache_ok_def keys_distinct_def)
  have "?ids' = ?ids \<or> ?ids' = ?ids @ [ct_next_id t]"
    unfolding insert_facility_ids [of W forecast t] by simp
  then consider "?ids' = ?ids" | "?ids' = ?ids @ [ct_next_id t]" by blast
  then have new: "distinct ?ids' \<and> (\<forall>i \<in> set ?ids'. i < ct_next_id t + 1) \<and> set ?ids \<subseteq> set ?ids'"
  proof cases
    case 1
    with ids show ?thesis by (simp only: 1) (auto simp: add_strict_increasing2)
  next
    case 2
    with ids show ?thesis by (simp only: 2) auto
  qed
  then have "keys_distinct fr_id (ct_facilities ?t)"
    "\<forall>f \<in> set (ct_facilities ?t). fr_id f < ct_next_id ?t" "facility_ids t \<subseteq> facility_ids ?t"
    by (simp_all add: keys_distinct_def facility_ids_def)
  with ok show ?thesis
    unfolding cache_ok_def
    by (simp add: insert_facility_keys subset_trans [of _ "facility_ids t"])
qed

section \<open>Integrity under any failures\<close>

text \<open>A handle whose tables, seen and committed, have their integrity.\<close>

definition helper_ok :: "sql_helper \<Rightarrow> bool" where
  "helper_ok h \<longleftrightarrow> (case sh_db h of None \<Rightarrow> True | Some c \<Rightarrow> conn_all cache_ok c)"

lemma after_failure_all: "conn_all P c \<Longrightarrow> conn_all P (after_failure e c)"
  by (simp add: after_failure_def conn_all_tx)

lemma tx_end_all: "conn_all P c \<Longrightarrow> conn_all P (tx_end e c)"
  unfolding tx_end_def by (simp add: conn_all_tx after_failure_all)

lemma prune_loop_ok: "conn_all cache_ok c \<Longrightarrow> conn_all cache_ok (snd (prune_loop ok cutoff ks c))"
  by (induction ok cutoff ks c rule: prune_loop.induct)
    (auto intro!: conn_all_tx(4) cache_ok_steps)

lemma prune_all: "conn_all cache_ok c \<Longrightarrow> conn_all cache_ok (snd (sql_helper_prune_cache_locked e c))"
  using prune_loop_ok [of c "ce_prune e" "ce_now e - retention_days * 86400" "[0, 1, 2]"]
  by (auto simp: sql_helper_prune_cache_locked_def intro: after_failure_all split: prod.split)

lemma insert_spots_loop_all:
  "conn_all cache_ok c \<Longrightarrow> conn_all cache_ok (snd (insert_spots_loop ok i rs c))"
  by (induction ok i rs c rule: insert_spots_loop.induct)
    (auto intro!: conn_all_tx(4) cache_ok_steps)

lemma conn_all_weather:
  assumes "conn_all cache_ok c" and "wr_facility r \<in> facility_ids (sc_tables c)"
  shows "conn_all cache_ok (tx_write (\<lambda>t. t\<lparr>ct_weather := put_weather r (ct_weather t)\<rparr>) c)"
  using assms by (auto simp: conn_all_def tx_write_def intro!: cache_ok_steps)

lemma insert_weather_loop_all:
  "conn_all cache_ok c \<Longrightarrow> conn_all cache_ok (snd (insert_weather_loop ok i rs c))"
  by (induction ok i rs c rule: insert_weather_loop.induct) (simp_all add: conn_all_weather)

lemma insert_spots_helper_ok:
  "helper_ok h \<Longrightarrow> helper_ok (snd (sql_helper_insert_spots e n S h))"
proof (cases "sh_db h")
  case (Some c)
  assume "helper_ok h"
  with Some have "conn_all cache_ok c" by (simp add: helper_ok_def)
  then have loop: "conn_all cache_ok (snd (insert_spots_loop (ce_step e) 0
      (map (spot_row_of S) (es_prices S)) (tx_begin (ce_begin e) c)))"
    by (intro insert_spots_loop_all conn_all_tx)
  obtain b c1 where L: "insert_spots_loop (ce_step e) 0 (map (spot_row_of S) (es_prices S))
      (tx_begin (ce_begin e) c) = (b, c1)" by fastforce
  obtain s c2 where P: "sql_helper_prune_cache_locked e (tx_end e c1) = (s, c2)"
    by fastforce
  from loop L have c1: "conn_all cache_ok c1" by simp
  have "conn_all cache_ok (snd (sql_helper_prune_cache_locked e (tx_end e c1)))"
    by (intro prune_all tx_end_all c1)
  with P have "conn_all cache_ok c2" by simp
  with \<open>helper_ok h\<close> Some L P c1 show ?thesis
    by (cases b) (simp_all add: sql_helper_insert_spots_def helper_ok_def after_failure_all)
qed (simp add: sql_helper_insert_spots_def helper_ok_def)

lemma find_in: "List.find P xs = Some x \<Longrightarrow> x \<in> set xs \<and> P x"
  by (induction xs) (auto split: if_splits)

lemma get_or_create_ok:
  assumes "helper_ok h" and "sql_helper_get_or_create_facility e scan W forecast h = (r, h1)"
  shows "helper_ok h1"
proof (cases "sh_db h")
  case (Some c)
  have "conn_all cache_ok (tx_write (insert_facility W forecast) c)"
    using assms(1) Some by (auto simp: helper_ok_def intro!: conn_all_tx(4) cache_ok_steps)
  with assms Some show ?thesis
    by (auto simp: sql_helper_get_or_create_facility_def Let_def helper_ok_def split: if_splits option.splits)
qed (use assms in \<open>auto simp: sql_helper_get_or_create_facility_def helper_ok_def\<close>)

text \<open>The values of any facility, there or not.\<close>

lemma insert_values_ok:
  assumes "helper_ok h"
  shows "helper_ok (snd (insert_weather_values e fid W h))"
proof (cases "sh_db h")
  case (Some c)
  let ?rows = "map (\<lambda>v. \<lparr>wr_facility = fid, wr_values = v\<rparr>) (we_values W)"
  have "conn_all cache_ok c" using assms Some by (simp add: helper_ok_def)
  moreover obtain b c1
    where L: "insert_weather_loop (ce_step e) 0 ?rows (tx_begin (ce_begin e) c) = (b, c1)" by fastforce
  ultimately have c1: "conn_all cache_ok c1"
    using insert_weather_loop_all [of "tx_begin (ce_begin e) c" "ce_step e" 0 ?rows] by (auto intro: conn_all_tx)
  obtain s c2 where P: "sql_helper_prune_cache_locked e (tx_end e c1) = (s, c2)" by fastforce
  have "conn_all cache_ok (snd (sql_helper_prune_cache_locked e (tx_end e c1)))"
    by (intro prune_all tx_end_all c1)
  with P have "conn_all cache_ok c2" by simp
  with assms Some L P c1 show ?thesis
    by (cases b) (auto simp: insert_weather_values_def helper_ok_def intro: conn_all_tx)
qed (use assms in \<open>simp add: insert_weather_values_def\<close>)

lemma insert_weather_helper_ok:
  assumes "helper_ok h"
  shows "helper_ok (snd (sql_helper_insert_weather e scan W forecast h))"
proof -
  obtain r h1 where G: "sql_helper_get_or_create_facility e scan W forecast h = (r, h1)" by fastforce
  from get_or_create_ok [OF assms G] insert_values_ok assms G show ?thesis
    by (cases r) (simp_all add: sql_helper_insert_weather_def)
qed

section \<open>Sequences of operations\<close>

text \<open>What the programs do with a handle: inserts, the two parts of an insert of weather on their own, with
  whatever id, and, when it is closed, an open.\<close>

datatype cache_op =
    Insert_spots cache_env bool electricity_spots
  | Insert_weather cache_env weather bool
  | Create_facility cache_env weather bool
  | Insert_values cache_env int weather
  | Close_handle

fun cache_step :: "(facility_row list \<Rightarrow> facility_row list) \<Rightarrow> cache_op \<Rightarrow> sql_helper \<Rightarrow> sql_helper" where
  "cache_step scan (Insert_spots e n S) h = snd (sql_helper_insert_spots e n S h)"
| "cache_step scan (Insert_weather e W forecast) h = snd (sql_helper_insert_weather e scan W forecast h)"
| "cache_step scan (Create_facility e W forecast) h = snd (sql_helper_get_or_create_facility e scan W forecast h)"
| "cache_step scan (Insert_values e fid W) h = snd (insert_weather_values e fid W h)"
| "cache_step scan Close_handle h = sql_helper_close h"

text \<open>C31: The cache tables keep their integrity through every sequence of inserts and of their parts, as
  threads that share the handle can interleave them, whatever calls of SQLite fail on the way: the primary
  keys stay keys, the ids of facilities stay distinct and every weather row refers to a facility, in what
  the handle sees and in what is committed.\<close>

theorem cache_integrity:
  assumes "helper_ok h"
  shows "helper_ok (fold (cache_step scan) ops h)"
  using assms
proof (induction ops arbitrary: h)
  case (Cons op ops)
  have "helper_ok (cache_step scan op h)"
  proof (cases op)
    case (Create_facility e W forecast)
    then show ?thesis using get_or_create_ok [OF Cons.prems surjective_pairing] by simp
  next
    case Close_handle
    then show ?thesis by (simp add: sql_helper_close_def helper_ok_def)
  qed (simp_all add: Cons.prems insert_spots_helper_ok insert_weather_helper_ok insert_values_ok)
  with Cons.IH show ?case by simp
qed simp

section \<open>A failed insert of spot prices\<close>

text \<open>The rows that the loop has written when step \<open>n\<close> fails.\<close>

lemma insert_spots_loop_fails:
  assumes "\<forall>i < n. ok (k + i)" and "\<not> ok (k + n)" and "n < length rs" and "sc_in_tx c"
  shows "insert_spots_loop ok k rs c = (False, c\<lparr>sc_tables := (sc_tables c)
    \<lparr>ct_spots := fold put_spot (take n rs) (ct_spots (sc_tables c))\<rparr>\<rparr>)"
  using assms
proof (induction rs arbitrary: k n c)
  case (Cons r rs)
  show ?case
  proof (cases n)
    case (Suc m)
    have "\<forall>i < m. ok (Suc k + i)" "\<not> ok (Suc k + m)" "ok k"
      using Cons.prems(1,2) Suc by (auto dest: spec [of _ 0] spec [of _ "Suc _"])
    with Cons Suc show ?thesis by (simp add: tx_simps)
  qed (use Cons in \<open>simp add: tx_simps\<close>)
qed simp

text \<open>A failed insert of spot prices reports an error and commits nothing, but it leaves its
  transaction open: the rows before the failure stay visible on the handle, and the next insert
  that succeeds commits them with its own. (If SQLite rolled the transaction back with the error, only the
  error is left of the failed insert.)\<close>

theorem failed_insert_committed_later:
  assumes "ce_prepare e" and "ce_begin e" and "\<forall>i < n. ce_step e i" and "\<not> ce_step e n"
    and "n < length (es_prices S)" and "calls_ok e'" and "\<not> ce_undone e"
  shows "\<exists>h. sql_helper_insert_spots e False S \<lparr>sh_db = Some (sql_rest t), sh_locked = False\<rparr> =
      (ERR_FATAL, h) \<and> map_option sc_saved (sh_db h) = Some t \<and>
    sql_helper_insert_spots e' False S' h = (SUCCESS, \<lparr>sh_db = Some (sql_rest
      (prune_tables (cutoff_of e') (t\<lparr>ct_spots := fold put_spot
         (take n (map (spot_row_of S) (es_prices S)) @ map (spot_row_of S') (es_prices S'))
         (ct_spots t)\<rparr>))), sh_locked = False\<rparr>)"
proof -
  let ?c = "tx_begin True (sql_rest t)"
  let ?c1 = "?c\<lparr>sc_tables := t\<lparr>ct_spots := fold put_spot
    (take n (map (spot_row_of S) (es_prices S))) (ct_spots t)\<rparr>\<rparr>"
  have loop: "insert_spots_loop (ce_step e) 0 (map (spot_row_of S) (es_prices S)) ?c = (False, ?c1)"
    using insert_spots_loop_fails [of n "ce_step e" 0 "map (spot_row_of S) (es_prices S)" ?c] assms
    by (simp add: tx_simps)
  have "sql_helper_insert_spots e False S \<lparr>sh_db = Some (sql_rest t), sh_locked = False\<rparr> =
      (ERR_FATAL, \<lparr>sh_db = Some ?c1, sh_locked = False\<rparr>)"
    using assms(1,2,7) by (simp add: sql_helper_insert_spots_def loop after_failure_def)
  moreover have "sql_helper_insert_spots e' False S' \<lparr>sh_db = Some ?c1, sh_locked = False\<rparr> =
      (SUCCESS, \<lparr>sh_db = Some (sql_rest
      (prune_tables (cutoff_of e') (t\<lparr>ct_spots := fold put_spot
         (take n (map (spot_row_of S) (es_prices S)) @ map (spot_row_of S') (es_prices S'))
         (ct_spots t)\<rparr>))), sh_locked = False\<rparr>)"
    using assms(6) prune_ok [OF assms(6)]
    by (simp add: sql_helper_insert_spots_def calls_ok_def insert_spots_loop_ok tx_simps)
  ultimately show ?thesis by (simp add: tx_simps)
qed

section \<open>The round trip of weather\<close>

lemma put_weather_fresh:
  "weather_key r \<notin> weather_key ` set ws \<Longrightarrow> put_weather r ws = ws @ [r]"
  by (auto simp: put_weather_def upsert_def image_iff)

lemma put_weather_batch_fresh:
  "keys_distinct weather_key (ws @ rs) \<Longrightarrow> fold put_weather rs ws = ws @ rs"
proof (induction rs arbitrary: ws)
  case (Cons r rs)
  then have "weather_key r \<notin> weather_key ` set ws" "keys_distinct weather_key ((ws @ [r]) @ rs)"
    by (auto simp: keys_distinct_def)
  with Cons.IH [of "ws @ [r]"] show ?case by (simp add: put_weather_fresh)
qed simp

text \<open>At a new place the insert adds a facility with the next id, and both the insert and a later
  read with the same panel find it.\<close>

lemma new_place_facilities:
  assumes "\<forall>f \<in> set (ct_facilities t). \<not> same_place (we_latitude W) (we_longitude W) f"
  shows "ct_facilities (insert_facility W forecast t) =
    ct_facilities t @ [facility_row_of (ct_next_id t) W forecast]"
proof -
  have "facility_key f \<noteq> facility_key (facility_row_of (ct_next_id t) W forecast)"
    if "f \<in> set (ct_facilities t)" for f
    using assms that
    by (auto simp: facility_key_def facility_row_of_def same_place_def close_to_def)
  then show ?thesis by (auto simp: insert_facility_def upsert_def Let_def)
qed

lemma new_place_only:
  assumes "\<And>xs. set (scan xs) = set xs"
    and "\<forall>f \<in> set fs. \<not> same_place (we_latitude W) (we_longitude W) f"
    and "x \<in> set (scan (fs @ [facility_row_of i W forecast]))"
    and "same_place (we_latitude W) (we_longitude W) x"
  shows "x = facility_row_of i W forecast"
  using assms(2-4) by (auto simp: assms(1))

lemma same_place_self [simp]: "same_place (we_latitude W) (we_longitude W) (facility_row_of i W forecast)"
  by (simp add: same_place_def close_to_def facility_row_of_def)

lemma find_facility_new:
  assumes scan: "\<And>xs. set (scan xs) = set xs"
    and new: "\<forall>f \<in> set (ct_facilities t). \<not> same_place (we_latitude W) (we_longitude W) f"
  shows "find_facility_id scan W forecast (insert_facility W forecast t) = Some (ct_next_id t)"
proof -
  let ?r = "facility_row_of (ct_next_id t) W forecast"
  let ?fs = "scan (ct_facilities t @ [?r])"
  let ?P = "\<lambda>f. same_place (we_latitude W) (we_longitude W) f \<and>
        fr_panel_tilt f = uint (we_panel_tilt W) \<and> fr_panel_azimuth f = uint (we_panel_azimuth W) \<and>
        fr_forecast f = forecast"
  have "?r \<in> set ?fs" by (simp add: scan)
  moreover have "?P ?r" by (simp add: facility_row_of_def same_place_def close_to_def)
  ultimately obtain x where x: "List.find ?P ?fs = Some x"
    by (cases "List.find ?P ?fs") (auto simp: find_None_iff)
  have "x = ?r" by (rule new_place_only [OF scan new]) (use find_in [OF x] in auto)
  with x show ?thesis by (simp add: find_facility_id_def new_place_facilities [OF new])
qed

lemma pick_facility_only:
  assumes "\<And>xs. set (scan xs) = set xs"
    and "{f \<in> set (ct_facilities t). same_place lat lon f \<and> fr_forecast f = forecast} = {r}"
  shows "pick_facility scan lat lon tilt azimuth forecast t = Some r"
proof -
  let ?fs = "sort_key (\<lambda>f. if fr_panel_tilt f = tilt \<and> fr_panel_azimuth f = azimuth then 0 else 1 :: int)
     (filter (\<lambda>f. same_place lat lon f \<and> fr_forecast f = forecast) (scan (ct_facilities t)))"
  have "set ?fs = {r}" using assms by simp
  then show ?thesis by (cases ?fs) (auto simp: pick_facility_def)
qed

text \<open>The tables after the weather of a new place was inserted.\<close>

definition new_weather_tables :: "cache_env \<Rightarrow> weather \<Rightarrow> bool \<Rightarrow> cache_tables \<Rightarrow> cache_tables" where
  "new_weather_tables e W forecast t =
     prune_tables (cutoff_of e) ((insert_facility W forecast t)\<lparr>ct_weather := ct_weather t @
       map (\<lambda>v. \<lparr>wr_facility = ct_next_id t, wr_values = v\<rparr>) (we_values W)\<rparr>)"

lemma insert_new_weather:
  assumes "calls_ok e" and "cache_ok t" and "\<And>xs. set (scan xs) = set xs"
    and "\<forall>f \<in> set (ct_facilities t). \<not> same_place (we_latitude W) (we_longitude W) f"
    and "we_values W \<noteq> []" and "distinct (map wv_timestamp (we_values W))"
  shows "sql_helper_insert_weather e scan W forecast \<lparr>sh_db = Some (sql_rest t), sh_locked = l\<rparr> =
    (SUCCESS, \<lparr>sh_db = Some (sql_rest (new_weather_tables e W forecast t)), sh_locked = l\<rparr>)"
proof -
  let ?t = "insert_facility W forecast t"
  let ?rows = "map (\<lambda>v. \<lparr>wr_facility = ct_next_id t, wr_values = v\<rparr>) (we_values W)"
  have "wr_facility r < ct_next_id t" if "r \<in> set (ct_weather t)" for r
    using assms(2) that by (fastforce simp: cache_ok_def facility_ids_def)
  then have "keys_distinct weather_key (ct_weather t @ ?rows)"
    using assms(2,6) by (fastforce simp: cache_ok_def keys_distinct_def weather_key_def distinct_map
        inj_on_def comp_def)
  then have "fold put_weather ?rows (ct_weather t) = ct_weather t @ ?rows"
    by (rule put_weather_batch_fresh)
  moreover have "ct_next_id t \<in> facility_ids ?t"
    by (simp add: facility_ids_def new_place_facilities [OF assms(4)])
  ultimately show ?thesis
    using assms(1,5) prune_ok [OF assms(1)]
    by (simp add: sql_helper_insert_weather_def insert_weather_values_def sql_helper_get_or_create_facility_def calls_ok_def
        find_facility_new [OF assms(3,4)] insert_weather_loop_ok tx_simps new_weather_tables_def)
qed

lemma select_new_weather:
  assumes "cache_ok t" and "sorted (map wv_timestamp (we_values W))"
    and "\<forall>v \<in> set (we_values W). cutoff_of e \<le> wv_timestamp v"
  shows "select_weather (ct_next_id t) t0 t1 (new_weather_tables e W forecast t) =
    filter (\<lambda>v. t0 \<le> wv_timestamp v \<and> wv_timestamp v < t1) (we_values W)"
proof -
  let ?in = "\<lambda>v. t0 \<le> wv_timestamp v \<and> wv_timestamp v < t1"
  have old: "wr_facility r \<noteq> ct_next_id t" if "r \<in> set (ct_weather t)" for r
    using assms(1) that by (fastforce simp: cache_ok_def facility_ids_def)
  have "filter (\<lambda>r. wr_facility r = ct_next_id t \<and> ?in (wr_values r))
      (filter (\<lambda>r. cutoff_of e \<le> wv_timestamp (wr_values r)) (ct_weather t)) = []"
    using old by (auto simp: filter_empty_conv)
  moreover have "filter (\<lambda>v. ?in v \<and> cutoff_of e \<le> wv_timestamp v) (we_values W) =
      filter ?in (we_values W)"
    using assms(3) by (auto intro: filter_cong)
  moreover have "sorted (map wv_timestamp (filter ?in (we_values W)))"
    using assms(2) by (rule sorted_filter)
  ultimately show ?thesis
    by (simp add: select_weather_def new_weather_tables_def filter_map comp_def
        sort_key_id_if_sorted conj_commute)
qed

lemma weather_stored:
  assumes "calls_ok e" and "calls_ok e'" and "cache_ok t" and "\<And>xs. set (scan xs) = set xs"
    and "\<forall>f \<in> set (ct_facilities t). \<not> same_place (we_latitude W) (we_longitude W) f"
    and "sorted_wrt (<) (map wv_timestamp (we_values W))" and "we_values W \<noteq> []"
    and "\<forall>v \<in> set (we_values W). ce_now e - 30 * 86400 \<le> wv_timestamp v"
  shows "\<exists>h. sql_helper_insert_weather e scan W forecast
        \<lparr>sh_db = Some (sql_rest t), sh_locked = l\<rparr> = (SUCCESS, h) \<and>
      sql_helper_read_weather e' scan out (we_latitude W) (we_longitude W)
        (uint (we_panel_tilt W)) (uint (we_panel_azimuth W)) forecast t0 t1 h =
      (SUCCESS, W\<lparr>we_values := filter (\<lambda>v. t0 \<le> wv_timestamp v \<and> wv_timestamp v < t1) (we_values W),
        we_temperature_unit := Some (text_or_empty (we_temperature_unit W)),
        we_windspeed_unit := Some (text_or_empty (we_windspeed_unit W)),
        we_precipitation_unit := Some (text_or_empty (we_precipitation_unit W)),
        we_winddirection_unit := Some (text_or_empty (we_winddirection_unit W)),
        we_radiation_unit := Some (text_or_empty (we_radiation_unit W))\<rparr>)"
proof -
  let ?t = "new_weather_tables e W forecast t"
  let ?r = "facility_row_of (ct_next_id t) W forecast"
  have times: "distinct (map wv_timestamp (we_values W))" "sorted (map wv_timestamp (we_values W))"
    using assms(6) by (simp_all add: strict_sorted_iff)
  have recent: "\<forall>v \<in> set (we_values W). cutoff_of e \<le> wv_timestamp v"
    using assms(8) by (simp add: cutoff_of_def retention_days_def)
  obtain v where "v \<in> set (we_values W)" using assms(7) by (cases "we_values W") auto
  with recent have "ct_next_id t \<in> wr_facility ` set (ct_weather ?t)"
    by (force simp: new_weather_tables_def)
  then have "{f \<in> set (ct_facilities ?t). same_place (we_latitude W) (we_longitude W) f \<and>
      fr_forecast f = forecast} = {?r}"
    using assms(5) by (auto simp: new_weather_tables_def new_place_facilities [OF assms(5)]
        facility_row_of_def same_place_def close_to_def)
  from pick_facility_only [OF assms(4) this]
  have pick: "pick_facility scan (we_latitude W) (we_longitude W) (uint (we_panel_tilt W))
      (uint (we_panel_azimuth W)) forecast ?t = Some ?r" .
  have "sql_helper_read_weather e' scan out (we_latitude W) (we_longitude W)
        (uint (we_panel_tilt W)) (uint (we_panel_azimuth W)) forecast t0 t1
        \<lparr>sh_db = Some (sql_rest ?t), sh_locked = l\<rparr> =
      (SUCCESS, (weather_meta ?r (we_latitude W) (we_longitude W) out)
        \<lparr>we_values := filter (\<lambda>v. t0 \<le> wv_timestamp v \<and> wv_timestamp v < t1) (we_values W)\<rparr>)"
    using assms(2) pick select_new_weather [OF assms(3) times(2) recent]
    by (simp add: sql_helper_read_weather_def calls_ok_def tx_simps delivered_def read_rows_ok Let_def)
  moreover have "(weather_meta ?r (we_latitude W) (we_longitude W) out)\<lparr>we_values := vs\<rparr> =
      W\<lparr>we_values := vs,
        we_temperature_unit := Some (text_or_empty (we_temperature_unit W)),
        we_windspeed_unit := Some (text_or_empty (we_windspeed_unit W)),
        we_precipitation_unit := Some (text_or_empty (we_precipitation_unit W)),
        we_winddirection_unit := Some (text_or_empty (we_winddirection_unit W)),
        we_radiation_unit := Some (text_or_empty (we_radiation_unit W))\<rparr>" for vs
    by (simp add: weather_meta_def facility_row_of_def)
  ultimately show ?thesis
    using insert_new_weather [OF assms(1,3,4,5,7) times(1), of forecast l] by auto
qed

text \<open>Weather of a new place comes back as it went in: after an insert that nothing disturbs, a read
  for the place and its panel returns the values of the range in their order, with the interval
  and the units of the series.\<close>

theorem weather_round_trip:
  assumes "calls_ok e" and "calls_ok e'" and "cache_ok t" and "\<And>xs. set (scan xs) = set xs"
    and "\<forall>f \<in> set (ct_facilities t). \<not> same_place (we_latitude W) (we_longitude W) f"
    and "sorted_wrt (<) (map wv_timestamp (we_values W))" and "we_values W \<noteq> []"
    and "\<forall>v \<in> set (we_values W). ce_now e - 30 * 86400 \<le> wv_timestamp v"
  shows "\<exists>h. sql_helper_insert_weather e scan W forecast
        \<lparr>sh_db = Some (sql_rest t), sh_locked = False\<rparr> = (SUCCESS, h) \<and>
      sql_helper_read_weather e' scan out (we_latitude W) (we_longitude W)
        (uint (we_panel_tilt W)) (uint (we_panel_azimuth W)) forecast t0 t1 h =
      (SUCCESS, W\<lparr>we_values := filter (\<lambda>v. t0 \<le> wv_timestamp v \<and> wv_timestamp v < t1) (we_values W),
        we_temperature_unit := Some (text_or_empty (we_temperature_unit W)),
        we_windspeed_unit := Some (text_or_empty (we_windspeed_unit W)),
        we_precipitation_unit := Some (text_or_empty (we_precipitation_unit W)),
        we_winddirection_unit := Some (text_or_empty (we_winddirection_unit W)),
        we_radiation_unit := Some (text_or_empty (we_radiation_unit W))\<rparr>)"
  using assms by (rule weather_stored)

section \<open>Instances\<close>

definition calls_fine :: "int \<Rightarrow> cache_env" where
  "calls_fine t = \<lparr>ce_prepare = True, ce_facility = True, ce_select = True, ce_begin = True,
     ce_step = (\<lambda>i. True), ce_undone = False, ce_commit = True, ce_prune = (\<lambda>i. True), ce_rows = None,
     ce_mem = (\<lambda>n. True), ce_now = t\<rparr>"

lemma calls_fine_ok [simp]: "calls_ok (calls_fine t)" "ce_now (calls_fine t) = t"
  by (simp_all add: calls_ok_def calls_fine_def)

lemma no_tables_ok [simp]: "cache_ok no_tables"
  by (simp add: cache_ok_def no_tables_def keys_distinct_def)

definition two_prices :: electricity_spots where
  "two_prices = no_spots\<lparr>es_prices := [\<lparr>sp_time_start = 100, sp_time_end = 200, sp_price = 1\<rparr>,
     \<lparr>sp_time_start = 100, sp_time_end = 200, sp_price = 2\<rparr>]\<rparr>"

text \<open>Of two prices for one time the later is kept.\<close>

theorem insert_spots_refines_witness:
  "\<exists>t'. sql_helper_insert_spots (calls_fine 0) False two_prices
        \<lparr>sh_db = Some (sql_rest no_tables), sh_locked = False\<rparr> =
      (SUCCESS, \<lparr>sh_db = Some (sql_rest t'), sh_locked = False\<rparr>) \<and>
     map_option sp_price (spot_map t' SE1 SPOT_SEK 100) = Some 2 \<and> spot_map t' SE2 SPOT_SEK 100 = None"
proof -
  have "keys_distinct spot_key (ct_spots no_tables)" by (simp add: no_tables_def keys_distinct_def)
  from insert_spots_refines [of "calls_fine 0", OF calls_fine_ok(1) this, of two_prices]
  obtain t' where t': "sql_helper_insert_spots (calls_fine 0) False two_prices
        \<lparr>sh_db = Some (sql_rest no_tables), sh_locked = False\<rparr> =
      (SUCCESS, \<lparr>sh_db = Some (sql_rest t'), sh_locked = False\<rparr>)"
    and m: "\<And>cl cu time. spot_map t' cl cu time =
       (if time < ce_now (calls_fine 0) - 30 * 86400 then None
        else if cl = es_price_class two_prices \<and> cu = es_currency two_prices
        then (case row_at sp_time_start (rev (es_prices two_prices)) time of
                Some p \<Rightarrow> Some p | None \<Rightarrow> spot_map no_tables cl cu time)
        else spot_map no_tables cl cu time)" by blast
  have "map_option sp_price (spot_map t' SE1 SPOT_SEK 100) = Some 2"
    "spot_map t' SE2 SPOT_SEK 100 = None"
    unfolding m by (simp_all add: two_prices_def no_spots_def spot_map_def no_tables_def)
  with t' show ?thesis by blast
qed

definition one_spot_table :: cache_tables where
  "one_spot_table = no_tables\<lparr>ct_spots := [spot_row_of two_prices (es_prices two_prices ! 1)]\<rparr>"

theorem read_spots_spec_witness:
  "\<exists>ps. sql_helper_read_spots (calls_fine 0) no_spots SE1 SPOT_SEK 0 200
        \<lparr>sh_db = Some (sql_rest one_spot_table), sh_locked = False\<rparr> =
      (SUCCESS, no_spots\<lparr>es_prices := ps\<rparr>) \<and>
    \<lparr>sp_time_start = 100, sp_time_end = 200, sp_price = 2\<rparr> \<in> set ps"
proof -
  have "keys_distinct spot_key (ct_spots one_spot_table)"
    by (simp add: one_spot_table_def keys_distinct_def)
  from read_spots_spec [of "calls_fine 0", OF calls_fine_ok(1) this, of no_spots SE1 SPOT_SEK 0 200 False]
  obtain ps where ps: "sql_helper_read_spots (calls_fine 0) no_spots SE1 SPOT_SEK 0 200
        \<lparr>sh_db = Some (sql_rest one_spot_table), sh_locked = False\<rparr> =
      (SUCCESS, no_spots\<lparr>es_prices := ps, es_price_class := SE1, es_currency := SPOT_SEK\<rparr>)"
    and mem: "\<And>p. p \<in> set ps \<longleftrightarrow> 0 \<le> sp_time_start p \<and> sp_time_start p < 200 \<and>
       spot_map one_spot_table SE1 SPOT_SEK (sp_time_start p) = Some p" by blast
  have "\<lparr>sp_time_start = 100, sp_time_end = 200, sp_price = 2\<rparr> \<in> set ps"
    unfolding mem by (simp add: one_spot_table_def two_prices_def no_spots_def spot_map_def
        spot_row_of_def spot_key_def)
  with ps show ?thesis by (auto simp: no_spots_def)
qed

definition one_weather :: weather where
  "one_weather = no_weather\<lparr>we_values := [\<lparr>wv_timestamp = 50, wv_temperature = 1,
     wv_precipitation = 0, wv_windspeed = 0, wv_radiation_direct_n = 0, wv_radiation_tilted = 0,
     wv_radiation_direct = 0, wv_radiation_diffuse = 0, wv_radiation_shortwave = 0,
     wv_sun_duration = 0, wv_winddirection_azimuth = 0\<rparr>]\<rparr>"

text \<open>A sequence with a failed and a successful insert, in a table scanned backwards.\<close>

theorem cache_integrity_witness:
  "helper_ok (fold (cache_step rev)
     [Insert_spots ((calls_fine 0)\<lparr>ce_step := (\<lambda>i. i = 0)\<rparr>) False two_prices,
      Insert_weather (calls_fine 0) one_weather True]
     \<lparr>sh_db = Some (sql_rest no_tables), sh_locked = False\<rparr>)"
  by (rule cache_integrity) (simp_all add: helper_ok_def conn_all_def tx_simps)

theorem failed_insert_committed_later_witness:
  "\<exists>h t'. sql_helper_insert_spots ((calls_fine 0)\<lparr>ce_step := (\<lambda>i. i = 0)\<rparr>) False two_prices
        \<lparr>sh_db = Some (sql_rest no_tables), sh_locked = False\<rparr> = (ERR_FATAL, h) \<and>
     sql_helper_insert_spots (calls_fine 0) False no_spots h =
       (SUCCESS, \<lparr>sh_db = Some (sql_rest t'), sh_locked = False\<rparr>) \<and> length (ct_spots t') = 1"
proof -
  let ?e = "(calls_fine 0)\<lparr>ce_step := (\<lambda>i. i = 0)\<rparr>"
  have "ce_prepare ?e" "ce_begin ?e" "\<forall>i < 1. ce_step ?e i" "\<not> ce_step ?e 1"
    "1 < length (es_prices two_prices)" and open_tx: "\<not> ce_undone ?e"
    by (simp_all add: calls_fine_def two_prices_def)
  from failed_insert_committed_later [OF this(1-5) calls_fine_ok(1) [of 0] open_tx, of no_tables no_spots]
  obtain h where "sql_helper_insert_spots ?e False two_prices
        \<lparr>sh_db = Some (sql_rest no_tables), sh_locked = False\<rparr> = (ERR_FATAL, h)"
    "sql_helper_insert_spots (calls_fine 0) False no_spots h = (SUCCESS, \<lparr>sh_db = Some (sql_rest
      (prune_tables (cutoff_of (calls_fine 0)) (no_tables\<lparr>ct_spots := fold put_spot
         (take 1 (map (spot_row_of two_prices) (es_prices two_prices)) @
          map (spot_row_of no_spots) (es_prices no_spots)) (ct_spots no_tables)\<rparr>))),
      sh_locked = False\<rparr>)" by blast
  moreover have "length (ct_spots (prune_tables (cutoff_of (calls_fine 0)) (no_tables\<lparr>ct_spots :=
      fold put_spot (take 1 (map (spot_row_of two_prices) (es_prices two_prices)) @
          map (spot_row_of no_spots) (es_prices no_spots)) (ct_spots no_tables)\<rparr>))) = 1"
    by (simp add: cutoff_of_def retention_days_def put_spot_def upsert_def spot_row_of_def
        two_prices_def no_spots_def no_tables_def)
  ultimately show ?thesis by blast
qed

theorem weather_round_trip_witness:
  "\<exists>h. sql_helper_insert_weather (calls_fine 0) rev one_weather False
        \<lparr>sh_db = Some (sql_rest no_tables), sh_locked = False\<rparr> = (SUCCESS, h) \<and>
      we_values (snd (sql_helper_read_weather (calls_fine 0) rev no_weather 0 0 0 0 False 0 100 h)) =
        we_values one_weather"
proof -
  have "\<forall>f \<in> set (ct_facilities no_tables).
      \<not> same_place (we_latitude one_weather) (we_longitude one_weather) f"
    by (simp add: no_tables_def)
  moreover have "sorted_wrt (<) (map wv_timestamp (we_values one_weather))"
    "we_values one_weather \<noteq> []"
    "\<forall>v \<in> set (we_values one_weather). ce_now (calls_fine 0) - 30 * 86400 \<le> wv_timestamp v"
    by (simp_all add: one_weather_def)
  ultimately show ?thesis
    using weather_round_trip [OF calls_fine_ok(1) calls_fine_ok(1) no_tables_ok, of rev one_weather 0
        False 0 no_weather 0 100]
    by (auto simp: one_weather_def no_weather_def)
qed

end
