(* ===== verification/Opti_Request.thy ===== *)
theory Opti_Request
  imports Documents Meter_Store Facility Cache_Integrity Http_Connection
begin

text \<open>
  What the API endpoints share (first part of \<open>server/src/opti/opti_instance.c\<close>): the state and the
  environment of the API, the accessors of a request (body, query parameters, time range, facility),
  the texts made of weather and spot prices, and \<open>osi_set_response\<close>. The clock is read once for a
  request. cJSON, the library of configuration files, processes and sockets are parameters.
\<close>

section \<open>State and environment\<close>

text \<open>What the API sends to the optimizer: a line to its socket, or a signal by a shell command.\<close>

datatype opti_command = Uds string | Shell string

text \<open>\<open>ap_latest\<close> is \<open>None\<close> while \<open>osi_has_latest_meter_reading\<close> is 0. \<open>ap_updates\<close> is the static table of
  posted values. \<open>ap_writes\<close> lists the writes to buffers by a computed index as pairs of the size of
  the buffer and the index.\<close>

record api =
  ap_fs :: file_sys
  ap_latest :: "(meter_reading \<times> int) option"
  ap_updates :: "config_update list"
  ap_store :: meter_store
  ap_cache :: sql_helper
  ap_commands :: "opti_command list"
  ap_writes :: "(nat \<times> nat) list"

text \<open>\<open>av_print\<close> is the cJSON calls that build and print a document, NULL when memory runs out;
  \<open>av_date\<close> is \<open>strftime\<close> of the local time; \<open>av_reads\<close> the calls of the cache reads by their number;
  \<open>av_written\<close> the number of bytes of a write that fails; \<open>av_place\<close> where \<open>readdir\<close> lists a new file.\<close>

record 'j api_env =
  av_now :: int
  av_mem :: allocator
  av_reason :: "int \<Rightarrow> string option"
  av_json :: "'j cjson"
  av_print :: "json_doc \<Rightarrow> string option"
  av_iso :: "int \<Rightarrow> string option"
  av_date :: "string \<Rightarrow> int \<Rightarrow> string"
  av_config :: "file_sys \<Rightarrow> string \<Rightarrow> string \<Rightarrow> string option"
  av_list_conf :: "file_sys \<Rightarrow> string \<Rightarrow> string list option"
  av_insert :: insert_env
  av_reads :: "nat \<Rightarrow> cache_env"
  av_scan :: "facility_row list \<Rightarrow> facility_row list"
  av_fopen :: "string \<Rightarrow> bool"
  av_written :: "nat option"
  av_place :: nat
  av_system :: "string \<Rightarrow> int"
  av_uds :: "string \<Rightarrow> status"

text \<open>An endpoint works on the connection and the state of the API.\<close>

type_synonym api_result = "status \<times> http_conn \<times> api"

section \<open>The response\<close>

definition osi_set_response ::
  "'j api_env \<Rightarrow> int \<Rightarrow> string \<Rightarrow> string \<Rightarrow> http_conn \<Rightarrow> status \<times> http_conn" where
  "osi_set_response E status_code content_type body c =
     (let reason = (case av_reason E status_code of None \<Rightarrow> ''OK'' | Some r \<Rightarrow> r);
          msg = http_message status_code (cstr reason) (cstr content_type) (cstr body)
      in if \<not> av_mem E (length msg + 1)
         then (ERR_NO_MEMORY, c\<lparr>response := (response c)\<lparr>resp_status := status_code\<rparr>\<rparr>)
         else (SUCCESS, c\<lparr>response := \<lparr>resp_status = status_code, full_response = Some msg\<rparr>,
                          weather_done := True\<rparr>))"

text \<open>The form in which the endpoints use it.\<close>

definition respond_with ::
  "'j api_env \<Rightarrow> int \<Rightarrow> string \<Rightarrow> string \<Rightarrow> http_conn \<times> api \<Rightarrow> api_result" where
  "respond_with E status_code content_type body s =
     (case osi_set_response E status_code content_type body (fst s) of (r, c) \<Rightarrow> (r, c, snd s))"

abbreviation json_type :: string where "json_type \<equiv> ''application/json''"

definition json_error :: "string \<Rightarrow> string" where
  \<open>json_error m = ''{"error":"'' @ m @ ''"}''\<close>

section \<open>Accessors of the request\<close>

text \<open>The body is NULL without content; a buffer of no bytes stands for the NULL address.\<close>

definition osi_get_request_body :: "http_conn \<Rightarrow> string option \<times> int" where
  "osi_get_request_body c =
     (if content_length c \<le> 0 \<or> conn_data c = [] then (None, 0)
      else (Some (conn_data c), content_length c))"

definition osi_get_query_param :: "http_request \<Rightarrow> string \<Rightarrow> string option" where
  "osi_get_query_param req key =
     (case req_params req of None \<Rightarrow> None
      | Some kvs \<Rightarrow> map_option (\<lambda>kv. cstr (snd kv)) (List.find (\<lambda>kv. cstr (fst kv) = key) kvs))"

fun osi_get_query_param_any :: "http_request \<Rightarrow> string list \<Rightarrow> string option" where
  "osi_get_query_param_any req [] = None"
| "osi_get_query_param_any req (k # ks) =
     (case osi_get_query_param req k of
        None \<Rightarrow> osi_get_query_param_any req ks
      | Some v \<Rightarrow> if v \<noteq> [] then Some v else osi_get_query_param_any req ks)"

definition osi_parse_query_double :: "http_request \<Rightarrow> string list \<Rightarrow> dbl option" where
  "osi_parse_query_double req keys =
     (case osi_get_query_param_any req keys of None \<Rightarrow> None
      | Some v \<Rightarrow> (case c_strtod v of None \<Rightarrow> None
                   | Some (x, rest) \<Rightarrow> if rest = [] then Some x else None))"

definition osi_parse_query_int :: "http_request \<Rightarrow> string list \<Rightarrow> int option" where
  "osi_parse_query_int req keys =
     (case osi_get_query_param_any req keys of None \<Rightarrow> None
      | Some v \<Rightarrow> (case strtol10 v of None \<Rightarrow> None
                   | Some (x, rest) \<Rightarrow> if rest = [] then Some (int_of_long x) else None))"

definition range_days :: "string option \<Rightarrow> int" where
  "range_days rng =
     (case rng of None \<Rightarrow> 1
      | Some r \<Rightarrow> if r = ''7d'' then 7 else if r = ''30d'' then 30 else 1)"

text \<open>A given and nonempty \<open>from\<close> or \<open>to\<close> wins over the range.\<close>

definition given_time :: "http_request \<Rightarrow> string \<Rightarrow> int \<Rightarrow> int" where
  "given_time req key t =
     (case osi_get_query_param req key of None \<Rightarrow> t
      | Some v \<Rightarrow> if v \<noteq> [] then c_atoll v else t)"

definition osi_parse_time_range :: "int \<Rightarrow> http_request \<Rightarrow> (int \<times> int) result" where
  "osi_parse_time_range now req =
     (let start = given_time req ''from''
                    (now - range_days (osi_get_query_param req ''range'') * 86400);
          finish = given_time req ''to'' now
      in if start \<le> 0 \<or> finish \<le> start then Inl ERR_INVALID_ARG else Inr (start, finish))"

definition osi_default_forecast_range :: "int \<Rightarrow> http_request \<Rightarrow> int \<times> int \<Rightarrow> int \<times> int" where
  "osi_default_forecast_range now req r =
     (if osi_get_query_param req ''from'' \<noteq> None \<or> osi_get_query_param req ''to'' \<noteq> None then r
      else (now, now + range_days (osi_get_query_param req ''range'') * 86400))"

definition osi_load_request_facility :: "'j api_env \<Rightarrow> file_sys \<Rightarrow> http_request \<Rightarrow> facility_config result" where
  "osi_load_request_facility E fs req =
     (case osi_get_facility_config_dir fs 256 of
        Inl e \<Rightarrow> Inl e
      | Inr dir \<Rightarrow>
          (case fst (facility_get_configs (facility_parse_config (av_mem E) (av_config E fs))
                       (av_mem E) (av_list_conf E fs) dir) of
             None \<Rightarrow> Inl ERR_NOT_FOUND
           | Some configs \<Rightarrow>
               (case (case osi_get_query_param req ''name'' of
                        None \<Rightarrow> (case configs of [] \<Rightarrow> None | f # fs \<Rightarrow> Some f)
                      | Some n \<Rightarrow>
                          if n = [] then (case configs of [] \<Rightarrow> None | f # fs \<Rightarrow> Some f)
                          else List.find (\<lambda>f. cstr (fc_name f) = n) configs) of
                  None \<Rightarrow> Inl ERR_NOT_FOUND
                | Some f \<Rightarrow> Inr f)))"

section \<open>Texts\<close>

definition weather_line :: "weather_values \<Rightarrow> string" where
  "weather_line v =
     ''V,'' @ dec_int (wv_timestamp v) @ '','' @ fmt_fixed 1 (wv_temperature v) @ '','' @
     fmt_fixed 2 (wv_precipitation v) @ '','' @ fmt_fixed 1 (wv_windspeed v) @ '','' @
     fmt_fixed 0 (wv_radiation_shortwave v) @ [NL]"

text \<open>Each line is formatted into what is left of the buffer.\<close>

fun weather_lines :: "nat \<Rightarrow> string \<Rightarrow> weather_values list \<Rightarrow> string result" where
  "weather_lines capacity body [] = Inr body"
| "weather_lines capacity body (v # vs) =
     (let l = weather_line v
      in if capacity - length body \<le> length l then Inl ERR_NO_MEMORY
         else weather_lines capacity (body @ l) vs)"

definition weather_txt_head :: "weather \<Rightarrow> bool \<Rightarrow> string" where
  "weather_txt_head W forecast =
     ''M,'' @ dec_nat (length (we_values W)) @ '','' @ (if forecast then ''1'' else ''0'') @ '','' @
     dec_int (int_of_long (we_update_interval W)) @ [NL]"

definition osi_weather_to_txt :: "allocator \<Rightarrow> weather \<Rightarrow> bool \<Rightarrow> string result" where
  "osi_weather_to_txt alloc W forecast =
     (let capacity = 128 + length (we_values W) * 64;
          head = weather_txt_head W forecast
      in if \<not> alloc capacity then Inl ERR_NO_MEMORY
         else if capacity \<le> length head then Inl ERR_NO_MEMORY
         else weather_lines capacity head (we_values W))"

definition weather_item :: "(int \<Rightarrow> string option) \<Rightarrow> weather_values \<Rightarrow> json_doc" where
  "weather_item date v = J_obj
     ([(''timestamp'', J_num (of_int (wv_timestamp v)))] @
      (case date (wv_timestamp v) of None \<Rightarrow> [] | Some s \<Rightarrow> [(''timestamp_iso'', J_str s)]) @
      [(''temperature'', J_num (wv_temperature v)),
       (''precipitation'', J_num (wv_precipitation v)),
       (''windspeed'', J_num (wv_windspeed v)),
       (''winddirection'', J_num (of_int (uint (wv_winddirection_azimuth v)))),
       (''radiation_direct'', J_num (wv_radiation_direct v)),
       (''radiation_direct_n'', J_num (wv_radiation_direct_n v)),
       (''radiation_diffuse'', J_num (wv_radiation_diffuse v)),
       (''radiation_shortwave'', J_num (wv_radiation_shortwave v)),
       (''radiation_tilted'', J_num (wv_radiation_tilted v)),
       (''sun_duration'', J_num (of_int (wv_sun_duration v)))])"

definition weather_doc :: "(int \<Rightarrow> string option) \<Rightarrow> weather \<Rightarrow> bool \<Rightarrow> json_doc" where
  "weather_doc date W forecast = J_obj
     [(''meta'', J_obj
        [(''count'', J_num (of_nat (length (we_values W)))),
         (''forecast'', J_num (if forecast then 1 else 0)),
         (''interval_minutes'', J_num (of_int (we_update_interval W))),
         (''latitude'', J_num (we_latitude W)),
         (''longitude'', J_num (we_longitude W)),
         (''solar_panel_tilt'', J_num (of_int (uint (we_panel_tilt W)))),
         (''solar_panel_azimuth'', J_num (of_int (uint (we_panel_azimuth W)))),
         (''temperature_unit'', J_str (text_or_empty (we_temperature_unit W))),
         (''windspeed_unit'', J_str (text_or_empty (we_windspeed_unit W))),
         (''precipitation_unit'', J_str (text_or_empty (we_precipitation_unit W))),
         (''winddirection_unit'', J_str (text_or_empty (we_winddirection_unit W))),
         (''radiation_unit'', J_str (text_or_empty (we_radiation_unit W)))]),
      (''values'', J_list (map (weather_item date) (we_values W)))]"

definition print_result :: "(json_doc \<Rightarrow> string option) \<Rightarrow> json_doc \<Rightarrow> string result" where
  "print_result print d = (case print d of None \<Rightarrow> Inl ERR_NO_MEMORY | Some s \<Rightarrow> Inr s)"

definition osi_weather_to_json ::
  "(json_doc \<Rightarrow> string option) \<Rightarrow> (int \<Rightarrow> string option) \<Rightarrow> weather \<Rightarrow> bool \<Rightarrow> string result" where
  "osi_weather_to_json print date W forecast = print_result print (weather_doc date W forecast)"

definition spot_item :: "spot_price \<Rightarrow> json_doc" where
  "spot_item p = J_obj
     [(''time_start'', J_num (of_int (sp_time_start p))), (''time_end'', J_num (of_int (sp_time_end p))),
      (''spot_price'', J_num (sp_price p))]"

definition spots_doc :: "electricity_spots \<Rightarrow> json_doc" where
  "spots_doc S = J_obj
     [(''energy_zone'', J_num (of_int (price_class_int (es_price_class S) + 1))),
      (''unit'', J_str (case es_unit S of None \<Rightarrow> ''SEK/kWh'' | Some u \<Rightarrow> u)),
      (''interval_minutes'', J_num (of_nat (es_interval S))),
      (''count'', J_num (of_nat (length (es_prices S)))),
      (''prices'', J_list (map spot_item (es_prices S)))]"

definition osi_spots_to_json :: "(json_doc \<Rightarrow> string option) \<Rightarrow> electricity_spots \<Rightarrow> string result" where
  "osi_spots_to_json print S = print_result print (spots_doc S)"

end
