(* ===== verification/Opti_Endpoints.thy ===== *)
theory Opti_Endpoints
  imports Opti_Request
begin

text \<open>
  The API endpoints (\<open>server/src/opti/opti_instance.c\<close>, \<open>osi_get_*\<close>, \<open>osi_post_*\<close>, \<open>osi_recalc\<close>,
  \<open>osi_kill\<close>), the table \<open>Endpoints\<close> and its lookup. An endpoint takes the connection and the state
  of the API to a status, the connection with its response, and the new state. The pointers of the
  request context are never NULL when the instance task calls an endpoint, so the guards on them
  have no branch here.
\<close>

section \<open>Endpoints with a fixed text\<close>

definition osi_get_solar_data :: "'j api_env \<Rightarrow> http_conn \<times> api \<Rightarrow> api_result" where
  \<open>osi_get_solar_data E = respond_with E 200 json_type ''{"Solar":"No sun until April"}''\<close>

definition osi_get_temp_1_data :: "'j api_env \<Rightarrow> http_conn \<times> api \<Rightarrow> api_result" where
  \<open>osi_get_temp_1_data E =
     respond_with E 200 json_type (''{"Temp-Sensor":"It'' @ [CHR 0x27] @ ''s a me, Mario"}'')\<close>

definition osi_get_jacuzzi_data :: "'j api_env \<Rightarrow> http_conn \<times> api \<Rightarrow> api_result" where
  \<open>osi_get_jacuzzi_data E = respond_with E 200 json_type ''{"Jacuzzi":"Out of water"}''\<close>

definition osi_get_overview :: "'j api_env \<Rightarrow> http_conn \<times> api \<Rightarrow> api_result" where
  \<open>osi_get_overview E = respond_with E 200 json_type ''{"overview":Yahoooooooo}''\<close>

section \<open>Meter readings\<close>

definition osi_post_ingest :: "'j api_env \<Rightarrow> http_conn \<times> api \<Rightarrow> api_result" where
  "osi_post_ingest E s =
     (let (body, body_len) = osi_get_request_body (fst s)
      in if body = None \<or> body_len \<le> 0
         then respond_with E 400 json_type (json_error ''meter reading body missing'') s
         else case osi_parse_meter_reading_json (av_json E) body body_len of
           (SUCCESS, Some reading) \<Rightarrow>
             (let a = (snd s)\<lparr>ap_latest := Some (reading, av_now E)\<rparr>;
                  (store_result, store) = meter_store_insert_reading (av_insert E) reading (ap_store a);
                  a1 = a\<lparr>ap_store := store\<rparr>
              in if store_result \<noteq> SUCCESS then (store_result, fst s, a1)
                 else respond_with E 200 json_type (''{'' @ [CHR 0x22] @ ''status'' @ [CHR 0x22] @
                        '':'' @ [CHR 0x22] @ ''ok'' @ [CHR 0x22] @ ''}'') (fst s, a1))
         | _ \<Rightarrow> respond_with E 400 json_type (json_error ''invalid meter reading'') s)"

definition meter_printer :: "'j api_env \<Rightarrow> (string \<times> json_val) list \<Rightarrow> string option" where
  "meter_printer E items = av_print E (J_obj (map (\<lambda>(k, v). (k, doc_of v)) items))"

definition osi_get_power_current :: "'j api_env \<Rightarrow> http_conn \<times> api \<Rightarrow> api_result" where
  "osi_get_power_current E s =
     (case ap_latest (snd s) of
        None \<Rightarrow> respond_with E 404 json_type (json_error ''no meter reading available'') s
      | Some (reading, received_at) \<Rightarrow>
          (case osi_meter_reading_to_json (meter_printer E) reading received_at of
             Inl e \<Rightarrow> (e, s)
           | Inr body \<Rightarrow> respond_with E 200 json_type body s))"

definition osi_get_display_current :: "'j api_env \<Rightarrow> http_conn \<times> api \<Rightarrow> api_result" where
  "osi_get_display_current E s = osi_get_power_current E s"

section \<open>The weather cache\<close>

record place =
  pl_lat :: flt
  pl_lon :: flt
  pl_tilt :: int
  pl_azimuth :: int

definition latitude_keys :: "string list" where "latitude_keys = [''latitude'', ''lat'']"
definition longitude_keys :: "string list" where "longitude_keys = [''longitude'', ''lon'']"
definition tilt_keys :: "string list" where "tilt_keys = [''panel_tilt'', ''panel.tilt'']"
definition azimuth_keys :: "string list" where "azimuth_keys = [''panel_azimuth'', ''panel.azimuth'']"

definition facility_place :: "facility_config \<Rightarrow> place" where
  "facility_place f = \<lparr>pl_lat = fc_lat f, pl_lon = fc_lon f,
     pl_tilt = (case fc_panel f of None \<Rightarrow> 0 | Some p \<Rightarrow> uint (pn_tilt p)),
     pl_azimuth = (case fc_panel f of None \<Rightarrow> 0 | Some p \<Rightarrow> sint (pn_azimuth p))\<rparr>"

text \<open>Without a facility the place must come from the query: the status and text of the refusal, or
  the place.\<close>

definition query_place :: "http_request \<Rightarrow> (int \<times> string) + place" where
  "query_place req =
     (if osi_get_query_param_any req latitude_keys = None \<or>
         osi_get_query_param_any req longitude_keys = None
      then Inl (404, json_error ''facility not found'')
      else case (osi_parse_query_double req latitude_keys, osi_parse_query_double req longitude_keys) of
        (Some lat, Some lon) \<Rightarrow>
          if osi_get_query_param_any req tilt_keys \<noteq> None \<and> osi_parse_query_int req tilt_keys = None
          then Inl (400, json_error ''invalid panel_tilt'')
          else if osi_get_query_param_any req azimuth_keys \<noteq> None \<and>
                  osi_parse_query_int req azimuth_keys = None
          then Inl (400, json_error ''invalid panel_azimuth'')
          else Inr \<lparr>pl_lat = lat, pl_lon = lon,
                    pl_tilt = (case osi_parse_query_int req tilt_keys of None \<Rightarrow> 0 | Some t \<Rightarrow> t),
                    pl_azimuth = (case osi_parse_query_int req azimuth_keys of None \<Rightarrow> 0
                                  | Some z \<Rightarrow> max 0 z)\<rparr>
      | _ \<Rightarrow> Inl (400, json_error ''invalid latitude/longitude''))"

text \<open>Then every parameter that parses replaces a part of the place.\<close>

definition override_place :: "http_request \<Rightarrow> place \<Rightarrow> place" where
  "override_place req p = \<lparr>
     pl_lat = (case osi_parse_query_double req latitude_keys of None \<Rightarrow> pl_lat p | Some x \<Rightarrow> x),
     pl_lon = (case osi_parse_query_double req longitude_keys of None \<Rightarrow> pl_lon p | Some x \<Rightarrow> x),
     pl_tilt = (case osi_parse_query_int req tilt_keys of None \<Rightarrow> pl_tilt p | Some x \<Rightarrow> x),
     pl_azimuth = (case osi_parse_query_int req azimuth_keys of None \<Rightarrow> pl_azimuth p
                   | Some x \<Rightarrow> max 0 x)\<rparr>"

text \<open>The reads: the range asked for; for a forecast without values, the forecasts around now; and
  without those, the measured values of the last day.\<close>

definition cached_weather ::
  "'j api_env \<Rightarrow> sql_helper \<Rightarrow> place \<Rightarrow> bool \<Rightarrow> int \<times> int \<Rightarrow> status \<times> weather" where
  "cached_weather E h p forecast r =
     (let again = (\<lambda>k out fc t0 t1. sql_helper_read_weather (av_reads E k) (av_scan E) out (pl_lat p)
                      (pl_lon p) (pl_tilt p) (pl_azimuth p) fc t0 t1 h);
          r1 = again 0 no_weather forecast (fst r) (snd r);
          r2 = (if fst r1 = SUCCESS \<and> forecast \<and> we_values (snd r1) = []
                then again 1 no_weather True (av_now E - 86400) (av_now E + 7 * 86400) else r1)
      in if fst r2 = SUCCESS \<and> forecast \<and> we_values (snd r2) = []
         then again 2 no_weather False (av_now E - 86400) (av_now E + 3600) else r2)"

definition osi_get_weather_cache :: "'j api_env \<Rightarrow> http_conn \<times> api \<Rightarrow> api_result" where
  "osi_get_weather_cache E s =
     (let req = request (fst s)
      in case osi_parse_time_range (av_now E) req of
        Inl e \<Rightarrow> respond_with E 400 json_type (json_error ''invalid time range'') s
      | Inr r \<Rightarrow>
          (case (case osi_load_request_facility E (ap_fs (snd s)) req of
                   Inr f \<Rightarrow> Inr (facility_place f) | Inl e \<Rightarrow> query_place req) of
             Inl (code, msg) \<Rightarrow> respond_with E code json_type msg s
           | Inr p0 \<Rightarrow>
               (let p = override_place req p0;
                    forecast = (case osi_get_query_param req ''forecast'' of None \<Rightarrow> False
                                | Some v \<Rightarrow> v \<noteq> ''0'');
                    rng = (if forecast then osi_default_forecast_range (av_now E) req r else r);
                    (read_result, W) = cached_weather E (ap_cache (snd s)) p forecast rng
                in if read_result \<noteq> SUCCESS then (read_result, s)
                   else case osi_weather_to_txt (av_mem E) W forecast of
                     Inl e \<Rightarrow> (e, s)
                   | Inr body \<Rightarrow> respond_with E 200 ''text/plain'' body s)))"

section \<open>The spot price cache\<close>

text \<open>The energy zones are 1 to 4. What is left for the second test is 0.\<close>

definition zone_class :: "int \<Rightarrow> spot_price_class" where
  "zone_class zone =
     (if 1 \<le> zone \<and> zone \<le> 4 then price_class_of (zone - 1)
      else if 0 \<le> zone \<and> zone \<le> 3 then price_class_of zone else SE3)"

definition zone_keys :: "string list" where "zone_keys = [''energy_zone'', ''price_class'']"

definition request_zone :: "'j api_env \<Rightarrow> file_sys \<Rightarrow> http_request \<Rightarrow> (int \<times> string) + int" where
  "request_zone E fs req =
     (if osi_get_query_param_any req zone_keys \<noteq> None
      then (case osi_parse_query_int req zone_keys of
              None \<Rightarrow> Inl (400, json_error ''invalid energy_zone'') | Some z \<Rightarrow> Inr z)
      else case osi_load_request_facility E fs req of
        Inr f \<Rightarrow> Inr (price_class_int (fc_price_class f) + 1)
      | Inl e \<Rightarrow> if osi_get_query_param req ''name'' \<noteq> None
                  then Inl (404, json_error ''facility not found'') else Inr 3)"

definition osi_get_spot_cache :: "'j api_env \<Rightarrow> http_conn \<times> api \<Rightarrow> api_result" where
  "osi_get_spot_cache E s =
     (let req = request (fst s)
      in case osi_parse_time_range (av_now E) req of
        Inl e \<Rightarrow> respond_with E 400 json_type (json_error ''invalid time range'') s
      | Inr (start, finish) \<Rightarrow>
          (case request_zone E (ap_fs (snd s)) req of
             Inl (code, msg) \<Rightarrow> respond_with E code json_type msg s
           | Inr zone \<Rightarrow>
               (case sql_helper_read_spots (av_reads E 0) no_spots (zone_class zone) SPOT_SEK start finish
                       (ap_cache (snd s)) of
                  (read_result, S) \<Rightarrow>
                    if read_result \<noteq> SUCCESS then (read_result, s)
                    else case osi_spots_to_json (av_print E) S of
                      Inl e \<Rightarrow> (e, s)
                    | Inr body \<Rightarrow> respond_with E 200 json_type body s)))"

section \<open>Files of the calculations\<close>

definition display_graph_file :: "'j api_env \<Rightarrow> string \<Rightarrow> string \<Rightarrow> string \<Rightarrow> string" where
  "display_graph_file E dir name suffix =
     dir @ ''/'' @ name @ ''-Consumption_'' @ av_date E ''%Y-%m-%d'' (av_now E) @ ''-display'' @ suffix @
     ''.json''"

text \<open>The text of a missing file is formatted into 256 bytes and replaced by a shorter one if it does
  not fit.\<close>

definition graph_missing :: "string \<Rightarrow> string" where
  "graph_missing filename =
     (let m = json_error (''display graph not available ('' @ filename @ '')'')
      in if 256 \<le> length m then json_error ''display graph not available'' else m)"

definition graph_facility :: "'j api_env \<Rightarrow> file_sys \<Rightarrow> http_request \<Rightarrow> string + string" where
  "graph_facility E fs req =
     (case osi_get_query_param req ''name'' of
        None \<Rightarrow> (case osi_get_default_facility_name fs 128 of
                   Inl e \<Rightarrow> Inl (json_error ''no facility available'') | Inr n \<Rightarrow> Inr n)
      | Some v \<Rightarrow>
          if v = [] then (case osi_get_default_facility_name fs 128 of
                   Inl e \<Rightarrow> Inl (json_error ''no facility available'') | Inr n \<Rightarrow> Inr n)
          else (case osi_load_request_facility E fs req of
                  Inl e \<Rightarrow> Inl (json_error ''facility not found'')
                | Inr f \<Rightarrow> if cstr (fc_name f) = [] then Inl (json_error ''facility not found'')
                           else Inr (snprintf_trunc 128 (cstr (fc_name f)))))"

definition osi_get_display_graph_hour :: "'j api_env \<Rightarrow> http_conn \<times> api \<Rightarrow> api_result" where
  "osi_get_display_graph_hour E s =
     (let req = request (fst s); fs = ap_fs (snd s)
      in case graph_facility E fs req of
        Inl msg \<Rightarrow> respond_with E 404 json_type msg s
      | Inr name \<Rightarrow>
          (case osi_get_calcs_dir fs 256 of
             Inl e \<Rightarrow> respond_with E 500 json_type (json_error ''failed to resolve calcs dir'') s
           | Inr dir \<Rightarrow>
               (let suffix = (if osi_get_query_param req ''range'' = Some ''7d'' then ''-7d''
                              else if osi_get_query_param req ''range'' = Some ''30d'' then ''-30d''
                              else []);
                    filename = display_graph_file E dir name suffix
                in if 512 \<le> length filename
                   then respond_with E 500 json_type
                          (json_error ''failed to format display graph filename'') s
                   else case fs_read fs filename of
                     None \<Rightarrow> respond_with E 503 json_type (graph_missing filename) s
                   | Some text \<Rightarrow> respond_with E 200 json_type text s)))"

text \<open>The loop over the parameters: the last one of a name counts.\<close>

record daily_params =
  dp_name :: "string option"
  dp_type :: "string option"
  dp_epd :: int

definition daily_param :: "string \<times> string \<Rightarrow> daily_params \<Rightarrow> daily_params" where
  "daily_param kv d =
     (let k = cstr (fst kv); v = cstr (snd kv);
          d1 = (if k = ''name'' then d\<lparr>dp_name := Some v\<rparr> else d);
          d2 = (if k = ''epd'' \<or> k = ''sp'' then d1\<lparr>dp_epd := c_atoi v\<rparr> else d1)
      in if k = ''type'' then d2\<lparr>dp_type := Some v\<rparr> else d2)"

definition daily_request :: "http_request \<Rightarrow> daily_params" where
  "daily_request req =
     fold daily_param (case req_params req of None \<Rightarrow> [] | Some kvs \<Rightarrow> kvs)
       \<lparr>dp_name = None, dp_type = None, dp_epd = 96\<rparr>"

text \<open>The directory is the default one, whatever \<open>data.calcs.dir\<close> says. For a missing file the message is
  formatted into 256 bytes, and then byte \<open>len\<close> is set, where
  \<open>len\<close> is the length that the message would have had.\<close>

definition osi_get_average_daily :: "'j api_env \<Rightarrow> http_conn \<times> api \<Rightarrow> api_result" where
  "osi_get_average_daily E s =
     (let d = daily_request (request (fst s))
      in case dp_name d of
        None \<Rightarrow> respond_with E 503 json_type
                  (json_error (''Missing parameter for '' @ [CHR 0x27] @ ''name'' @ [CHR 0x27])) s
      | Some name \<Rightarrow>
          (case calc_name_get_daily (av_mem E) (av_date E ''%Y-%m-%d'' (av_now E))
                  calcs_default_directory name
                  (case dp_type d of None \<Rightarrow> ''json'' | Some t \<Rightarrow> t) (dp_epd d) of
             None \<Rightarrow> respond_with E 500 json_type (json_error ''Failed to format filename'') s
           | Some filename \<Rightarrow>
               (case fs_read (ap_fs (snd s)) filename of
                  None \<Rightarrow>
                    (let m = json_error (''File not found ('' @ filename @ '')'')
                     in respond_with E 503 json_type (snprintf_trunc 256 m)
                          (fst s, (snd s)\<lparr>ap_writes := ap_writes (snd s) @ [(256, length m)]\<rparr>))
                | Some text \<Rightarrow> respond_with E 200 json_type text s)))"

definition osi_get_average_hourly :: "'j api_env \<Rightarrow> http_conn \<times> api \<Rightarrow> api_result" where
  "osi_get_average_hourly E s =
     (let filename = ''/var/lib/maestro/calcs/'' @ av_date E ''%Y%m%d'' (av_now E) @ ''-SP24-SE3.json''
      in if 256 \<le> length filename
         then respond_with E 503 json_type (json_error ''average.json not available'') s
         else case fs_read (ap_fs (snd s)) filename of
           None \<Rightarrow> respond_with E 503 json_type (json_error ''average.json not available'') s
         | Some text \<Rightarrow> respond_with E 200 json_type text s)"

section \<open>Facility configurations\<close>

definition missing_name :: string where
  "missing_name = json_error (''Missing parameter for '' @ [CHR 0x27] @ ''name'' @ [CHR 0x27])"

definition osi_get_config :: "'j api_env \<Rightarrow> http_conn \<times> api \<Rightarrow> api_result" where
  "osi_get_config E s =
     (case osi_get_query_param (request (fst s)) ''name'' of
        None \<Rightarrow> respond_with E 400 json_type missing_name s
      | Some name \<Rightarrow>
          if name = [] then respond_with E 400 json_type missing_name s
          else (case osi_find_facility_config_path (ap_fs (snd s)) name False 512 of
              Inl e \<Rightarrow> respond_with E 404 json_type (json_error ''facility config not found'') s
            | Inr path \<Rightarrow>
                (case fs_read (ap_fs (snd s)) path of
                   None \<Rightarrow> respond_with E 503 json_type
                             (json_error ''facility config not available'') s
                 | Some text \<Rightarrow> respond_with E 200 ''text/plain'' text s)))"

definition osi_get_facilities :: "'j api_env \<Rightarrow> http_conn \<times> api \<Rightarrow> api_result" where
  "osi_get_facilities E s =
     (case osi_collect_facility_names (av_mem E) (ap_fs (snd s)) of
        Inl e \<Rightarrow> respond_with E 503 json_type (json_error ''failed to list facilities'') s
      | Inr body \<Rightarrow> respond_with E 200 ''text/plain'' body s)"

definition osi_blank_facility_config :: string where
  "osi_blank_facility_config = unlines [''name='', ''currency=SEK'', ''energy_zone=3'', ''latitude=0'',
     ''longitude=0'', ''panel.tilt=0'', ''panel.azimuth=0'', ''panel.m2_size=0'']"

text \<open>The text that a posted update is merged into.\<close>

definition existing_config :: "file_sys \<Rightarrow> string \<Rightarrow> string" where
  "existing_config fs path =
     (case fs_read fs path of
        Some text \<Rightarrow> text
      | None \<Rightarrow> (case osi_load_template_config fs of
                   Inr text \<Rightarrow> text | Inl e \<Rightarrow> osi_blank_facility_config))"

definition log_command :: "opti_command \<Rightarrow> api \<Rightarrow> api" where
  "log_command cmd a = a\<lparr>ap_commands := ap_commands a @ [cmd]\<rparr>"

text \<open>The commands after the file is saved: the results of the two on the socket are not looked at.\<close>

definition config_saved :: "'j api_env \<Rightarrow> http_conn \<times> api \<Rightarrow> api_result" where
  "config_saved E s =
     (let c = fst s; a1 = log_command (Shell ''pkill -USR2 optimizer'') (snd s)
      in if av_system E ''pkill -USR2 optimizer'' \<noteq> 0
         then respond_with E 503 json_type
                (json_error ''facility config saved but reload signal failed'') (c, a1)
         else (let a2 = log_command (Shell ''pkill -USR1 optimizer'')
                          (log_command (Uds ''run'') (log_command (Uds ''reload'') a1))
               in if av_system E ''pkill -USR1 optimizer'' \<noteq> 0
                  then respond_with E 503 json_type
                         (json_error ''facility config saved but calculation trigger failed'') (c, a2)
                  else respond_with E 200 json_type
                         (''{'' @ [CHR 0x22] @ ''status'' @ [CHR 0x22] @ '':'' @ [CHR 0x22] @
                          ''facility config saved'' @ [CHR 0x22] @ ''}'') (c, a2)))"

definition save_config :: "'j api_env \<Rightarrow> string \<Rightarrow> string \<Rightarrow> http_conn \<times> api \<Rightarrow> api_result" where
  "save_config E path merged s =
     (if \<not> av_fopen E path
      then respond_with E 503 json_type (json_error ''failed to open facility config'') s
      else case av_written E of
        Some n \<Rightarrow> respond_with E 503 json_type (json_error ''failed to write facility config'')
                    (fst s, (snd s)\<lparr>ap_fs := fs_write (av_place E) path (take n merged) (ap_fs (snd s))\<rparr>)
      | None \<Rightarrow> config_saved E
                  (fst s, (snd s)\<lparr>ap_fs := fs_write (av_place E) path merged (ap_fs (snd s))\<rparr>))"

definition osi_post_config :: "'j api_env \<Rightarrow> http_conn \<times> api \<Rightarrow> api_result" where
  "osi_post_config E s =
     (case osi_get_query_param (request (fst s)) ''name'' of
        None \<Rightarrow> respond_with E 400 json_type missing_name s
      | Some name \<Rightarrow>
          if name = [] then respond_with E 400 json_type missing_name s
          else (let (body, body_len) = osi_get_request_body (fst s)
                in if body = None \<or> body_len \<le> 0
                   then respond_with E 400 json_type (json_error ''config body missing'') s
                   else case osi_parse_config_updates (av_mem E) body body_len (ap_updates (snd s)) of
                     (parse_result, tbl, ws) \<Rightarrow>
                       (let a = (snd s)\<lparr>ap_updates := tbl, ap_writes := ap_writes (snd s) @ ws\<rparr>;
                            c = fst s
                        in if parse_result = ERR_INVALID_ARG
                           then respond_with E 400 json_type
                                  (json_error ''invalid config key in update'') (c, a)
                           else if parse_result \<noteq> SUCCESS
                           then respond_with E 503 json_type
                                  (json_error ''failed to parse config update'') (c, a)
                           else case osi_find_facility_config_path (ap_fs a) name True 512 of
                             Inl e \<Rightarrow> respond_with E 503 json_type
                                  (json_error ''failed to resolve facility config path'') (c, a)
                           | Inr path \<Rightarrow>
                               (case osi_merge_config_updates (av_mem E)
                                       (existing_config (ap_fs a) path) tbl of
                                  (Inr (Some merged), tbl1) \<Rightarrow>
                                    save_config E path (cstr merged) (c, a\<lparr>ap_updates := tbl1\<rparr>)
                                | (r, tbl1) \<Rightarrow>
                                    respond_with E 503 json_type
                                      (json_error ''failed to merge facility config update'')
                                      (c, a\<lparr>ap_updates := tbl1\<rparr>)))))"

section \<open>Commands to the optimizer\<close>

definition osi_recalc :: "'j api_env \<Rightarrow> http_conn \<times> api \<Rightarrow> api_result" where
  "osi_recalc E s =
     (let c = fst s; a1 = log_command (Uds ''reload'') (snd s)
      in if av_uds E ''reload'' \<noteq> SUCCESS
         then respond_with E 500 json_type ''Failed to reload config'' (c, a1)
         else (let a2 = log_command (Uds ''run'') a1
               in if av_uds E ''run'' \<noteq> SUCCESS
                  then respond_with E 500 json_type ''Failed to run calculations'' (c, a2)
                  else respond_with E 200 json_type ''Reloaded config and ran calculations'' (c, a2)))"

definition osi_kill :: "'j api_env \<Rightarrow> http_conn \<times> api \<Rightarrow> api_result" where
  "osi_kill E s =
     (let c = fst s; a1 = log_command (Uds ''kill'') (snd s)
      in if av_uds E ''kill'' \<noteq> SUCCESS
         then respond_with E 500 json_type ''Failed to reload config'' (c, a1)
         else respond_with E 200 json_type ''Committed first degree murder on optimizer'' (c, a1))"

section \<open>The table of endpoints\<close>

datatype endpoint =
    Solar | Temp_1 | Jacuzzi | Overview | Average_daily | Average_hourly | Get_config | Post_config
  | Recalc | Kill_optimizer | Facilities | Ingest | Weather_cache | Spot_cache | Power_current
  | Display_current | Display_graph_hour

fun endpoint_func :: "endpoint \<Rightarrow> 'j api_env \<Rightarrow> http_conn \<times> api \<Rightarrow> api_result" where
  "endpoint_func Solar = osi_get_solar_data"
| "endpoint_func Temp_1 = osi_get_temp_1_data"
| "endpoint_func Jacuzzi = osi_get_jacuzzi_data"
| "endpoint_func Overview = osi_get_overview"
| "endpoint_func Average_daily = osi_get_average_daily"
| "endpoint_func Average_hourly = osi_get_average_hourly"
| "endpoint_func Get_config = osi_get_config"
| "endpoint_func Post_config = osi_post_config"
| "endpoint_func Recalc = osi_recalc"
| "endpoint_func Kill_optimizer = osi_kill"
| "endpoint_func Facilities = osi_get_facilities"
| "endpoint_func Ingest = osi_post_ingest"
| "endpoint_func Weather_cache = osi_get_weather_cache"
| "endpoint_func Spot_cache = osi_get_spot_cache"
| "endpoint_func Power_current = osi_get_power_current"
| "endpoint_func Display_current = osi_get_display_current"
| "endpoint_func Display_graph_hour = osi_get_display_graph_hour"

definition Endpoints :: "(string \<times> http_method \<times> endpoint) list" where
  "Endpoints =
    [(''/solar-cell'', HTTP_GET, Solar),
     (''/temp-sensor-1'', HTTP_GET, Temp_1),
     (''/jacuzzi'', HTTP_GET, Jacuzzi),
     (''/overview'', HTTP_GET, Overview),
     (''/average-daily'', HTTP_GET, Average_daily),
     (''/average-hourly'', HTTP_GET, Average_hourly),
     (''/config'', HTTP_GET, Get_config),
     (''/config'', HTTP_POST, Post_config),
     (''/recalc'', HTTP_GET, Recalc),
     (''/kill'', HTTP_GET, Kill_optimizer),
     (''/facilities'', HTTP_GET, Facilities),
     (''/ingest'', HTTP_POST, Ingest),
     (''/weather/cache'', HTTP_GET, Weather_cache),
     (''/spot-price/cache'', HTTP_GET, Spot_cache),
     (''/power/current'', HTTP_GET, Power_current),
     (''/display/current'', HTTP_GET, Display_current),
     (''/display/graph/hour'', HTTP_GET, Display_graph_hour)]"

definition api_endpoint_root :: string where
  "api_endpoint_root = ''/api/v1''"

text \<open>The loop of \<open>worktask_request_parse\<close> over the table.\<close>

fun find_endpoint ::
  "http_method \<Rightarrow> string \<Rightarrow> (string \<times> http_method \<times> endpoint) list \<Rightarrow> endpoint option" where
  "find_endpoint m path [] = None"
| "find_endpoint m path ((p, m', e) # rest) =
     (if m = m' \<and> path = api_endpoint_root @ p then Some e else find_endpoint m path rest)"

end
