(* ===== verification/Opti_Samples.thy ===== *)
theory Opti_Samples
  imports Opti_Endpoints
begin

text \<open>
  A concrete environment and state of the API, on which the properties are evaluated: one facility
  \<open>Home\<close> in one file, empty databases, calls that succeed, and a printer that prints every document as
  the same text.
\<close>

definition home_text :: string where
  "home_text = unlines [''name=Home'', ''currency=SEK'']"

definition home_fs :: file_sys where
  "home_fs = \<lparr>fs_read = (\<lambda>p. if p = ''/etc/maestro/facility/home.conf'' then Some home_text else None),
     fs_dir = (\<lambda>d. if d = ''/etc/maestro/facility'' then Some [''home.conf''] else None)\<rparr>"

definition plain_env :: "tree api_env" where
  "plain_env = \<lparr>av_now = 1000000, av_mem = mem_unlimited, av_reason = (\<lambda>n. None),
     av_json = sample_json, av_print = (\<lambda>d. Some ''{}''), av_iso = (\<lambda>t. None),
     av_date = (\<lambda>f t. replicate 10 (CHR ''0'')), av_config = (\<lambda>fs p k. None),
     av_list_conf = (\<lambda>fs d. None), av_insert = ok_env 1000000, av_reads = (\<lambda>k. calls_fine 1000000),
     av_scan = id, av_fopen = (\<lambda>p. True), av_written = None, av_place = 0,
     av_system = (\<lambda>cmd. 1), av_uds = (\<lambda>cmd. SUCCESS)\<rparr>"

definition plain_api :: api where
  "plain_api = \<lparr>ap_fs = home_fs, ap_latest = None, ap_updates = osi_config_updates,
     ap_store = at_rest [], ap_cache = \<lparr>sh_db = Some (sql_rest no_tables), sh_locked = False\<rparr>,
     ap_commands = [], ap_writes = []\<rparr>"

text \<open>A connection that waits for the API.\<close>

definition asked :: "http_method \<Rightarrow> string \<Rightarrow> key_values \<Rightarrow> string \<Rightarrow> http_conn" where
  "asked m path params body = http_server_connection_init\<lparr>state := WEATHER_HANDOVER,
     conn_data := body, content_length := int (length body),
     request := empty_request\<lparr>req_method := m, req_path := Some path, req_params := Some params\<rparr>,
     events := [OnRequest]\<rparr>"

lemma plain_simps [simp]:
  "av_mem plain_env = mem_unlimited" "av_now plain_env = 1000000" "av_print plain_env d = Some ''{}''"
  "av_reads plain_env k = calls_fine 1000000" "av_scan plain_env = id" "av_written plain_env = None"
  "av_fopen plain_env p = True" "av_list_conf plain_env fs dir = None" "av_reason plain_env n = None"
  "ap_fs plain_api = home_fs" "ap_updates plain_api = osi_config_updates"
  "ap_cache plain_api = \<lparr>sh_db = Some (sql_rest no_tables), sh_locked = False\<rparr>"
  "ap_writes plain_api = []" "ap_commands plain_api = []"
  by (simp_all add: plain_env_def plain_api_def)

lemma asked_simps [simp]:
  "req_params (request (asked m path params body)) = Some params"
  "req_path (request (asked m path params body)) = Some path"
  "req_method (request (asked m path params body)) = m"
  "state (asked m path params body) = WEATHER_HANDOVER"
  "weather_done (asked m path params body) = False"
  "events (asked m path params body) = [OnRequest]"
  by (simp_all add: asked_def http_server_connection_init_def)

lemma home_dir:
  "osi_get_facility_config_dir home_fs 256 = Inr ''/etc/maestro/facility''"
  "fs_dir home_fs ''/etc/maestro/facility'' = Some [''home.conf'']"
  by code_simp+

lemma home_entry:
  "List.find (\<lambda>e. conf_entry e \<and> entry_name home_fs ''/etc/maestro/facility'' e = Some ''Home'') [''home.conf''] =
     Some ''home.conf''"
  "List.find (\<lambda>e. conf_entry e \<and> entry_name home_fs ''/etc/maestro/facility'' e = Some ''New'') [''home.conf''] =
     None"
  by code_simp+

end
