(* ===== verification/Opti_Answers.thy ===== *)
theory Opti_Answers
  imports Opti_Samples "HOL-Library.Multiset"
begin

text \<open>
  What holds of all endpoints: the routes, the form of the responses, what a request can change.
\<close>

section \<open>Routes\<close>

lemma find_endpoint_map_of:
  "find_endpoint m path tbl =
     map_of (map (\<lambda>(p, m', e). ((m', api_endpoint_root @ p), e)) tbl) (m, path)"
  by (induction tbl) auto

lemma routes_distinct: "distinct (map (\<lambda>(p, m, e). (m, p)) Endpoints)"
  by code_simp

text \<open>C32: The lookup of an endpoint is a lookup in a map: method and path determine the endpoint, in
  whatever order the table lists its entries, and all 17 endpoints have a route.\<close>

theorem routing_is_a_map:
  assumes "mset tbl = mset Endpoints"
  shows "find_endpoint m path tbl = Some e \<longleftrightarrow>
    (\<exists>p. path = api_endpoint_root @ p \<and> (p, m, e) \<in> set Endpoints)"
proof -
  let ?key = "\<lambda>(p, m' :: http_method, e :: endpoint). ((m', api_endpoint_root @ p), e)"
  have "mset (map (\<lambda>(p, m, e). (m, p)) tbl) = mset (map (\<lambda>(p, m, e). (m, p)) Endpoints)"
    using assms by simp
  from mset_eq_imp_distinct_iff [OF this] routes_distinct
  have "distinct (map (\<lambda>(p, m, e). (m, p)) tbl)" by blast
  then have "distinct (map ((\<lambda>(m :: http_method, p). (m, api_endpoint_root @ p)) \<circ> (\<lambda>(p, m, e). (m, p))) tbl)"
    by (simp only: map_map [symmetric] distinct_map [of _ "map _ _"]) (simp add: inj_on_def case_prod_beta prod_eq_iff)
  moreover have "(\<lambda>(m :: http_method, p). (m, api_endpoint_root @ p)) \<circ> (\<lambda>(p, m, e). (m, p)) = fst \<circ> ?key"
    by (rule ext) (simp add: case_prod_beta)
  ultimately have "distinct (map fst (map ?key tbl))" by (simp only: map_map)
  then have "find_endpoint m path tbl = Some e \<longleftrightarrow> ((m, path), e) \<in> set (map ?key tbl)"
    unfolding find_endpoint_map_of by (rule map_of_eq_Some_iff)
  also have "\<dots> \<longleftrightarrow> ((m, path), e) \<in> set (map ?key Endpoints)"
    using mset_eq_setD [OF assms] by simp
  also have "\<dots> \<longleftrightarrow> (\<exists>p. path = api_endpoint_root @ p \<and> (p, m, e) \<in> set Endpoints)"
    unfolding set_map by force
  finally show ?thesis .
qed

theorem routing_is_a_map_witness:
  "find_endpoint HTTP_POST ''/api/v1/config'' (rev Endpoints) = Some Post_config \<and>
   find_endpoint HTTP_POST ''/api/v1/kill'' (rev Endpoints) = None"
proof -
  have m: "mset (rev Endpoints) = mset Endpoints" by simp
  have "(''/config'', HTTP_POST, Post_config) \<in> set Endpoints" by code_simp
  then have "find_endpoint HTTP_POST ''/api/v1/config'' (rev Endpoints) = Some Post_config"
    unfolding routing_is_a_map [OF m] by (simp add: api_endpoint_root_def)
  moreover have "find_endpoint HTTP_POST ''/api/v1/kill'' (rev Endpoints) = None"
    by (simp add: find_endpoint_map_of Endpoints_def api_endpoint_root_def)
  ultimately show ?thesis by simp
qed

section \<open>The form of the responses\<close>

text \<open>The connection after a response was set.\<close>

definition answer :: "'j api_env \<Rightarrow> int \<Rightarrow> string \<Rightarrow> string \<Rightarrow> http_conn \<Rightarrow> http_conn" where
  "answer E code ctype body c =
     c\<lparr>response := \<lparr>resp_status = code, full_response = Some (http_message code
        (cstr (case av_reason E code of None \<Rightarrow> ''OK'' | Some r \<Rightarrow> r)) (cstr ctype) (cstr body))\<rparr>,
       weather_done := True\<rparr>"

definition api_codes :: "int set" where
  "api_codes = {200, 400, 404, 500, 503}"

text \<open>An endpoint succeeds with a complete response, or fails and leaves the response alone but for
  its status; it fails for want of memory or because of its databases.\<close>

definition proper :: "'j api_env \<Rightarrow> http_conn \<Rightarrow> api_result \<Rightarrow> bool" where
  "proper E c r \<longleftrightarrow>
     (fst r = SUCCESS \<and> (\<exists>n. av_mem E n) \<and>
        (\<exists>code \<in> api_codes. \<exists>ctype body. fst (snd r) = answer E code ctype body c)) \<or>
     (fst r \<noteq> SUCCESS \<and> (\<exists>n. fst (snd r) = set_status n c))"

lemma set_response_cases:
  "osi_set_response E code ctype body c =
     (if av_mem E (length (http_message code (cstr (case av_reason E code of None \<Rightarrow> ''OK'' | Some r \<Rightarrow> r))
                             (cstr ctype) (cstr body)) + 1)
      then (SUCCESS, answer E code ctype body c) else (ERR_NO_MEMORY, set_status code c))"
  by (simp add: osi_set_response_def answer_def set_status_def Let_def)

lemma set_status_same [simp]: "set_status (resp_status (response c)) c = c"
  by (simp add: set_status_def)

lemma proper_respond: "code \<in> api_codes \<Longrightarrow> fst s = c \<Longrightarrow> proper E c (respond_with E code ctype body s)"
  by (auto simp: proper_def respond_with_def set_response_cases)

lemma proper_fail: "e \<noteq> SUCCESS \<Longrightarrow> fst s = c \<Longrightarrow> proper E c (e, s)"
  unfolding proper_def by (metis fst_conv snd_conv set_status_same)

lemma api_codes_mem [simp]:
  "200 \<in> api_codes" "400 \<in> api_codes" "404 \<in> api_codes" "500 \<in> api_codes" "503 \<in> api_codes"
  by (simp_all add: api_codes_def)

text \<open>The errors that an endpoint passes on are no success.\<close>

lemma meter_json_error: "osi_meter_reading_to_json p r t = Inl e \<Longrightarrow> e \<noteq> SUCCESS"
  by (auto simp: osi_meter_reading_to_json_def split: option.splits)

lemma weather_lines_error: "weather_lines n b vs = Inl e \<Longrightarrow> e = ERR_NO_MEMORY"
  by (induction n b vs rule: weather_lines.induct) (auto simp: Let_def split: if_splits)

lemma weather_txt_error: "osi_weather_to_txt al W f = Inl e \<Longrightarrow> e \<noteq> SUCCESS"
  by (auto simp: osi_weather_to_txt_def Let_def split: if_splits dest: weather_lines_error)

lemma spots_json_error: "osi_spots_to_json p S = Inl e \<Longrightarrow> e \<noteq> SUCCESS"
  by (auto simp: osi_spots_to_json_def print_result_def split: option.splits)

lemma query_place_error: "query_place req = Inl (code, msg) \<Longrightarrow> code \<in> api_codes"
  by (auto simp: query_place_def split: if_splits option.splits)

lemma request_zone_error: "request_zone E fs req = Inl (code, msg) \<Longrightarrow> code \<in> api_codes"
  by (auto simp: request_zone_def split: if_splits option.splits sum.splits)

named_theorems endpoint_proper

lemma fixed_proper [endpoint_proper]:
  "proper E (fst s) (osi_get_solar_data E s)" "proper E (fst s) (osi_get_temp_1_data E s)"
  "proper E (fst s) (osi_get_jacuzzi_data E s)" "proper E (fst s) (osi_get_overview E s)"
  by (simp_all add: osi_get_solar_data_def osi_get_temp_1_data_def osi_get_jacuzzi_data_def
      osi_get_overview_def proper_respond)

lemma ingest_proper [endpoint_proper]: "proper E (fst s) (osi_post_ingest E s)"
  by (auto simp: osi_post_ingest_def Let_def proper_respond proper_fail
      split: prod.split status.split option.split)

lemma power_proper [endpoint_proper]:
  "proper E (fst s) (osi_get_power_current E s)" "proper E (fst s) (osi_get_display_current E s)"
  by (auto simp: osi_get_power_current_def osi_get_display_current_def proper_respond proper_fail
      meter_json_error split: option.split sum.split)

lemma weather_proper [endpoint_proper]: "proper E (fst s) (osi_get_weather_cache E s)"
  by (auto simp: osi_get_weather_cache_def Let_def proper_respond proper_fail weather_txt_error
      query_place_error split: option.split sum.split prod.split)

lemma spot_proper [endpoint_proper]: "proper E (fst s) (osi_get_spot_cache E s)"
  by (auto simp: osi_get_spot_cache_def Let_def proper_respond proper_fail spots_json_error
      request_zone_error split: option.split sum.split prod.split)

lemma files_proper [endpoint_proper]:
  "proper E (fst s) (osi_get_display_graph_hour E s)" "proper E (fst s) (osi_get_average_daily E s)"
  "proper E (fst s) (osi_get_average_hourly E s)" "proper E (fst s) (osi_get_config E s)"
  "proper E (fst s) (osi_get_facilities E s)"
  by (auto simp: osi_get_display_graph_hour_def osi_get_average_daily_def osi_get_average_hourly_def
      osi_get_config_def osi_get_facilities_def Let_def proper_respond split: option.split sum.split)

lemma save_proper: "fst s = c \<Longrightarrow> proper E c (save_config E path text s)"
  by (auto simp: save_config_def config_saved_def Let_def proper_respond split: option.split)

lemma post_config_proper [endpoint_proper]: "proper E (fst s) (osi_post_config E s)"
  by (auto simp: osi_post_config_def Let_def proper_respond save_proper
      split: option.split sum.split prod.split)

lemma commands_proper [endpoint_proper]:
  "proper E (fst s) (osi_recalc E s)" "proper E (fst s) (osi_kill E s)"
  by (auto simp: osi_recalc_def osi_kill_def Let_def proper_respond)

lemma endpoint_is_proper: "proper E (fst s) (endpoint_func e E s)"
  by (cases e) (simp_all add: endpoint_proper)

text \<open>C33: An endpoint either succeeds and has set a complete response - one HTTP message with one of
  five statuses, the reason of that status and the true length of its body - or it fails and has
  changed nothing of the connection but the status.\<close>

theorem endpoint_answers:
  "case endpoint_func e E (c, a) of (r, c', a') \<Rightarrow>
     if r = SUCCESS
     then \<exists>code \<in> {200, 400, 404, 500, 503}. \<exists>ctype body. weather_done c' \<and>
       response c' = \<lparr>resp_status = code, full_response = Some (http_message code
         (cstr (case av_reason E code of None \<Rightarrow> ''OK'' | Some m \<Rightarrow> m)) ctype body)\<rparr> \<and>
       c' = c\<lparr>response := response c', weather_done := True\<rparr>
     else \<exists>n. c' = c\<lparr>response := (response c)\<lparr>resp_status := n\<rparr>\<rparr>"
proof -
  obtain r c' a' where R: "endpoint_func e E (c, a) = (r, c', a')" by (metis prod_cases3)
  have P: "proper E c (r, c', a')" using endpoint_is_proper [of E "(c, a)" e] R by simp
  show ?thesis
  proof (cases "r = SUCCESS")
    case True
    with P obtain code ctype body where "code \<in> api_codes" "c' = answer E code ctype body c"
      by (auto simp: proper_def)
    then have "weather_done c' \<and> response c' = \<lparr>resp_status = code, full_response = Some (http_message code
         (cstr (case av_reason E code of None \<Rightarrow> ''OK'' | Some m \<Rightarrow> m)) (cstr ctype) (cstr body))\<rparr> \<and>
       c' = c\<lparr>response := response c', weather_done := True\<rparr>"
      by (simp add: answer_def)
    with True \<open>code \<in> api_codes\<close> show ?thesis unfolding R api_codes_def by auto
  next
    case False
    with P show ?thesis unfolding R by (auto simp: proper_def set_status_def)
  qed
qed

theorem endpoint_answers_witness:
  "fst (osi_kill plain_env (asked HTTP_GET ''/api/v1/kill'' [] [], plain_api)) = SUCCESS \<and>
   weather_done (fst (snd (osi_kill plain_env (asked HTTP_GET ''/api/v1/kill'' [] [], plain_api))))"
proof -
  let ?r = "osi_kill plain_env (asked HTTP_GET ''/api/v1/kill'' [] [], plain_api)"
  have "fst ?r = SUCCESS"
    by (simp add: osi_kill_def plain_env_def respond_with_def osi_set_response_def mem_unlimited_def)
  with endpoint_answers [where e = Kill_optimizer and E = plain_env and a = plain_api
      and c = "asked HTTP_GET ''/api/v1/kill'' [] []"]
  show ?thesis by (cases ?r) auto
qed

section \<open>What a request can change\<close>

definition same_data :: "api \<Rightarrow> api \<Rightarrow> bool" where
  "same_data a a' \<longleftrightarrow> ap_fs a' = ap_fs a \<and> ap_latest a' = ap_latest a \<and> ap_updates a' = ap_updates a \<and>
     ap_store a' = ap_store a \<and> ap_cache a' = ap_cache a"

text \<open>The state after a call that only sets the response.\<close>

lemma respond_state [simp]: "snd (snd (respond_with E code ctype body s)) = snd s"
  by (simp add: respond_with_def split: prod.split)

named_theorems endpoint_state

lemma fixed_state [endpoint_state]:
  "snd (snd (osi_get_solar_data E s)) = snd s" "snd (snd (osi_get_temp_1_data E s)) = snd s"
  "snd (snd (osi_get_jacuzzi_data E s)) = snd s" "snd (snd (osi_get_overview E s)) = snd s"
  by (simp_all add: osi_get_solar_data_def osi_get_temp_1_data_def osi_get_jacuzzi_data_def
      osi_get_overview_def)

lemma reading_state [endpoint_state]:
  "snd (snd (osi_get_power_current E s)) = snd s" "snd (snd (osi_get_display_current E s)) = snd s"
  "snd (snd (osi_get_weather_cache E s)) = snd s" "snd (snd (osi_get_spot_cache E s)) = snd s"
  by (auto simp: osi_get_power_current_def osi_get_display_current_def osi_get_weather_cache_def
      osi_get_spot_cache_def Let_def split: option.split sum.split prod.split)

lemma files_state [endpoint_state]:
  "snd (snd (osi_get_display_graph_hour E s)) = snd s"
  "snd (snd (osi_get_average_hourly E s)) = snd s" "snd (snd (osi_get_config E s)) = snd s"
  "snd (snd (osi_get_facilities E s)) = snd s"
  by (auto simp: osi_get_display_graph_hour_def osi_get_average_hourly_def
      osi_get_config_def osi_get_facilities_def Let_def split: option.split sum.split)

lemma daily_state:
  "\<exists>ws. snd (snd (osi_get_average_daily E s)) = (snd s)\<lparr>ap_writes := ap_writes (snd s) @ ws\<rparr>"
proof -
  have "\<exists>ws. snd s = (snd s)\<lparr>ap_writes := ap_writes (snd s) @ ws\<rparr>" by (rule exI [of _ "[]"]) simp
  then show ?thesis
    by (auto simp: osi_get_average_daily_def Let_def split: option.split)
qed

lemma recalc_state:
  "\<exists>cmds. snd (snd (osi_recalc E s)) = (snd s)\<lparr>ap_commands := ap_commands (snd s) @ cmds\<rparr> \<and>
     set cmds \<subseteq> {Uds ''reload'', Uds ''run''}"
  by (auto simp: osi_recalc_def Let_def log_command_def)

lemma kill_state [endpoint_state]:
  "snd (snd (osi_kill E s)) = (snd s)\<lparr>ap_commands := ap_commands (snd s) @ [Uds ''kill'']\<rparr>"
  by (auto simp: osi_kill_def Let_def log_command_def)

text \<open>C34: A GET request changes nothing that is stored: not the files, the latest reading, the posted
  updates, the meter store or the cache. Only \<open>/recalc\<close> and \<open>/kill\<close> send commands.\<close>

theorem get_requests_read_only:
  assumes "find_endpoint HTTP_GET path Endpoints = Some e"
  shows "same_data (snd s) (snd (snd (endpoint_func e E s))) \<and>
    (\<exists>cmds. ap_commands (snd (snd (endpoint_func e E s))) = ap_commands (snd s) @ cmds \<and>
       (if path = ''/api/v1/recalc'' then set cmds \<subseteq> {Uds ''reload'', Uds ''run''}
        else if path = ''/api/v1/kill'' then cmds = [Uds ''kill''] else cmds = []))"
proof -
  from assms obtain p where p: "path = api_endpoint_root @ p" "(p, HTTP_GET, e) \<in> set Endpoints"
    by (auto simp: find_endpoint_map_of dest!: map_of_SomeD)
  show ?thesis
  proof (cases "e = Recalc \<or> e = Average_daily")
    case True
    with p consider "e = Recalc" "path = ''/api/v1/recalc''"
      | "e = Average_daily" "path = ''/api/v1/average-daily''"
      by (auto simp: Endpoints_def api_endpoint_root_def)
    then show ?thesis
    proof cases
      case 1
      then show ?thesis using recalc_state [of E s] by (auto simp: same_data_def)
    next
      case 2
      then show ?thesis using daily_state [of E s] by (auto simp: same_data_def)
    qed
  next
    case False
    with p show ?thesis
      by (auto simp: Endpoints_def api_endpoint_root_def same_data_def endpoint_state)
  qed
qed

theorem get_requests_read_only_witness:
  "same_data plain_api (snd (snd (osi_kill plain_env (asked HTTP_GET ''/api/v1/kill'' [] [], plain_api)))) \<and>
   ap_commands (snd (snd (osi_kill plain_env (asked HTTP_GET ''/api/v1/kill'' [] [], plain_api)))) = [Uds ''kill'']"
proof -
  have "find_endpoint HTTP_GET ''/api/v1/kill'' Endpoints = Some Kill_optimizer" by code_simp
  from get_requests_read_only [OF this, of "(asked HTTP_GET ''/api/v1/kill'' [] [], plain_api)" plain_env]
  show ?thesis by auto
qed

end
