(* ===== verification/Opti_Storage.thy ===== *)
theory Opti_Storage
  imports Opti_Answers
begin

text \<open>
  What the two POST endpoints store, and what the GET endpoints find afterwards: facility
  configurations in files, meter readings in memory and in the store. And the write past the end of a
  buffer by a GET endpoint.
\<close>

section \<open>Files\<close>

lemma path_parts [simp]:
  assumes "CHR ''/'' \<notin> set e"
  shows "path_dir (dir @ CHR ''/'' # e) = dir" "path_entry (dir @ CHR ''/'' # e) = e"
proof -
  have "takeWhile (\<lambda>c. c \<noteq> CHR ''/'') (rev e @ CHR ''/'' # rev dir) = rev e"
    "dropWhile (\<lambda>c. c \<noteq> CHR ''/'') (rev e @ CHR ''/'' # rev dir) = CHR ''/'' # rev dir"
    using assms by (subst takeWhile_append2 dropWhile_append2; auto)+
  then show "path_dir (dir @ CHR ''/'' # e) = dir" "path_entry (dir @ CHR ''/'' # e) = e"
    by (simp_all add: path_dir_def path_entry_def)
qed

lemma fs_dir_write_old:
  assumes "fs_dir fs dir = Some es" and "e \<in> set es" and "CHR ''/'' \<notin> set e"
  shows "fs_dir (fs_write k (dir @ CHR ''/'' # e) text fs) = fs_dir fs"
  using assms by (simp add: fs_write_def fun_eq_iff)

lemma fs_dir_write_dir:
  assumes "fs_dir fs dir = Some es" and "CHR ''/'' \<notin> set e"
  shows "\<exists>es'. fs_dir (fs_write k (dir @ CHR ''/'' # e) content fs) dir = Some es' \<and>
    set es' \<subseteq> insert e (set es)"
proof (cases "e \<in> set es")
  case False
  have "set (insert_at k e es) \<subseteq> insert e (set es)"
    by (auto simp: insert_at_def dest: in_set_takeD in_set_dropD)
  with False assms show ?thesis by (simp add: fs_write_def)
qed (use assms in \<open>auto simp: fs_write_def\<close>)

lemma config_dir_write:
  "path \<noteq> opti_config_path \<Longrightarrow>
     osi_get_facility_config_dir (fs_write k path text fs) n = osi_get_facility_config_dir fs n"
  by (simp add: osi_get_facility_config_dir_def fun_upd_def)

section \<open>Posting a configuration\<close>

text \<open>The part of the handler before the file is written: the path, the merged text and the state.\<close>

lemma save_fs:
  "ap_fs (snd (snd (save_config E path text s))) = ap_fs (snd s) \<or>
   (\<exists>txt. ap_fs (snd (snd (save_config E path text s))) = fs_write (av_place E) path txt (ap_fs (snd s)))"
  by (auto simp: save_config_def config_saved_def log_command_def Let_def split: option.split)

definition stores_facility :: "'j api_env \<Rightarrow> api \<Rightarrow> api_result \<Rightarrow> bool" where
  "stores_facility E a r \<longleftrightarrow> ap_fs (snd (snd r)) = ap_fs a \<or>
     (\<exists>name path content. osi_find_facility_config_path (ap_fs a) name True 512 = Inr path \<and>
        ap_fs (snd (snd r)) = fs_write (av_place E) path content (ap_fs a))"

lemma stores_respond: "ap_fs a' = ap_fs a \<Longrightarrow> stores_facility E a (respond_with E code ctype body (c, a'))"
  by (simp add: stores_facility_def)

lemma stores_save:
  assumes "osi_find_facility_config_path (ap_fs a) name True 512 = Inr path" and "ap_fs a' = ap_fs a"
  shows "stores_facility E a (save_config E path content (c, a'))"
  using save_fs [of E path content "(c, a')"] assms unfolding stores_facility_def by auto

lemma post_config_fs: "stores_facility E a (osi_post_config E (c, a))"
proof (cases "osi_get_query_param (request c) ''name''")
  case (Some name)
  obtain body len where b: "osi_get_request_body c = (body, len)" by fastforce
  obtain st tbl ws where p: "osi_parse_config_updates (av_mem E) body len (ap_updates a) = (st, tbl, ws)"
    by (metis prod_cases3)
  show ?thesis
  proof (cases "osi_find_facility_config_path (ap_fs a) name True 512")
    case (Inr path)
    obtain r t where "osi_merge_config_updates (av_mem E) (existing_config (ap_fs a) path) tbl = (r, t)"
      by fastforce
    with Some b p Inr show ?thesis
      by (auto simp: osi_post_config_def Let_def stores_respond stores_save [OF Inr]
          split: option.split sum.split)
  qed (use Some b p in \<open>simp add: osi_post_config_def Let_def stores_respond\<close>)
qed (simp add: osi_post_config_def stores_respond)

lemma ingest_fs: "ap_fs (snd (snd (osi_post_ingest E s))) = ap_fs (snd s)"
  by (auto simp: osi_post_ingest_def Let_def split: prod.split status.split option.split)

text \<open>C35: Whatever a request asks for, at most one file is written, and it is a configuration file of
  the configured facility directory: an entry of that directory ending with \<open>.conf\<close>, whose name has no
  slash. Requests cannot escape from the directory.\<close>

theorem requests_write_only_facility_files:
  assumes dir: "osi_get_facility_config_dir (ap_fs a) 256 = Inr dir"
    and es: "fs_dir (ap_fs a) dir = Some es" "\<forall>e \<in> set es. length e < 256 \<and> CHR ''/'' \<notin> set e"
  shows "ap_fs (snd (snd (endpoint_func ep E (c, a)))) = ap_fs a \<or>
    (\<exists>entry text. conf_entry entry \<and> CHR ''/'' \<notin> set entry \<and>
       ap_fs (snd (snd (endpoint_func ep E (c, a)))) =
         fs_write (av_place E) (dir @ ''/'' @ entry) text (ap_fs a))"
proof (cases "ep = Post_config")
  case True
  have short: "\<forall>e \<in> set es. length e < 256" using es(2) by blast
  have "\<exists>entry. path = dir @ ''/'' @ entry \<and> conf_entry entry \<and> CHR ''/'' \<notin> set entry"
    if p: "osi_find_facility_config_path (ap_fs a) name True 512 = Inr path" for name path
  proof (cases "List.find (\<lambda>e. conf_entry e \<and> entry_name (ap_fs a) dir e = Some (cstr name)) es")
    case None
    then have "path = dir @ ''/'' @ osi_build_facility_filename name 256"
      using p found_path [OF dir es(1) short, of name True] by simp
    then show ?thesis using built_filename [of name] by (auto simp: Let_def)
  next
    case (Some e)
    then have "path = dir @ ''/'' @ e" using p found_path [OF dir es(1) short, of name True] by simp
    moreover have "e \<in> set es" "conf_entry e" using Some by (auto simp: find_Some_iff)
    ultimately show ?thesis using es(2) by blast
  qed
  then show ?thesis using True post_config_fs [of E a c] unfolding stores_facility_def by fastforce
next
  case False
  show ?thesis
  proof (cases "ep = Ingest")
    case False
    with \<open>ep \<noteq> Post_config\<close> show ?thesis
      using recalc_state [of E "(c, a)"] daily_state [of E "(c, a)"]
      by (cases ep) (auto simp: endpoint_state)
  qed (simp add: ingest_fs)
qed

text \<open>What a post stores when it is accepted and the file can be written. The signals to the
  optimizer come later and do not matter.\<close>

lemma save_config_stores:
  assumes "av_fopen E path" and "av_written E = None"
  shows "ap_fs (snd (snd (save_config E path text s))) = fs_write (av_place E) path text (ap_fs (snd s))"
  using assms by (simp add: save_config_def config_saved_def log_command_def Let_def)

text \<open>Nothing is found in the empty text.\<close>

lemma copy_value_empty: "osi_copy_config_value [] k n = Inr v \<Longrightarrow> False"
  by (auto simp: osi_copy_config_value_def split: if_splits)

lemma copy_value_cstr: "osi_copy_config_value (cstr text) k n = osi_copy_config_value text k n"
  by (simp add: osi_copy_config_value_def)

text \<open>What an accepted post writes into the file that it finds.\<close>

lemma post_config_writes:
  assumes param: "osi_get_query_param (request c) ''name'' = Some N" and "N \<noteq> []"
    and body: "osi_get_request_body c = (Some body, len)"
    and accepted: "osi_parse_config_updates (av_mem E) (Some body) len (ap_updates a) = (SUCCESS, tbl, ws)"
    and path: "osi_find_facility_config_path (ap_fs a) N True 512 = Inr path"
    and merged: "osi_merge_config_updates (av_mem E) (existing_config (ap_fs a) path) tbl = (Inr (Some m), t)"
    and io: "av_fopen E path" "av_written E = None"
  shows "ap_fs (snd (snd (osi_post_config E (c, a)))) = fs_write (av_place E) path (cstr m) (ap_fs a)"
proof -
  have "0 < len" using body by (auto simp: osi_get_request_body_def split: if_splits)
  then show ?thesis
    using assms by (simp add: osi_post_config_def save_config_stores)
qed

text \<open>The name of an entry is not affected by a write to another entry, nor by one that keeps it.\<close>

lemma entry_name_write:
  assumes "length dir < 256" "length e < 256" "length e' < 256"
    and "e' = e \<Longrightarrow> osi_copy_config_value content ''name'' facility_name_size =
           osi_copy_config_value old ''name'' facility_name_size"
    and "fs_read fs (dir @ ''/'' @ e) = Some old"
  shows "entry_name (fs_write k (dir @ ''/'' @ e) content fs) dir e' = entry_name fs dir e'"
  using assms by (auto simp: entry_name_def entry_path_whole split: option.split sum.split)

lemma find_cong: "(\<And>x. x \<in> set xs \<Longrightarrow> P x = Q x) \<Longrightarrow> List.find P xs = List.find Q xs"
  by (induction xs) auto

text \<open>Neither the write of another file nor one that keeps the entry of the directory changes where the
  facilities are looked for.\<close>

lemma config_dir_kept:
  assumes "path = opti_config_path \<Longrightarrow> fs_read fs path = Some old \<and>
      osi_copy_config_value content ''facility.conf.dir'' n = osi_copy_config_value old ''facility.conf.dir'' n"
  shows "osi_get_facility_config_dir (fs_write k path content fs) n = osi_get_facility_config_dir fs n"
  using assms config_dir_write [of path k content fs n]
  by (cases "path = opti_config_path") (simp_all add: osi_get_facility_config_dir_def)

text \<open>C8: Posting a configuration and getting it. After an accepted post for a facility, GET \<open>/config\<close> of
  the same name answers 200 with a text in which every key has the value that the post assigned to it last,
  and every other key the value of the old file. This holds whether or not the optimizer could be signalled,
  so also when the post was answered with 503. The conditions are these. A file of the directory already
  names the facility (what becomes of a new one is \<open>config_post_new_not_found\<close>). The post does not rename
  it: it assigns no \<open>name\<close>, or the same. Nothing is glued to the last line of the file (\<open>ends_cleanly\<close>): the
  file ends with a newline, or its last line is replaced, or it names every key of the post; otherwise the
  claim is false, as \<open>Config_Text.config_merge_glues_last_line\<close> shows. The table of updates holds the
  editable keys, as \<open>osi_config_updates\<close> does. Memory suffices, and the file can be opened and takes the
  whole text. The entries of the directory are names of fewer than 256 bytes without a slash.\<close>

theorem config_post_then_get:
  assumes dir: "osi_get_facility_config_dir (ap_fs a) 256 = Inr dir"
    and es: "fs_dir (ap_fs a) dir = Some es" "\<forall>e \<in> set es. length e < 256 \<and> CHR ''/'' \<notin> set e"
    and entry: "List.find (\<lambda>e. conf_entry e \<and> entry_name (ap_fs a) dir e = Some N) es = Some entry"
    and old: "fs_read (ap_fs a) (dir @ ''/'' @ entry) = Some existing"
      "ends_cleanly existing (assignments (text_lines (take (nat len) body)))"
    and param: "osi_get_query_param (request c) ''name'' = Some N"
    and body: "osi_get_request_body c = (Some body, len)"
    and keys: "map cu_key (ap_updates a) = editable_keys"
    and accepted: "fst (osi_parse_config_updates (av_mem E) (Some body) len (ap_updates a)) = SUCCESS"
    and name: "case last_assignment (assignments (text_lines (take (nat len) body))) ''name'' of
        None \<Rightarrow> True | Some v \<Rightarrow> chomp (cstr v) = N"
    and io: "av_mem E = mem_unlimited" "av_fopen E (dir @ ''/'' @ entry)" "av_written E = None"
    and param': "osi_get_query_param (request c') ''name'' = Some N"
  shows "\<exists>content. let a' = snd (snd (osi_post_config E (c, a))) in
      osi_get_config E' (c', a') = respond_with E' 200 ''text/plain'' content (c', a') \<and>
      (\<forall>k n. CHR ''='' \<notin> set k \<longrightarrow> 0 < n \<longrightarrow> osi_copy_config_value content k n =
        (case last_assignment (assignments (text_lines (take (nat len) body))) k of
           None \<Rightarrow> osi_copy_config_value existing k n
         | Some v \<Rightarrow> if chomp (cstr v) = [] then Inl ERR_NOT_FOUND else value_result n (chomp (cstr v))))"
proof -
  let ?path = "dir @ ''/'' @ entry"
  obtain tbl ws where parse: "osi_parse_config_updates (av_mem E) (Some body) len (ap_updates a) =
      (SUCCESS, tbl, ws)" using accepted by (metis prod.collapse)
  obtain merged t where merge: "osi_merge_config_updates (av_mem E) existing tbl = (Inr merged, t)"
    unfolding io(1) using merge_total by blast
  note looked_up = posted_value [OF parse keys old(2) merge]
  have in_es: "entry \<in> set es" and N: "conf_entry entry" "entry_name (ap_fs a) dir entry = Some N"
    using entry by (auto simp: find_Some_iff)
  have short: "\<forall>e \<in> set es. length e < 256" using es(2) by blast
  have dir_short: "length dir < 256" using facility_dir_total [of "ap_fs a"] dir by simp
  have cN: "cstr N = N" using param by (auto simp: osi_get_query_param_def split: option.splits)
  have name_old: "osi_copy_config_value existing ''name'' facility_name_size = Inr N"
    using N(2) old(1) dir_short short in_es
    by (simp add: entry_name_def entry_path_whole split: option.splits sum.splits)
  have "N \<noteq> []" using entry_name_nonempty [OF N(2)] by blast
  have "length N < facility_name_size" by (rule copy_value_short [OF name_old])
  then have name_new: "osi_copy_config_value (text_of merged) ''name'' facility_name_size = Inr N"
    using looked_up [of "''name''" facility_name_size] name name_old \<open>N \<noteq> []\<close>
    by (auto simp: facility_name_size_def value_result_def split: option.splits)
  then obtain m where m: "merged = Some m"
    by (cases merged) (auto simp: text_of_def dest: copy_value_empty)
  have path: "osi_find_facility_config_path (ap_fs a) N True 512 = Inr ?path"
    using found_path [OF dir es(1) short, of N True] entry by (simp add: cN)
  have "ap_fs (snd (snd (osi_post_config E (c, a)))) = fs_write (av_place E) ?path (cstr m) (ap_fs a)"
    by (rule post_config_writes [OF param \<open>N \<noteq> []\<close> body parse path _ io(2,3)])
      (use merge m old(1) in \<open>simp add: existing_config_def\<close>)
  then obtain a' where a': "a' = snd (snd (osi_post_config E (c, a)))"
    and fs: "ap_fs a' = fs_write (av_place E) ?path (cstr m) (ap_fs a)" by blast
  have dir': "osi_get_facility_config_dir (ap_fs a') 256 = Inr dir"
  proof -
    have "''facility.conf.dir'' \<notin> set editable_keys" by code_simp
    with accepted_keys [OF parse keys] looked_up [of "''facility.conf.dir''" 256] m
    have "osi_copy_config_value (cstr m) ''facility.conf.dir'' 256 =
        osi_copy_config_value existing ''facility.conf.dir'' 256" by (simp add: copy_value_cstr text_of_def)
    with old(1) have "osi_get_facility_config_dir (ap_fs a') 256 = osi_get_facility_config_dir (ap_fs a) 256"
      unfolding fs by (intro config_dir_kept [where old = existing]) simp
    with dir show ?thesis by simp
  qed
  have es': "fs_dir (ap_fs a') dir = Some es"
    using fs_dir_write_old [of "ap_fs a" dir es entry] es in_es by (simp add: fs)
  have "entry_name (ap_fs a') dir e = entry_name (ap_fs a) dir e" if "e \<in> set es" for e
    unfolding fs using that in_es short dir_short old(1) name_old name_new m
    by (intro entry_name_write) (simp_all add: copy_value_cstr text_of_def)
  then have "List.find (\<lambda>e. conf_entry e \<and> entry_name (ap_fs a') dir e = Some N) es = Some entry"
    using entry find_cong [of es "\<lambda>e. conf_entry e \<and> entry_name (ap_fs a') dir e = Some N"
        "\<lambda>e. conf_entry e \<and> entry_name (ap_fs a) dir e = Some N"] by simp
  then have "osi_find_facility_config_path (ap_fs a') N False 512 = Inr ?path"
    using found_path [OF dir' es' short, of N False] by (simp add: cN)
  then have "osi_get_config E' (c', a') = respond_with E' 200 ''text/plain'' (cstr m) (c', a')"
    using param' \<open>N \<noteq> []\<close> by (simp add: osi_get_config_def fs)
  moreover have "osi_copy_config_value (cstr m) k n =
        (case last_assignment (assignments (text_lines (take (nat len) body))) k of
           None \<Rightarrow> osi_copy_config_value existing k n
         | Some v \<Rightarrow> if chomp (cstr v) = [] then Inl ERR_NOT_FOUND else value_result n (chomp (cstr v)))"
    if "CHR ''='' \<notin> set k" "0 < n" for k n
    using looked_up [OF that] m by (simp add: copy_value_cstr text_of_def)
  ultimately show ?thesis unfolding Let_def a' [symmetric]
    by (intro exI [of _ "cstr m"] conjI allI impI) auto
qed

section \<open>A new facility\<close>

lemma blank_config_ok:
  "newline_terminated osi_blank_facility_config" "NUL \<notin> set osi_blank_facility_config"
  "osi_copy_config_value osi_blank_facility_config ''name'' facility_name_size = Inl ERR_NOT_FOUND"
  by code_simp+

lemma blank_ends: "ends_cleanly osi_blank_facility_config as"
  using blank_config_ok(1,2) by (simp add: ends_cleanly_def)

lemma merge_blank_some:
  assumes "osi_merge_config_updates al osi_blank_facility_config tbl = (Inr merged, t)"
    and "distinct (map cu_key tbl)"
  shows "\<exists>m. merged = Some m"
proof (cases merged)
  case None
  then have "merge_spec osi_blank_facility_config tbl = []"
    using merge_result [OF assms] by (simp add: text_of_def)
  moreover have "text_lines (cstr osi_blank_facility_config) \<noteq> []" by code_simp
  moreover have "\<forall>x \<in> set (text_lines (cstr osi_blank_facility_config)). snd x" by code_simp
  ultimately show ?thesis
    by (cases "text_lines (cstr osi_blank_facility_config)")
      (auto simp: merge_spec_def Let_def merged_line_def split: option.splits)
qed simp

text \<open>A facility that is posted without a \<open>name\<close> line cannot be got: when no file names the
  facility and there is no template, the post writes a file whose name is empty, and GET \<open>/config\<close> for
  the same name answers 404.\<close>

theorem config_post_new_not_found:
  assumes dir: "osi_get_facility_config_dir (ap_fs a) 256 = Inr dir"
    and es: "fs_dir (ap_fs a) dir = Some es" "\<forall>e \<in> set es. length e < 256 \<and> CHR ''/'' \<notin> set e"
    and unnamed: "List.find (\<lambda>e. conf_entry e \<and> entry_name (ap_fs a) dir e = Some N) es = None"
    and path: "path = dir @ ''/'' @ osi_build_facility_filename N 256" "fs_read (ap_fs a) path = None"
      "path \<noteq> opti_config_path" "osi_load_template_config (ap_fs a) = Inl err"
    and param: "osi_get_query_param (request c) ''name'' = Some N" "N \<noteq> []"
    and body: "osi_get_request_body c = (Some body, len)"
    and keys: "map cu_key (ap_updates a) = editable_keys"
    and accepted: "fst (osi_parse_config_updates (av_mem E) (Some body) len (ap_updates a)) = SUCCESS"
    and name: "last_assignment (assignments (text_lines (take (nat len) body))) ''name'' = None"
    and io: "av_mem E = mem_unlimited" "av_fopen E path" "av_written E = None"
    and param': "osi_get_query_param (request c') ''name'' = Some N"
  shows "\<exists>content. let a' = snd (snd (osi_post_config E (c, a))) in
      fs_read (ap_fs a') path = Some content \<and>
      osi_get_config E' (c', a') =
        respond_with E' 404 ''application/json'' (json_error ''facility config not found'') (c', a')"
proof -
  let ?entry = "osi_build_facility_filename N 256"
  obtain tbl ws where parse: "osi_parse_config_updates (av_mem E) (Some body) len (ap_updates a) =
      (SUCCESS, tbl, ws)" using accepted by (metis prod.collapse)
  obtain merged t where merge:
    "osi_merge_config_updates (av_mem E) osi_blank_facility_config tbl = (Inr merged, t)"
    unfolding io(1) using merge_total by blast
  note looked_up = posted_value [OF parse keys blank_ends merge]
  have no_name: "osi_copy_config_value (text_of merged) ''name'' facility_name_size = Inl ERR_NOT_FOUND"
    using looked_up [of "''name''" facility_name_size] name blank_config_ok(3)
    by (simp add: facility_name_size_def)
  have short: "\<forall>e \<in> set es. length e < 256" using es(2) by blast
  have dir_short: "length dir < 256" using facility_dir_total [of "ap_fs a"] dir by simp
  have entry: "length ?entry < 256" "CHR ''/'' \<notin> set ?entry"
    using built_filename [of N] by (auto simp: Let_def)
  have cN: "cstr N = N" using param(1) by (auto simp: osi_get_query_param_def split: option.splits)
  have p: "osi_find_facility_config_path (ap_fs a) N True 512 = Inr path"
    using found_path [OF dir es(1) short, of N True] unnamed path(1) by (simp add: cN)
  obtain m where m: "merged = Some m"
    using merge_blank_some [OF merge table_ok_distinct [OF parsed_table_ok [OF parse keys]]] by blast
  have "ap_fs (snd (snd (osi_post_config E (c, a)))) = fs_write (av_place E) path (cstr m) (ap_fs a)"
    by (rule post_config_writes [OF param body parse p _ io(2,3)])
      (use merge m path(2,4) in \<open>simp add: existing_config_def\<close>)
  then obtain a' where a': "a' = snd (snd (osi_post_config E (c, a)))"
    and fs: "ap_fs a' = fs_write (av_place E) path (cstr m) (ap_fs a)" by blast
  have dir': "osi_get_facility_config_dir (ap_fs a') 256 = Inr dir"
    using config_dir_write [OF path(3)] dir by (simp add: fs)
  obtain es' where es': "fs_dir (ap_fs a') dir = Some es'" "set es' \<subseteq> insert ?entry (set es)"
    using fs_dir_write_dir [OF es(1) entry(2), of "av_place E" "cstr m"] by (auto simp: fs path(1))
  have names: "entry_name (ap_fs a') dir e = (if e = ?entry then None else entry_name (ap_fs a) dir e)"
    if "e \<in> set es'" for e
    using that es'(2) short entry dir_short no_name m
    by (auto simp: entry_name_def fs path(1) entry_path_whole copy_value_cstr text_of_def)
  have "List.find (\<lambda>e. conf_entry e \<and> entry_name (ap_fs a') dir e = Some N) es' = None"
    using unnamed names es'(2) by (auto simp: find_None_iff)
  then have "osi_find_facility_config_path (ap_fs a') N False 512 = Inl ERR_NOT_FOUND"
    using found_path [OF dir' es'(1), of N False] es'(2) short entry(1) by (auto simp: cN)
  then have "osi_get_config E' (c', a') =
      respond_with E' 404 ''application/json'' (json_error ''facility config not found'') (c', a')"
    using param' param(2) by (simp add: osi_get_config_def)
  then show ?thesis unfolding Let_def a' [symmetric] by (auto simp: fs)
qed

section \<open>Meter readings\<close>

text \<open>C36: A posted reading is current: after POST \<open>/ingest\<close> of a body that is a reading, GET
  \<open>/power/current\<close> answers with the JSON of exactly this reading and the time of the post, and the
  store has been asked to insert it. This is so even if the store refuses the reading and the post
  fails.\<close>

theorem ingest_then_power_current:
  assumes "osi_get_request_body c = (Some body, len)"
    and "osi_parse_meter_reading_json (av_json E) (Some body) len = (SUCCESS, Some reading)"
    and "av_print E' (J_obj (map (\<lambda>(k, v). (k, doc_of v)) (reading_items reading (av_now E)))) = Some js"
  shows "let (r, c1, a') = osi_post_ingest E (c, a);
             (stored, store) = meter_store_insert_reading (av_insert E) reading (ap_store a)
    in osi_get_power_current E' (c', a') = respond_with E' 200 ''application/json'' js (c', a') \<and>
       ap_store a' = store \<and> (if stored \<noteq> SUCCESS then r = stored \<and> c1 = c else True)"
proof -
  have "0 < len" using assms(1) by (auto simp: osi_get_request_body_def split: if_splits)
  obtain stored store where st: "meter_store_insert_reading (av_insert E) reading (ap_store a) = (stored, store)"
    by fastforce
  let ?a = "a\<lparr>ap_latest := Some (reading, av_now E), ap_store := store\<rparr>"
  have "osi_post_ingest E (c, a) = (if stored \<noteq> SUCCESS then (stored, c, ?a)
      else respond_with E 200 json_type (''{'' @ [CHR 0x22] @ ''status'' @ [CHR 0x22] @
                        '':'' @ [CHR 0x22] @ ''ok'' @ [CHR 0x22] @ ''}'') (c, ?a))"
    using assms(1,2) \<open>0 < len\<close> st by (simp add: osi_post_ingest_def Let_def)
  moreover have "snd (snd (if stored \<noteq> SUCCESS then (stored, c, ?a) else respond_with E code ct b (c, ?a))) = ?a"
    for code ct b by simp
  moreover have "osi_get_power_current E' (c', ?a) = respond_with E' 200 ''application/json'' js (c', ?a)"
    using assms(3) by (simp add: osi_get_power_current_def osi_meter_reading_to_json_def meter_printer_def)
  ultimately show ?thesis
    using st by (auto simp: Let_def case_prod_beta)
qed

section \<open>A write past the end of a buffer\<close>

text \<open>The name in GET \<open>/average-daily\<close> decides where a byte is written on the stack: for a file that
  does not exist the handler sets the byte at the length of the whole message in a buffer of 256 bytes.
  For every name of 177 bytes and more that the file name can hold, that is past the end.\<close>

theorem average_daily_overflow:
  assumes params: "req_params (request c) = Some [(''name'', N)]"
    and N: "NUL \<notin> set N" "length N \<le> 461"
    and date: "length (av_date E ''%Y-%m-%d'' (av_now E)) = 10"
    and absent: "\<And>f. fs_read (ap_fs a) f = None" and mem: "av_mem E = mem_unlimited"
  shows "\<exists>i. ap_writes (snd (snd (osi_get_average_daily E (c, a)))) = ap_writes a @ [(256, i)] \<and>
    (256 \<le> i \<longleftrightarrow> 177 \<le> length N)"
proof -
  let ?f = "calcs_default_directory @ ''/'' @ N @ ''-Daily_'' @ av_date E ''%Y-%m-%d'' (av_now E) @
     ''_SP'' @ dec_int 96 @ ''.'' @ ''json''"
  have d: "daily_request (request c) = \<lparr>dp_name = Some N, dp_type = None, dp_epd = 96\<rparr>"
    using params N(1) by (simp add: daily_request_def daily_param_def)
  have "dec_int 96 = ''96''" by code_simp
  then have len: "length ?f = length N + 50" using date by (simp add: calcs_default_directory_def)
  have "calc_name_get_daily (av_mem E) (av_date E ''%Y-%m-%d'' (av_now E)) calcs_default_directory N
      ''json'' 96 = Some ?f"
    using len N(2) mem by (simp add: calc_name_get_daily_def mem_unlimited_def Let_def)
  then have "ap_writes (snd (snd (osi_get_average_daily E (c, a)))) =
      ap_writes a @ [(256, length (json_error (''File not found ('' @ ?f @ '')'')))]"
    by (simp add: osi_get_average_daily_def d absent Let_def)
  moreover have "length (json_error (''File not found ('' @ ?f @ '')'')) = length N + 79"
    using len by (simp add: json_error_def)
  ultimately show ?thesis by (intro exI [of _ "length N + 79"]) simp
qed

section \<open>Instances\<close>

definition post_home :: http_conn where
  "post_home = asked HTTP_POST ''/api/v1/config'' [(''name'', ''Home'')] ''currency=EUR''"

definition get_home :: http_conn where
  "get_home = asked HTTP_GET ''/api/v1/config'' [(''name'', ''Home'')] []"

lemma home_request:
  "osi_get_query_param (request post_home) ''name'' = Some ''Home''"
  "osi_get_query_param (request get_home) ''name'' = Some ''Home''"
  "osi_get_request_body post_home = (Some ''currency=EUR'', 12)"
  by (simp_all add: osi_get_query_param_def post_home_def get_home_def osi_get_request_body_def)
    (simp_all add: asked_def)

lemma posted_currency:
  "map cu_key osi_config_updates = editable_keys"
  "fst (osi_parse_config_updates mem_unlimited (Some ''currency=EUR'') 12 osi_config_updates) = SUCCESS"
  "last_assignment (assignments (text_lines (take (nat 12) ''currency=EUR''))) ''name'' = None"
  "last_assignment (assignments (text_lines (take (nat 12) ''currency=EUR''))) ''currency'' = Some ''EUR''"
  by code_simp+

theorem requests_write_only_facility_files_witness:
  "ap_fs (snd (snd (osi_post_config plain_env (post_home, plain_api)))) = home_fs \<or>
    (\<exists>entry content. conf_entry entry \<and>
       ap_fs (snd (snd (osi_post_config plain_env (post_home, plain_api)))) =
         fs_write 0 (''/etc/maestro/facility/'' @ entry) content home_fs)"
proof -
  have d: "osi_get_facility_config_dir (ap_fs plain_api) 256 = Inr ''/etc/maestro/facility''"
    "fs_dir (ap_fs plain_api) ''/etc/maestro/facility'' = Some [''home.conf'']" by (simp_all add: home_dir)
  have "\<forall>e \<in> set [''home.conf'']. length e < 256 \<and> CHR ''/'' \<notin> set e" by simp
  from requests_write_only_facility_files [OF d this, of Post_config plain_env post_home]
  show ?thesis by (auto simp: plain_env_def)
qed

theorem config_post_then_get_witness:
  "\<exists>content. let a' = snd (snd (osi_post_config plain_env (post_home, plain_api))) in
     osi_get_config plain_env (get_home, a') =
       respond_with plain_env 200 ''text/plain'' content (get_home, a') \<and>
     osi_copy_config_value content ''currency'' 10 = Inr ''EUR''"
proof -
  have d: "osi_get_facility_config_dir (ap_fs plain_api) 256 = Inr ''/etc/maestro/facility''"
    "fs_dir (ap_fs plain_api) ''/etc/maestro/facility'' = Some [''home.conf'']" by (simp_all add: home_dir)
  have e: "\<forall>e \<in> set [''home.conf'']. length e < 256 \<and> CHR ''/'' \<notin> set e" by simp
  have f: "List.find (\<lambda>e. conf_entry e \<and> entry_name (ap_fs plain_api) ''/etc/maestro/facility'' e = Some ''Home'')
      [''home.conf''] = Some ''home.conf''" unfolding plain_simps by (rule home_entry)
  have old: "fs_read (ap_fs plain_api) (''/etc/maestro/facility'' @ ''/'' @ ''home.conf'') = Some home_text"
    "ends_cleanly home_text (assignments (text_lines (take (nat 12) ''currency=EUR'')))"
    by (simp add: home_fs_def) code_simp
  have keys: "map cu_key (ap_updates plain_api) = editable_keys" by (simp add: posted_currency)
  have acc: "fst (osi_parse_config_updates (av_mem plain_env) (Some ''currency=EUR'') 12 (ap_updates plain_api)) =
      SUCCESS" by (simp add: posted_currency)
  have io: "av_mem plain_env = mem_unlimited"
    "av_fopen plain_env (''/etc/maestro/facility'' @ ''/'' @ ''home.conf'')" "av_written plain_env = None" by simp_all
  have kept: "case last_assignment (assignments (text_lines (take (nat 12) ''currency=EUR''))) ''name'' of
      None \<Rightarrow> True | Some v \<Rightarrow> chomp (cstr v) = ''Home''" unfolding posted_currency(3) by simp
  from config_post_then_get [OF d e f old home_request(1,3) keys acc kept io home_request(2), of plain_env]
  obtain content where c: "osi_get_config plain_env (get_home, snd (snd (osi_post_config plain_env (post_home, plain_api)))) =
       respond_with plain_env 200 ''text/plain'' content
         (get_home, snd (snd (osi_post_config plain_env (post_home, plain_api))))"
    and v: "\<And>k n. CHR ''='' \<notin> set k \<Longrightarrow> 0 < n \<Longrightarrow> osi_copy_config_value content k n =
        (case last_assignment (assignments (text_lines (take (nat 12) ''currency=EUR''))) k of
           None \<Rightarrow> osi_copy_config_value home_text k n
         | Some v \<Rightarrow> if chomp (cstr v) = [] then Inl ERR_NOT_FOUND else value_result n (chomp (cstr v)))"
    unfolding Let_def by blast
  have "osi_copy_config_value content ''currency'' 10 = Inr ''EUR''"
    using v [of "''currency''" 10] unfolding posted_currency(4) by (simp add: chomp_def value_result_def)
  with c show ?thesis unfolding Let_def by blast
qed

definition post_new :: http_conn where
  "post_new = asked HTTP_POST ''/api/v1/config'' [(''name'', ''New'')] ''currency=EUR''"

theorem config_post_new_not_found_witness:
  "\<exists>content. let a' = snd (snd (osi_post_config plain_env (post_new, plain_api))) in
     fs_read (ap_fs a') ''/etc/maestro/facility/New.conf'' = Some content \<and>
     osi_get_config plain_env (post_new, a') =
       respond_with plain_env 404 ''application/json'' (json_error ''facility config not found'') (post_new, a')"
proof -
  let ?p = "''/etc/maestro/facility/New.conf''"
  have d: "osi_get_facility_config_dir (ap_fs plain_api) 256 = Inr ''/etc/maestro/facility''"
    "fs_dir (ap_fs plain_api) ''/etc/maestro/facility'' = Some [''home.conf'']" by (simp_all add: home_dir)
  have e: "\<forall>e \<in> set [''home.conf'']. length e < 256 \<and> CHR ''/'' \<notin> set e" by simp
  have f: "List.find (\<lambda>e. conf_entry e \<and> entry_name (ap_fs plain_api) ''/etc/maestro/facility'' e = Some ''New'')
      [''home.conf''] = None" unfolding plain_simps by (rule home_entry)
  have p: "?p = ''/etc/maestro/facility'' @ ''/'' @ osi_build_facility_filename ''New'' 256" by code_simp
  have q: "fs_read (ap_fs plain_api) ?p = None" "?p \<noteq> opti_config_path"
    by (simp_all add: home_fs_def opti_config_path_def)
  have t: "osi_load_template_config (ap_fs plain_api) = Inl ERR_NOT_FOUND"
    unfolding plain_simps by code_simp
  have r: "osi_get_query_param (request post_new) ''name'' = Some ''New''" "''New'' \<noteq> []"
    "osi_get_request_body post_new = (Some ''currency=EUR'', 12)"
    by (simp_all add: osi_get_query_param_def post_new_def osi_get_request_body_def) (simp_all add: asked_def)
  have keys: "map cu_key (ap_updates plain_api) = editable_keys" by (simp add: posted_currency)
  have acc: "fst (osi_parse_config_updates (av_mem plain_env) (Some ''currency=EUR'') 12 (ap_updates plain_api)) =
      SUCCESS" by (simp add: posted_currency)
  have io: "av_mem plain_env = mem_unlimited" "av_fopen plain_env ?p" "av_written plain_env = None" by simp_all
  show ?thesis
    using config_post_new_not_found [OF d e f p q t r keys acc posted_currency(3) io r(1)] .
qed

theorem ingest_then_power_current_witness:
  "\<exists>reading. osi_get_power_current plain_env (get_home,
      snd (snd (osi_post_ingest plain_env (asked HTTP_POST ''/api/v1/ingest'' [] ''{}'', plain_api)))) =
    respond_with plain_env 200 ''application/json'' ''{}'' (get_home,
      snd (snd (osi_post_ingest plain_env (asked HTTP_POST ''/api/v1/ingest'' [] ''{}'', plain_api)))) \<and>
    osi_parse_meter_reading_json sample_json (Some ''{}'') 2 = (SUCCESS, Some reading)"
proof -
  let ?c = "asked HTTP_POST ''/api/v1/ingest'' [] ''{}''"
  have "fst (osi_parse_meter_reading_json sample_json (Some ''{}'') 2) = SUCCESS" by code_simp
  then obtain r where r: "osi_parse_meter_reading_json sample_json (Some ''{}'') 2 = (SUCCESS, Some r)"
    by (auto simp: osi_parse_meter_reading_json_def Let_def split: option.splits if_splits)
  have b: "osi_get_request_body ?c = (Some ''{}'', 2)"
    by (simp add: osi_get_request_body_def asked_def)
  have j: "osi_parse_meter_reading_json (av_json plain_env) (Some ''{}'') 2 = (SUCCESS, Some r)"
    using r by (simp add: plain_env_def)
  have p: "av_print plain_env (J_obj (map (\<lambda>(k, v). (k, doc_of v)) (reading_items r (av_now plain_env)))) =
      Some ''{}''" by (simp only: plain_simps)
  show ?thesis
    using ingest_then_power_current [OF b j p, of plain_api get_home] r
    by (auto simp: Let_def case_prod_beta)
qed

definition no_files :: api where
  "no_files = plain_api\<lparr>ap_fs := \<lparr>fs_read = (\<lambda>p. None), fs_dir = (\<lambda>d. None)\<rparr>\<rparr>"

theorem average_daily_overflow_witness:
  "\<exists>i. ap_writes (snd (snd (osi_get_average_daily plain_env
      (asked HTTP_GET ''/api/v1/average-daily'' [(''name'', replicate 200 (CHR ''x''))] [], no_files)))) = [(256, i)] \<and>
    256 \<le> i"
  using average_daily_overflow [of "asked HTTP_GET ''/api/v1/average-daily'' [(''name'', replicate 200 (CHR ''x''))] []"
      "replicate 200 (CHR ''x'')" plain_env no_files]
  by (simp add: no_files_def) (simp add: plain_env_def)

end
