(* ===== verification/Opti_Series.thy ===== *)
theory Opti_Series
  imports Opti_Answers
begin

text \<open>
  The endpoints that serve series from the cache database: which prices \<open>/spot-price/cache\<close> returns,
  which weather \<open>/weather/cache\<close> takes and falls back to, and that the text of the weather fits the
  buffer that is sized for it.
\<close>

section \<open>Spot prices\<close>

lemma time_range_bounds: "osi_parse_time_range now req = Inr (t0, t1) \<Longrightarrow> 0 < t0 \<and> t0 < t1"
  by (auto simp: osi_parse_time_range_def Let_def split: if_splits)

text \<open>GET \<open>/spot-price/cache\<close> answers a request with a time range and a zone from the map of prices in
  the cache: the document lists every price of the zone's class in Swedish crowns that starts in the
  range, once and in the order of time, and nothing else. The range is never empty. The interval is
  reported as 0 and the unit as the default, whatever was stored.\<close>

theorem spot_cache_answers:
  assumes "calls_ok (av_reads E 0)" and "keys_distinct spot_key (ct_spots t)"
    and "ap_cache a = \<lparr>sh_db = Some (sql_rest t), sh_locked = l\<rparr>"
    and "osi_parse_time_range (av_now E) (request c) = Inr (t0, t1)"
    and "request_zone E (ap_fs a) (request c) = Inr zone"
    and "\<And>d. av_print E d \<noteq> None"
  shows "\<exists>ps js. osi_get_spot_cache E (c, a) = respond_with E 200 ''application/json'' js (c, a) \<and>
    av_print E (spots_doc \<lparr>es_prices = ps, es_unit = None, es_currency = SPOT_SEK,
      es_price_class = zone_class zone, es_interval = 0\<rparr>) = Some js \<and>
    sorted_wrt (<) (map sp_time_start ps) \<and> t0 < t1 \<and>
    (\<forall>p. p \<in> set ps \<longleftrightarrow> t0 \<le> sp_time_start p \<and> sp_time_start p < t1 \<and>
       spot_map t (zone_class zone) SPOT_SEK (sp_time_start p) = Some p)"
proof -
  from read_spots_map [OF assms(1,2), of no_spots "zone_class zone" SPOT_SEK t0 t1 l]
  obtain ps where ps: "sql_helper_read_spots (av_reads E 0) no_spots (zone_class zone) SPOT_SEK t0 t1
        (ap_cache a) = (SUCCESS, no_spots\<lparr>es_prices := ps, es_price_class := zone_class zone,
          es_currency := SPOT_SEK\<rparr>)"
    "sorted_wrt (<) (map sp_time_start ps)"
    "\<forall>p. p \<in> set ps \<longleftrightarrow> t0 \<le> sp_time_start p \<and> sp_time_start p < t1 \<and>
       spot_map t (zone_class zone) SPOT_SEK (sp_time_start p) = Some p"
    unfolding assms(3) by blast
  obtain js where js: "av_print E (spots_doc \<lparr>es_prices = ps, es_unit = None, es_currency = SPOT_SEK,
      es_price_class = zone_class zone, es_interval = 0\<rparr>) = Some js" using assms(6) by blast
  then have "osi_get_spot_cache E (c, a) = respond_with E 200 json_type js (c, a)"
    using ps(1) assms(4,5)
    by (simp add: osi_get_spot_cache_def osi_spots_to_json_def print_result_def no_spots_def)
  then show ?thesis using js ps(2,3) time_range_bounds [OF assms(4)] by blast
qed

section \<open>Weather\<close>

text \<open>The values that the cache has for a place.\<close>

definition stored_weather ::
  "'j api_env \<Rightarrow> cache_tables \<Rightarrow> place \<Rightarrow> bool \<Rightarrow> int \<Rightarrow> int \<Rightarrow> weather_values list" where
  "stored_weather E t p forecast t0 t1 =
     (case pick_facility (av_scan E) (pl_lat p) (pl_lon p) (pl_tilt p) (pl_azimuth p) forecast t of
        None \<Rightarrow> [] | Some f \<Rightarrow> select_weather (fr_id f) t0 t1 t)"

lemma read_weather_values:
  assumes "calls_ok e"
  shows "\<exists>W. sql_helper_read_weather e scan out lat lon tilt azimuth forecast t0 t1
      \<lparr>sh_db = Some (sql_rest t), sh_locked = l\<rparr> = (SUCCESS, W) \<and>
    we_values W = (case pick_facility scan lat lon tilt azimuth forecast t of
        None \<Rightarrow> [] | Some f \<Rightarrow> select_weather (fr_id f) t0 t1 t)"
  using assms by (simp add: sql_helper_read_weather_def calls_ok_def tx_simps delivered_def read_rows_ok
      Let_def weather_meta_def split: option.split)

text \<open>What \<open>/weather/cache\<close> reads: without failures the values of the requested range; for a forecast
  without values there, the forecasts from yesterday to a week from now; and without any of those, the
  measured values of the last day and the next hour.\<close>

theorem weather_cache_fallback:
  assumes "\<And>k. calls_ok (av_reads E k)" and "h = \<lparr>sh_db = Some (sql_rest t), sh_locked = l\<rparr>"
  shows "\<exists>W. cached_weather E h p forecast (t0, t1) = (SUCCESS, W) \<and>
    we_values W =
      (if \<not> forecast \<or> stored_weather E t p True t0 t1 \<noteq> [] then stored_weather E t p forecast t0 t1
       else if stored_weather E t p True (av_now E - 86400) (av_now E + 604800) \<noteq> []
       then stored_weather E t p True (av_now E - 86400) (av_now E + 604800)
       else stored_weather E t p False (av_now E - 86400) (av_now E + 3600))"
proof -
  define rd where "rd = (\<lambda>k fc t0 t1. sql_helper_read_weather (av_reads E k) (av_scan E) no_weather
      (pl_lat p) (pl_lon p) (pl_tilt p) (pl_azimuth p) fc t0 t1 h)"
  have rd: "fst (rd k fc t0 t1) = SUCCESS" "we_values (snd (rd k fc t0 t1)) = stored_weather E t p fc t0 t1"
    for k fc t0 t1
    using read_weather_values [OF assms(1), of k "av_scan E" no_weather "pl_lat p" "pl_lon p" "pl_tilt p"
        "pl_azimuth p" fc t0 t1 t l]
    by (auto simp: rd_def stored_weather_def assms(2))
  have rd_app: "sql_helper_read_weather (av_reads E k) (av_scan E) no_weather (pl_lat p) (pl_lon p)
      (pl_tilt p) (pl_azimuth p) fc t0 t1 h = rd k fc t0 t1" for k fc t0 t1 by (simp add: rd_def)
  have "cached_weather E h p forecast (t0, t1) =
    (let r1 = rd 0 forecast t0 t1;
         r2 = (if forecast \<and> we_values (snd r1) = [] then rd 1 True (av_now E - 86400) (av_now E + 604800)
               else r1)
     in if forecast \<and> we_values (snd r2) = [] then rd 2 False (av_now E - 86400) (av_now E + 3600) else r2)"
    using rd(1) by (cases forecast) (simp_all add: cached_weather_def rd_app Let_def)
  then show ?thesis
    using rd by (cases "rd 0 forecast t0 t1"; cases "rd 1 True (av_now E - 86400) (av_now E + 604800)";
        cases "rd 2 False (av_now E - 86400) (av_now E + 3600)") (auto simp: Let_def prod_eq_iff)
qed

section \<open>The text of the weather\<close>

lemma round_half_even_le:
  assumes "y \<le> of_nat k" and "0 \<le> y"
  shows "round_half_even y \<le> k"
proof -
  define f where "f = nat \<lfloor>y\<rfloor>"
  have "of_nat f \<le> y" using assms(2) by (simp add: f_def of_nat_floor)
  then have "(of_nat f :: rat) \<le> of_nat k" using assms(1) by linarith
  then have "f \<le> k" by (simp only: of_nat_le_iff)
  have up: "Suc f \<le> k" if "1 / 2 \<le> y - of_nat f"
  proof -
    have "(of_nat f :: rat) < of_nat k" using that assms(1) by linarith
    then show ?thesis by (simp only: of_nat_less_iff Suc_le_eq)
  qed
  have "round_half_even y = (if y - of_nat f < 1 / 2 then f
      else if 1 / 2 < y - of_nat f then Suc f else if even f then f else Suc f)"
    by (simp only: round_half_even_def f_def Let_def Suc_eq_plus1)
  also have "\<dots> \<le> k" using \<open>f \<le> k\<close> up by (metis less_imp_le not_less)
  finally show ?thesis .
qed

lemma length_fmt_fixed:
  assumes "\<bar>x\<bar> \<le> 9999"
  shows "length (fmt_fixed n x) \<le> 6 + n"
proof -
  let ?m = "round_half_even (\<bar>x\<bar> * 10 ^ n)"
  have "\<bar>x\<bar> * 10 ^ n \<le> of_nat (9999 * 10 ^ n)" using assms by simp
  then have m: "?m \<le> 9999 * 10 ^ n" by (rule round_half_even_le) simp
  have "9999 * 10 ^ n < (10 ^ 4 * 10 ^ n :: nat)" by simp
  with m have "?m < 10 ^ 4 * 10 ^ n" by (rule le_less_trans)
  then have "?m div 10 ^ n < 10 ^ 4" by (rule less_mult_imp_div_less)
  then have "length (dec_nat (?m div 10 ^ n)) \<le> 4" by (rule length_dec_nat_le) simp
  moreover have "0 < n \<Longrightarrow> length (dec_nat (?m mod 10 ^ n)) \<le> n" by (rule length_dec_nat_le) simp_all
  ultimately show ?thesis by (auto simp: fmt_fixed_def Let_def pad0_def)
qed

text \<open>Values that the weather of the earth keeps.\<close>

definition usual_weather :: "weather_values \<Rightarrow> bool" where
  "usual_weather v \<longleftrightarrow> 0 \<le> wv_timestamp v \<and> wv_timestamp v < 10 ^ 11 \<and> \<bar>wv_temperature v\<bar> \<le> 9999 \<and>
     \<bar>wv_precipitation v\<bar> \<le> 9999 \<and> \<bar>wv_windspeed v\<bar> \<le> 9999 \<and> \<bar>wv_radiation_shortwave v\<bar> \<le> 9999"

lemma length_weather_line:
  assumes "usual_weather v"
  shows "length (weather_line v) \<le> 64"
proof -
  have "nat (wv_timestamp v) < 10 ^ 11" using assms by (simp add: usual_weather_def nat_less_iff)
  then have "length (dec_nat (nat (wv_timestamp v))) \<le> 11" by (rule length_dec_nat_le) simp
  then have "length (dec_int (wv_timestamp v)) \<le> 11" using assms by (simp add: dec_int_def usual_weather_def)
  with length_fmt_fixed [of "wv_temperature v" 1] length_fmt_fixed [of "wv_precipitation v" 2]
    length_fmt_fixed [of "wv_windspeed v" 1] length_fmt_fixed [of "wv_radiation_shortwave v" 0] assms
  show ?thesis by (simp add: weather_line_def usual_weather_def)
qed

lemma weather_lines_fit:
  assumes "\<forall>v \<in> set vs. usual_weather v" and "length body + length vs * 64 < capacity"
  shows "weather_lines capacity body vs = Inr (body @ concat (map weather_line vs))"
  using assms
proof (induction vs arbitrary: body)
  case (Cons v vs)
  then have "length (weather_line v) \<le> 64" by (simp add: length_weather_line)
  with Cons show ?case by (simp add: Let_def)
qed simp

text \<open>The text of the weather fits the buffer that is sized by the number of values: for values of
  fewer than five digits before the point, the endpoint never cuts or refuses a series of any length;
  the text is the head line and one line for each value.\<close>

theorem weather_txt_fits:
  assumes "\<forall>v \<in> set (we_values W). usual_weather v" and "length (we_values W) < 2 ^ 32"
    and "al (128 + length (we_values W) * 64)"
  shows "osi_weather_to_txt al W forecast =
    Inr (weather_txt_head W forecast @ concat (map weather_line (we_values W)))"
proof -
  let ?n = "length (we_values W)" and ?i = "int_of_long (we_update_interval W)"
  have "?n < 10 ^ 10" using assms(2) by simp
  then have n: "length (dec_nat ?n) \<le> 10" by (rule length_dec_nat_le) simp
  have "- (2 ^ 31) \<le> ?i \<and> ?i < 2 ^ 31"
    unfolding int_of_long_def
    using signed_take_bit_int_greater_eq_minus_exp [of 31] signed_take_bit_int_less_exp [of 31] by simp
  then have "nat ?i < 10 ^ 10" "nat (- ?i) < 10 ^ 10"
    by (cases "0 \<le> ?i"; simp add: nat_less_iff)+
  then have "length (dec_nat (nat ?i)) \<le> 10" "length (dec_nat (nat (- ?i))) \<le> 10"
    by (auto intro: length_dec_nat_le)
  then have "length (dec_int ?i) \<le> 11" by (simp add: dec_int_def)
  with n have "length (weather_txt_head W forecast) < 128" by (simp add: weather_txt_head_def)
  then show ?thesis
    using assms(1,3) weather_lines_fit [OF assms(1), of "weather_txt_head W forecast"]
    by (simp add: osi_weather_to_txt_def Let_def)
qed

section \<open>Instances\<close>

definition ask_zone :: http_conn where
  "ask_zone = asked HTTP_GET ''/api/v1/spot-price/cache'' [(''energy_zone'', ''1'')] []"

definition priced_api :: api where
  "priced_api = plain_api\<lparr>ap_cache := \<lparr>sh_db = Some (sql_rest (no_tables\<lparr>ct_spots :=
     [\<lparr>sr_class = SE1, sr_currency = SPOT_SEK,
       sr_price = \<lparr>sp_time_start = 999000, sp_time_end = 999900, sp_price = 2\<rparr>\<rparr>]\<rparr>)), sh_locked = False\<rparr>\<rparr>"

theorem spot_cache_answers_witness:
  "\<exists>ps js. osi_get_spot_cache plain_env (ask_zone, priced_api) =
      respond_with plain_env 200 ''application/json'' js (ask_zone, priced_api) \<and>
    \<lparr>sp_time_start = 999000, sp_time_end = 999900, sp_price = 2\<rparr> \<in> set ps"
proof -
  let ?t = "no_tables\<lparr>ct_spots := [\<lparr>sr_class = SE1, sr_currency = SPOT_SEK,
       sr_price = \<lparr>sp_time_start = 999000, sp_time_end = 999900, sp_price = 2\<rparr>\<rparr>]\<rparr>"
  have k: "calls_ok (av_reads plain_env 0)" "keys_distinct spot_key (ct_spots ?t)"
    "ap_cache priced_api = \<lparr>sh_db = Some (sql_rest ?t), sh_locked = False\<rparr>"
    by (simp_all add: keys_distinct_def priced_api_def)
  have r: "osi_parse_time_range (av_now plain_env) (request ask_zone) = Inr (913600, 1000000)"
    by (simp add: osi_parse_time_range_def given_time_def range_days_def osi_get_query_param_def ask_zone_def)
  have "strtol10 ''1'' = Some (1, [])" by code_simp
  then have z: "request_zone plain_env (ap_fs priced_api) (request ask_zone) = Inr 1"
    by (simp add: request_zone_def osi_parse_query_int_def osi_get_query_param_def ask_zone_def zone_keys_def
        int_of_long_id)
  have p: "\<And>d. av_print plain_env d \<noteq> None" by simp
  from spot_cache_answers [OF k r z p] obtain ps js where
    "osi_get_spot_cache plain_env (ask_zone, priced_api) =
      respond_with plain_env 200 ''application/json'' js (ask_zone, priced_api)"
    and mem: "\<And>p. p \<in> set ps \<longleftrightarrow> 913600 \<le> sp_time_start p \<and> sp_time_start p < 1000000 \<and>
       spot_map ?t (zone_class 1) SPOT_SEK (sp_time_start p) = Some p" by blast
  moreover have "\<lparr>sp_time_start = 999000, sp_time_end = 999900, sp_price = 2\<rparr> \<in> set ps"
    unfolding mem by (simp add: spot_map_def zone_class_def price_class_of_def spot_key_def)
  ultimately show ?thesis by blast
qed

theorem weather_cache_fallback_witness:
  "\<exists>W. cached_weather plain_env \<lparr>sh_db = Some (sql_rest no_tables), sh_locked = False\<rparr>
      \<lparr>pl_lat = 0, pl_lon = 0, pl_tilt = 0, pl_azimuth = 0\<rparr> True (0, 1) = (SUCCESS, W) \<and> we_values W = []"
proof -
  have "\<And>k. calls_ok (av_reads plain_env k)" by simp
  from weather_cache_fallback [OF this refl, of no_tables False
      "\<lparr>pl_lat = 0, pl_lon = 0, pl_tilt = 0, pl_azimuth = 0\<rparr>" True 0 1]
  show ?thesis by (simp add: stored_weather_def pick_facility_def no_tables_def)
qed

theorem weather_txt_fits_witness:
  "osi_weather_to_txt mem_unlimited one_weather True =
     Inr (weather_txt_head one_weather True @ concat (map weather_line (we_values one_weather)))"
  using weather_txt_fits [of one_weather mem_unlimited True]
  by (simp add: one_weather_def usual_weather_def mem_unlimited_def)

end
