(* ===== verification/Opti_Instance.thy ===== *)
theory Opti_Instance
  imports Opti_Answers
begin

text \<open>
  The instance task of the API (\<open>Opti_Server_Instance\<close>, end of \<open>server/src/opti/opti_instance.c\<close>) and
  its composition with the connection task. The connection calls back when a valid request is there
  (\<open>osi_on_request\<close>, which creates the instance task) and when it is done (\<open>osi_on_dispose\<close>); the
  instance sets the response and the done flag of the connection. One round of the scheduler runs both
  tasks in either order. The theorems show that the composition always comes to an end when memory is
  available, that the client gets the response of the routed endpoint, and what happens without memory.
\<close>

section \<open>The instance\<close>

datatype osi_state =
    OPTI_INSTANCE_INITIALIZING
  | OPTI_INSTANCE_IDLING
  | OPTI_INSTANCE_REQUEST_PARSING
  | OPTI_INSTANCE_RESPONSE_BUILDING
  | OPTI_INSTANCE_RESPONSE_SENDING
  | OPTI_INSTANCE_DISPOSING
  | OPTI_INSTANCE_ERROR

text \<open>\<open>os_task\<close>: the task exists; \<open>os_conn\<close>: the pointer to the connection is not NULL;
  \<open>os_finished\<close>: \<open>on_finish\<close> was called.\<close>

record osi =
  os_state :: osi_state
  os_endpoint :: "endpoint option"
  os_task :: bool
  os_conn :: bool
  os_finished :: bool

definition osi_init :: osi where
  "osi_init = \<lparr>os_state = OPTI_INSTANCE_INITIALIZING, os_endpoint = None, os_task = False, os_conn = True,
     os_finished = False\<rparr>"

definition osi_on_request :: "bool \<Rightarrow> osi \<Rightarrow> osi" where
  "osi_on_request task_ok o1 = o1\<lparr>os_state := OPTI_INSTANCE_INITIALIZING, os_task := task_ok\<rparr>"

definition osi_on_dispose :: "osi \<Rightarrow> osi" where
  "osi_on_dispose o1 = o1\<lparr>os_task := False, os_conn := False, os_finished := True\<rparr>"

definition worktask_request_parse :: "http_request \<Rightarrow> osi \<Rightarrow> osi" where
  "worktask_request_parse req o1 =
     o1\<lparr>os_endpoint := (case req_path req of None \<Rightarrow> None
                        | Some p \<Rightarrow> find_endpoint (req_method req) (cstr p) Endpoints),
        os_state := OPTI_INSTANCE_RESPONSE_BUILDING\<rparr>"

text \<open>What is set for an endpoint or for none; a failure is answered with 500.\<close>

definition worktask_response_build ::
  "'j api_env \<Rightarrow> endpoint option \<Rightarrow> http_conn \<times> api \<Rightarrow> http_conn \<times> api" where
  "worktask_response_build E ep s =
     (let (res, c, a) = (case ep of
            None \<Rightarrow> respond_with E 404 json_type (json_error ''not found'') s
          | Some e \<Rightarrow> endpoint_func e E s)
      in if res \<noteq> SUCCESS
         then (snd (osi_set_response E 500 ''text/plain'' ''Internal Server Error'' c), a)
         else (c, a))"

definition osi_taskwork :: "'j api_env \<Rightarrow> osi \<times> http_conn \<times> api \<Rightarrow> osi \<times> http_conn \<times> api" where
  "osi_taskwork E s =
     (case s of (o1, c, a) \<Rightarrow>
        (case os_state o1 of
           OPTI_INSTANCE_INITIALIZING \<Rightarrow> (o1\<lparr>os_state := OPTI_INSTANCE_REQUEST_PARSING\<rparr>, c, a)
         | OPTI_INSTANCE_REQUEST_PARSING \<Rightarrow> (worktask_request_parse (request c) o1, c, a)
         | OPTI_INSTANCE_IDLING \<Rightarrow> s
         | OPTI_INSTANCE_RESPONSE_BUILDING \<Rightarrow>
             (o1\<lparr>os_state := OPTI_INSTANCE_RESPONSE_SENDING\<rparr>, worktask_response_build E (os_endpoint o1) (c, a))
         | OPTI_INSTANCE_RESPONSE_SENDING \<Rightarrow> (o1\<lparr>os_state := OPTI_INSTANCE_DISPOSING\<rparr>, c, a)
         | OPTI_INSTANCE_DISPOSING \<Rightarrow> s
         | OPTI_INSTANCE_ERROR \<Rightarrow>
             (o1\<lparr>os_state := OPTI_INSTANCE_DISPOSING\<rparr>,
              snd (osi_set_response E 500 ''text/plain'' ''Internal Server Error'' c), a)))"

section \<open>The composition\<close>

type_synonym api_sys = "osi \<times> http_conn \<times> api"

text \<open>The callbacks that a step of the connection makes.\<close>

fun on_event :: "bool \<Rightarrow> conn_event \<Rightarrow> osi \<Rightarrow> osi" where
  "on_event task_ok OnRequest o1 = osi_on_request task_ok o1"
| "on_event task_ok OnDispose o1 = osi_on_dispose o1"
| "on_event task_ok ev o1 = o1"

definition new_events :: "http_conn \<Rightarrow> http_conn \<Rightarrow> conn_event list" where
  "new_events c c' = drop (length (events c)) (events c')"

record 'j round_input =
  ri_conn :: conn_input
  ri_env :: "'j api_env"
  ri_task_ok :: bool
  ri_api_first :: bool

definition conn_turn :: "http_lib \<Rightarrow> 'j round_input \<Rightarrow> api_sys \<Rightarrow> api_sys" where
  "conn_turn lib i s =
     (case s of (o1, c, a) \<Rightarrow>
        if \<not> os_conn o1 then s
        else let c' = http_server_connection_taskwork lib (ri_conn i) c
             in (fold (on_event (ri_task_ok i)) (new_events c c') o1, c', a))"

definition api_turn :: "'j round_input \<Rightarrow> api_sys \<Rightarrow> api_sys" where
  "api_turn i s = (if os_task (fst s) then osi_taskwork (ri_env i) s else s)"

definition api_round :: "http_lib \<Rightarrow> 'j round_input \<Rightarrow> api_sys \<Rightarrow> api_sys" where
  "api_round lib i s =
     (if ri_api_first i then conn_turn lib i (api_turn i s) else api_turn i (conn_turn lib i s))"

definition api_start :: "api \<Rightarrow> api_sys" where
  "api_start a = (osi_init, http_server_connection_init, a)"

text \<open>A round with memory, in which a task can be created.\<close>

definition round_ok :: "'j round_input \<Rightarrow> bool" where
  "round_ok i \<longleftrightarrow> memory_ok (ri_conn i) \<and> av_mem (ri_env i) = mem_unlimited \<and> ri_task_ok i"

section \<open>The steps of the connection\<close>

lemma read_socket_same:
  "read_socket lib i c = Inl c' \<Longrightarrow> events c' = events c \<and> weather_done c' = weather_done c"
  "read_socket lib i c = Inr c' \<Longrightarrow> events c' = events c \<and> weather_done c' = weather_done c"
  by (auto simp: read_socket_def Let_def split: if_splits option.splits)

lemma firstline_frame:
  "events (worktask_request_read_firstline lib i c) = events c \<and>
   weather_done (worktask_request_read_firstline lib i c) = weather_done c"
  using read_socket_same [of lib i c]
  by (auto simp: worktask_request_read_firstline_def set_status_def Let_def
      split: sum.split option.split prod.split)

lemma headers_frame:
  "events (worktask_request_read_headers lib i c) = events c \<and>
   weather_done (worktask_request_read_headers lib i c) = weather_done c"
proof (cases "read_socket lib i c")
  case (Inl d)
  then show ?thesis using read_socket_same(1) [OF Inl] by (simp add: worktask_request_read_headers_def)
next
  case (Inr d)
  note d = read_socket_same(2) [OF Inr]
  show ?thesis
  proof (cases "find_headers_end lib (conn_data d)")
    case (Some n)
    obtain res hs where "parse_headers lib (take (n + 4) (conn_data d)) (req_headers (request d)) =
        (res, hs)" by force
    with Some d show ?thesis
      by (simp add: worktask_request_read_headers_def Inr set_status_def Let_def split: option.split)
  qed (use d in \<open>simp add: worktask_request_read_headers_def Inr Let_def\<close>)
qed

lemma body_frame:
  "events (worktask_request_read_body lib i c) = events c \<and>
   weather_done (worktask_request_read_body lib i c) = weather_done c"
  using read_socket_same [of lib i c]
  by (simp add: worktask_request_read_body_def split: sum.split)

lemma reading_frame:
  assumes "state c \<in> {INITIALIZING, READING_FIRSTLINE, READING_HEADERS, READING_BODY, ERROR}"
  shows "events (http_server_connection_taskwork lib i c) = events c \<and>
    weather_done (http_server_connection_taskwork lib i c) = weather_done c"
  using assms firstline_frame [of lib i c] headers_frame [of lib i c] body_frame [of lib i c]
  by (cases "state c")
    (simp_all add: http_server_connection_taskwork_def worktask_init_def set_status_def)

lemma validate_frame:
  assumes "state c = VALIDATING"
  shows "let c' = http_server_connection_taskwork lib i c
    in state c' = WEATHER_HANDOVER \<and> events c' = events c @ [OnRequest] \<and> weather_done c' = weather_done c \<and>
         (\<exists>p. req_path (request c') = Some p \<and> p \<noteq> ''/echo'') \<or>
       state c' = RESPONDING \<and> events c' = events c"
  using assms by (auto simp: http_server_connection_taskwork_def worktask_request_validate_def
      set_status_def Let_def)

section \<open>Every connection comes to an end\<close>

text \<open>The rank of the composition: the rank of the connection, with the steps of the instance while
  the connection waits for it and the two steps to the disposal.\<close>

definition waiting :: "http_conn \<Rightarrow> bool" where
  "waiting c \<longleftrightarrow> state c = WEATHER_HANDOVER \<and> \<not> weather_done c"

definition api_rank :: "api_sys \<Rightarrow> nat" where
  "api_rank s = (case s of (o1, c, a) \<Rightarrow>
     if \<not> os_conn o1 then 0
     else case state c of
         DISPOSING \<Rightarrow> 1
       | RESPONDING \<Rightarrow> 2
       | ERROR \<Rightarrow> 3
       | WEATHER_HANDOVER \<Rightarrow>
           if weather_done c then 4
           else 4 + (case os_state o1 of OPTI_INSTANCE_INITIALIZING \<Rightarrow> 3 | OPTI_INSTANCE_REQUEST_PARSING \<Rightarrow> 2 | _ \<Rightarrow> 1)
       | VALIDATING \<Rightarrow> 8
       | _ \<Rightarrow> 8 + conn_rank c)"

text \<open>The instance has a task from the request on, and then is on its way to a response.\<close>

definition api_inv :: "api_sys \<Rightarrow> bool" where
  "api_inv s = (case s of (o1, c, a) \<Rightarrow> retries_ok c \<and>
     (os_conn o1 \<longrightarrow> waiting c \<longrightarrow>
        os_task o1 \<and> os_state o1 \<in> {OPTI_INSTANCE_INITIALIZING, OPTI_INSTANCE_REQUEST_PARSING, OPTI_INSTANCE_RESPONSE_BUILDING}) \<and>
     (os_conn o1 \<longrightarrow> state c \<in> {INITIALIZING, READING_FIRSTLINE, READING_HEADERS, READING_BODY, VALIDATING} \<longrightarrow>
        \<not> os_task o1))"

definition api_done :: "api_sys \<Rightarrow> bool" where
  "api_done s \<longleftrightarrow> \<not> os_conn (fst s)"

lemma new_events_same [simp]: "events c' = events c @ es \<Longrightarrow> new_events c c' = es"
  by (simp add: new_events_def)

lemma no_new_events [simp]: "events c' = events c \<Longrightarrow> new_events c c' = []"
  by (simp add: new_events_def)

lemma answer_set_status [simp]: "answer E code ctype body (set_status n c) = answer E code ctype body c"
  by (simp add: answer_def set_status_def)

lemma build_result:
  "\<exists>r. proper E c r \<and> worktask_response_build E ep (c, a) =
     (if fst r \<noteq> SUCCESS
      then (snd (osi_set_response E 500 ''text/plain'' ''Internal Server Error'' (fst (snd r))), snd (snd r))
      else snd r)"
proof (cases ep)
  case None
  have "snd (snd (respond_with E 404 json_type (json_error ''not found'') (c, a))) = a" by simp
  with None show ?thesis
    by (intro exI [of _ "respond_with E 404 json_type (json_error ''not found'') (c, a)"])
      (simp add: worktask_response_build_def proper_respond case_prod_beta Let_def prod_eq_iff)
next
  case (Some e)
  then show ?thesis
    using endpoint_is_proper [of E "(c, a)" e]
    by (intro exI [of _ "endpoint_func e E (c, a)"])
      (simp add: worktask_response_build_def case_prod_beta Let_def)
qed

text \<open>What the instance does to the connection: with memory it answers; in any case it touches nothing
  but the response and the done flag.\<close>

lemma build_answers:
  assumes "av_mem E = mem_unlimited"
  shows "\<exists>code \<in> api_codes. \<exists>ctype body. fst (worktask_response_build E ep (c, a)) = answer E code ctype body c"
proof -
  obtain r where r: "proper E c r" "worktask_response_build E ep (c, a) =
     (if fst r \<noteq> SUCCESS
      then (snd (osi_set_response E 500 ''text/plain'' ''Internal Server Error'' (fst (snd r))), snd (snd r))
      else snd r)" using build_result by blast
  show ?thesis
  proof (cases "fst r = SUCCESS")
    case True
    with r show ?thesis by (auto simp: proper_def)
  next
    case False
    with r(1) obtain n where "fst (snd r) = set_status n c" by (auto simp: proper_def)
    with False r(2) assms
    have "fst (worktask_response_build E ep (c, a)) = answer E 500 ''text/plain'' ''Internal Server Error'' c"
      by (simp add: set_response_cases mem_unlimited_def)
    then show ?thesis using api_codes_mem(4) by blast
  qed
qed

definition only_response :: "http_conn \<Rightarrow> http_conn \<Rightarrow> bool" where
  "only_response c c' \<longleftrightarrow>
     (\<exists>r w. c' = c\<lparr>response := r, weather_done := w\<rparr> \<and> (weather_done c \<longrightarrow> w))"

lemma only_response_frame:
  "only_response c c' \<Longrightarrow> state c' = state c \<and> retries c' = retries c \<and> events c' = events c \<and>
     request c' = request c \<and> (weather_done c \<longrightarrow> weather_done c')"
  by (auto simp: only_response_def)

lemma only_response_trans: "only_response c d \<Longrightarrow> only_response d e \<Longrightarrow> only_response c e"
  unfolding only_response_def by force

lemma only_response_base:
  "only_response c c" "only_response c (set_status n c)" "only_response c (answer E code ctype body c)"
  "only_response c (snd (osi_set_response E code ctype body c))"
proof -
  show 1: "only_response c (set_status n c)" for n
    unfolding only_response_def set_status_def
    by (intro exI [of _ "(response c)\<lparr>resp_status := n\<rparr>"] exI [of _ "weather_done c"]) simp
  show "only_response c c" using 1 [of "resp_status (response c)"] by simp
  show 2: "only_response c (answer E code ctype body c)"
    unfolding only_response_def answer_def by auto
  show "only_response c (snd (osi_set_response E code ctype body c))"
    using 1 2 by (simp add: set_response_cases)
qed

lemma build_frame: "only_response c (fst (worktask_response_build E ep (c, a)))"
proof -
  obtain r where r: "proper E c r" "worktask_response_build E ep (c, a) =
     (if fst r \<noteq> SUCCESS
      then (snd (osi_set_response E 500 ''text/plain'' ''Internal Server Error'' (fst (snd r))), snd (snd r))
      else snd r)" using build_result by blast
  from r(1) have "only_response c (fst (snd r))" by (auto simp: proper_def intro: only_response_base)
  with r(2) show ?thesis by (auto intro: only_response_trans only_response_base)
qed

lemma osi_step_frame:
  assumes "osi_taskwork E (o1, c, a) = (o2, c', a')"
  shows "only_response c c' \<and> os_conn o2 = os_conn o1 \<and> os_task o2 = os_task o1"
  using assms only_response_base(1) only_response_base(4) [of c E 500] build_frame [of c E "os_endpoint o1" a]
  by (cases "os_state o1") (auto simp: osi_taskwork_def worktask_request_parse_def)

section \<open>The steps of the composition\<close>

lemma api_turn_frame:
  assumes "api_turn i (o1, c, a) = (o2, c', a')"
  shows "only_response c c' \<and> os_conn o2 = os_conn o1 \<and> os_task o2 = os_task o1"
  using assms osi_step_frame [of "ri_env i" o1 c a o2 c' a']
  by (auto simp: api_turn_def only_response_base split: if_splits)

lemma waiting_frame: "only_response c c' \<Longrightarrow> waiting c' \<Longrightarrow> waiting c"
  by (auto simp: waiting_def only_response_def)

text \<open>The next state of a waiting instance with memory.\<close>

lemma api_turn_waiting:
  assumes "os_task o1" and "av_mem (ri_env i) = mem_unlimited"
  shows "os_state o1 = OPTI_INSTANCE_INITIALIZING \<Longrightarrow> api_turn i (o1, c, a) = (o1\<lparr>os_state := OPTI_INSTANCE_REQUEST_PARSING\<rparr>, c, a)"
    and "os_state o1 = OPTI_INSTANCE_REQUEST_PARSING \<Longrightarrow>
      api_turn i (o1, c, a) = (worktask_request_parse (request c) o1, c, a)"
    and "os_state o1 = OPTI_INSTANCE_RESPONSE_BUILDING \<Longrightarrow> \<exists>o2 c' a'. api_turn i (o1, c, a) = (o2, c', a') \<and> weather_done c'"
proof -
  obtain c2 a2 where b: "worktask_response_build (ri_env i) (os_endpoint o1) (c, a) = (c2, a2)" by fastforce
  then have "weather_done c2"
    using build_answers [OF assms(2), of "os_endpoint o1" c a] by (auto simp: answer_def)
  with b assms(1) show "os_state o1 = OPTI_INSTANCE_RESPONSE_BUILDING \<Longrightarrow>
      \<exists>o2 c' a'. api_turn i (o1, c, a) = (o2, c', a') \<and> weather_done c'"
    by (simp add: api_turn_def osi_taskwork_def)
qed (use assms in \<open>simp_all add: api_turn_def osi_taskwork_def\<close>)

lemma api_turn_inv:
  assumes "api_inv s" and "av_mem (ri_env i) = mem_unlimited"
  shows "api_inv (api_turn i s)"
proof -
  obtain o1 c a where s: "s = (o1, c, a)" by (cases s)
  obtain o2 c' a' where t: "api_turn i (o1, c, a) = (o2, c', a')" by (metis prod_cases3)
  note fr = api_turn_frame [OF t]
  have "retries_ok c'" using assms(1) only_response_frame [of c c'] fr by (auto simp: api_inv_def s retries_ok_def)
  moreover have "os_task o2 \<and> os_state o2 \<in> {OPTI_INSTANCE_INITIALIZING, OPTI_INSTANCE_REQUEST_PARSING, OPTI_INSTANCE_RESPONSE_BUILDING}"
    if w: "os_conn o2" "waiting c'"
  proof -
    have "waiting c" using waiting_frame fr w by blast
    with assms(1) w fr have o1: "os_task o1"
      "os_state o1 \<in> {OPTI_INSTANCE_INITIALIZING, OPTI_INSTANCE_REQUEST_PARSING, OPTI_INSTANCE_RESPONSE_BUILDING}"
      by (auto simp: api_inv_def s)
    from o1(2) show ?thesis
      using api_turn_waiting [OF o1(1) assms(2), of c a] t w fr o1(1)
      by (auto simp: waiting_def worktask_request_parse_def)
  qed
  moreover have "\<not> os_task o2"
    if "os_conn o2" "state c' \<in> {INITIALIZING, READING_FIRSTLINE, READING_HEADERS, READING_BODY, VALIDATING}"
    using assms(1) that fr only_response_frame [of c c'] by (auto simp: api_inv_def s)
  ultimately show ?thesis by (simp add: s t api_inv_def)
qed

lemma api_turn_rank:
  assumes "api_inv s" and "av_mem (ri_env i) = mem_unlimited"
  shows "api_rank (api_turn i s) \<le> api_rank s \<and>
    (os_conn (fst s) \<longrightarrow> waiting (fst (snd s)) \<longrightarrow> api_rank (api_turn i s) < api_rank s)"
proof -
  obtain o1 c a where s: "s = (o1, c, a)" by (cases s)
  obtain o2 c' a' where t: "api_turn i (o1, c, a) = (o2, c', a')" by (metis prod_cases3)
  note fr = api_turn_frame [OF t]
  from fr have fr': "state c' = state c" "retries c' = retries c" "weather_done c \<longrightarrow> weather_done c'"
    using only_response_frame [of c c'] by blast+
  then have same: "state c' = state c" "weather_done c \<longrightarrow> weather_done c'" "conn_rank c' = conn_rank c"
    by (simp_all add: conn_rank_def budget_left_def split: conn_state.split)
  show ?thesis
  proof (cases "os_conn o1 \<and> waiting c")
    case True
    with assms(1) have o1: "os_task o1"
      "os_state o1 \<in> {OPTI_INSTANCE_INITIALIZING, OPTI_INSTANCE_REQUEST_PARSING, OPTI_INSTANCE_RESPONSE_BUILDING}"
      by (auto simp: api_inv_def s)
    from o1(2) have "api_rank (o2, c', a') < api_rank (o1, c, a)"
      using api_turn_waiting [OF o1(1) assms(2), of c a] t True same(1)
      by (auto simp: api_rank_def waiting_def worktask_request_parse_def)
    then show ?thesis by (simp add: s t)
  next
    case False
    then have "os_conn o1 \<longrightarrow> state c = WEATHER_HANDOVER \<longrightarrow> weather_done c"
      by (simp add: waiting_def)
    with same fr have "api_rank (o2, c', a') = api_rank (o1, c, a)"
      by (auto simp: api_rank_def split: conn_state.split)
    with False show ?thesis by (simp add: s t)
  qed
qed

text \<open>A step of the connection, by its state.\<close>

lemma conn_turn_reading:
  assumes "os_conn o1" and "state c \<in> {INITIALIZING, READING_FIRSTLINE, READING_HEADERS, READING_BODY, ERROR}"
  shows "conn_turn lib i (o1, c, a) = (o1, http_server_connection_taskwork lib (ri_conn i) c, a)"
  using assms(1) reading_frame [OF assms(2), of lib "ri_conn i"] by (simp add: conn_turn_def Let_def)

lemma conn_turn_inv:
  assumes "api_inv s" and "round_ok i"
  shows "api_inv (conn_turn lib i s) \<and> (api_rank (conn_turn lib i s) \<le> api_rank s) \<and>
    (os_conn (fst s) \<longrightarrow> \<not> waiting (fst (snd s)) \<longrightarrow> api_rank (conn_turn lib i s) < api_rank s)"
proof -
  obtain o1 c a where s: "s = (o1, c, a)" by (cases s)
  let ?c = "http_server_connection_taskwork lib (ri_conn i) c"
  have r: "retries_ok c" using assms(1) by (simp add: api_inv_def s)
  have r': "retries_ok ?c" by (rule retries_ok_step [OF r])
  have m: "memory_ok (ri_conn i)" using assms(2) by (simp add: round_ok_def)
  show ?thesis
  proof (cases "os_conn o1")
    case False
    with assms(1) show ?thesis by (simp add: s conn_turn_def)
  next
    case True
    note less = conn_rank_step [OF r m, where lib = lib]
    show ?thesis
    proof (cases "state c")
      case WEATHER_HANDOVER
      with assms(1) True r show ?thesis
        by (auto simp: s conn_turn_def http_server_connection_taskwork_def api_inv_def api_rank_def
            waiting_def retries_ok_def split: osi_state.split)
    next
      case VALIDATING
      with validate_frame [OF VALIDATING, of lib "ri_conn i"] assms True r' show ?thesis
        by (auto simp: s conn_turn_def Let_def api_inv_def api_rank_def waiting_def round_ok_def
            osi_on_request_def conn_settled_def split: osi_state.split)
    next
      case RESPONDING
      then have "state ?c = DISPOSING" using taskwork_next(8) [OF refl _ m] by blast
      with RESPONDING True r' show ?thesis
        by (simp add: s conn_turn_def Let_def api_inv_def api_rank_def waiting_def)
    next
      case DISPOSING
      with True r' show ?thesis
        by (simp add: s conn_turn_def Let_def api_inv_def api_rank_def waiting_def
            http_server_connection_taskwork_def osi_on_dispose_def)
    next
      case ERROR
      then have "state ?c = RESPONDING" using taskwork_next(10) [OF refl] by blast
      with ERROR True r' show ?thesis
        using conn_turn_reading [OF True, of c lib i a]
        by (simp add: s api_inv_def api_rank_def waiting_def)
    qed (use True r' less assms(1) conn_turn_reading [OF True, of c lib i a]
           taskwork_next [OF refl, where lib = lib and i = "ri_conn i" and c = c] in
        \<open>auto simp: s api_inv_def api_rank_def waiting_def conn_settled_def split: conn_state.split\<close>)
  qed
qed

lemma conn_turn_waiting:
  assumes "waiting c"
  shows "conn_turn lib i (o1, c, a) = (o1, c, a)"
  using assms by (simp add: conn_turn_def Let_def waiting_def http_server_connection_taskwork_def)

lemma api_round_step:
  assumes "api_inv s" and "round_ok i"
  shows "api_inv (api_round lib i s)"
    and "\<not> api_done s \<Longrightarrow> api_rank (api_round lib i s) < api_rank s"
proof -
  have m: "av_mem (ri_env i) = mem_unlimited" using assms(2) by (simp add: round_ok_def)
  let ?a = "api_turn i s" and ?c = "conn_turn lib i s"
  note a = api_turn_inv [OF assms(1) m] api_turn_rank [OF assms(1) m]
  note c = conn_turn_inv [OF assms, of lib]
  show "api_inv (api_round lib i s)"
    using conn_turn_inv [OF a(1) assms(2), of lib] api_turn_inv [of ?c i] c m by (simp add: api_round_def)
  assume "\<not> api_done s"
  then have conn: "os_conn (fst s)" by (simp add: api_done_def)
  show "api_rank (api_round lib i s) < api_rank s"
  proof (cases "waiting (fst (snd s))")
    case True
    then have "?c = s" using conn_turn_waiting [of "fst (snd s)" lib i "fst s" "snd (snd s)"] by simp
    with True conn a(2) conn_turn_inv [OF a(1) assms(2), of lib] show ?thesis
      by (auto simp: api_round_def)
  next
    case False
    obtain o2 c' a' where t: "api_turn i s = (o2, c', a')" by (metis prod_cases3)
    have "\<not> waiting c'" "os_conn o2"
      using False conn api_turn_frame [of i "fst s" "fst (snd s)" "snd (snd s)" o2 c' a'] t waiting_frame
      by auto
    then have "api_rank (conn_turn lib i ?a) < api_rank ?a"
      using conn_turn_inv [OF a(1) assms(2), of lib] t by simp
    moreover have "api_rank (api_turn i ?c) \<le> api_rank ?c" "api_rank ?c < api_rank s"
      using c False conn api_turn_rank [of ?c i] m by blast+
    ultimately show ?thesis using a(2) by (auto simp: api_round_def)
  qed
qed

interpretation api_task:
  settling_task "api_round lib" round_ok api_inv api_done api_rank for lib
  by unfold_locales (auto intro: api_round_step)

text \<open>C1: Every connection to the API comes to an end: from a new connection, among any 58 rounds with
  memory - whatever the client sends, whatever the request, the files, the databases and the
  optimizer do, and in whatever order the tasks run in each round - there is one after which the
  connection is closed and disposed and the instance has told the server that it is finished.\<close>

theorem api_connection_ends:
  assumes "length inputs = 58" and "\<forall>i \<in> set inputs. round_ok i"
  shows "\<exists>n \<le> 57. api_done (run_task (api_round lib) (take n inputs) (api_start a))"
proof -
  have "api_inv (api_start a)" and "api_rank (api_start a) = 57"
    by (simp_all add: api_start_def api_inv_def api_rank_def osi_init_def conn_rank_def retries_ok_def
        waiting_def http_server_connection_init_def)
  with api_task.settles [of "api_start a" inputs lib] assms show ?thesis by simp
qed

section \<open>The response that the client gets\<close>

text \<open>A request that was just handed over.\<close>

definition handed_over :: "api_sys \<Rightarrow> bool" where
  "handed_over s = (case s of (o1, c, a) \<Rightarrow> os_state o1 = OPTI_INSTANCE_INITIALIZING \<and> os_task o1 \<and> os_conn o1 \<and>
     waiting c)"

definition routed :: "http_request \<Rightarrow> endpoint option" where
  "routed req = (case req_path req of None \<Rightarrow> None
                 | Some p \<Rightarrow> find_endpoint (req_method req) (cstr p) Endpoints)"

text \<open>What goes over the wire for a connection with a response: the response itself, but a generic
  message for the statuses 400 and 500.\<close>

definition wire :: "http_lib \<Rightarrow> http_conn \<Rightarrow> string" where
  "wire lib c =
     (if full_response (response c) \<noteq> None \<and> resp_status (response c) \<notin> {400, 500}
      then cstr (the (full_response (response c)))
      else let n = resp_status (response c); reason = reason_phrase lib n
           in snprintf_trunc 512 (http_message n reason ''application/text'' reason))"

text \<open>The stages after the response is set: the connection waits, responds, disposes, is gone.\<close>

definition stage :: "http_lib \<Rightarrow> http_conn \<Rightarrow> api \<Rightarrow> nat \<Rightarrow> api_sys \<Rightarrow> bool" where
  "stage lib c0 a0 k s = (case s of (o1, c, a) \<Rightarrow>
     a = a0 \<and> os_state o1 \<in> {OPTI_INSTANCE_RESPONSE_SENDING, OPTI_INSTANCE_DISPOSING} \<and>
     (if k = 3 then \<not> os_conn o1 \<and> \<not> os_task o1 \<and>
        events c = events c0 @ [Write (wire lib c0), Disconnect, OnDispose]
      else os_conn o1 \<and>
        c = (if k = 0 then c0 else if k = 1 then c0\<lparr>state := RESPONDING\<rparr>
             else c0\<lparr>state := DISPOSING, events := events c0 @ [Write (wire lib c0)]\<rparr>)))"

lemma stage_api: "stage lib c0 a0 k s \<Longrightarrow> stage lib c0 a0 k (api_turn i s)"
  by (cases s) (auto simp: stage_def api_turn_def osi_taskwork_def split: if_splits)

lemma wire_respond:
  assumes "state c = RESPONDING" and "memory_ok i" and "req_path (request c) \<noteq> Some ''/echo''"
  shows "http_server_connection_taskwork lib i c =
    c\<lparr>events := events c @ [Write (wire lib c)], state := DISPOSING\<rparr>"
  using assms by (auto simp: http_server_connection_taskwork_def worktask_respond_def send_def memory_ok_def
      mem_unlimited_def wire_def Let_def)

lemma wire_same [simp]: "wire lib (c\<lparr>state := x\<rparr>) = wire lib c"
  by (simp add: wire_def)

lemma stage_conn:
  assumes "stage lib c0 a0 k s" and "round_ok i" and "k \<le> 3"
    and c0: "state c0 = WEATHER_HANDOVER" "weather_done c0" "req_path (request c0) \<noteq> Some ''/echo''"
  shows "stage lib c0 a0 (min 3 (k + 1)) (conn_turn lib i s)"
proof -
  obtain o1 c a where s: "s = (o1, c, a)" by (cases s)
  have m: "memory_ok (ri_conn i)" using assms(2) by (simp add: round_ok_def)
  consider "k = 0" | "k = 1" | "k = 2" | "k = 3" using assms(3) by linarith
  then show ?thesis
  proof cases
    case 1
    with assms(1) c0 show ?thesis
      by (simp add: s stage_def conn_turn_def http_server_connection_taskwork_def Let_def)
  next
    case 2
    with assms(1) c0 wire_respond [of "c0\<lparr>state := RESPONDING\<rparr>", OF _ m, of lib] show ?thesis
      by (simp add: s stage_def conn_turn_def Let_def)
  next
    case 3
    with assms(1) c0 show ?thesis
      by (simp add: s stage_def conn_turn_def http_server_connection_taskwork_def Let_def
          osi_on_dispose_def)
  next
    case 4
    with assms(1) show ?thesis by (simp add: s stage_def conn_turn_def)
  qed
qed

lemma stage_round:
  assumes "stage lib c0 a0 k s" and "round_ok i" and "k \<le> 3"
    and "state c0 = WEATHER_HANDOVER" "weather_done c0" "req_path (request c0) \<noteq> Some ''/echo''"
  shows "stage lib c0 a0 (min 3 (k + 1)) (api_round lib i s)"
proof (cases "ri_api_first i")
  case True
  then show ?thesis
    using stage_conn [OF stage_api [OF assms(1)] assms(2-6)] by (simp only: api_round_def if_True)
next
  case False
  then show ?thesis
    using stage_api [OF stage_conn [OF assms]] by (simp only: api_round_def if_False)
qed

text \<open>C2: What the client gets: when a valid request has been handed over, then six rounds with memory
  later, in whatever order the tasks run in each of them, exactly one response was written and the
  connection is closed. It is the response that the routed endpoint built in the third round - or
  404 without a route, or 500 for an endpoint that failed - in the form of the wire, and the state
  of the API is that after the one call of this endpoint.\<close>

theorem api_request_answered:
  assumes s: "handed_over (o1, c, a)" and path: "req_path (request c) \<noteq> Some ''/echo''"
    and rounds: "rounds = [i1, i2, i3, i4, i5, i6]" "\<forall>i \<in> set rounds. round_ok i"
  shows "let (c', a') = worktask_response_build (ri_env i3) (routed (request c)) (c, a);
             (o2, c2, a2) = run_task (api_round lib) rounds (o1, c, a)
    in events c2 = events c @ [Write (wire lib c'), Disconnect, OnDispose] \<and> a2 = a' \<and> \<not> os_conn o2"
proof -
  have ok: "round_ok i1" "round_ok i2" "round_ok i3" "round_ok i4" "round_ok i5" "round_ok i6"
    using rounds by simp_all
  have o1: "os_state o1 = OPTI_INSTANCE_INITIALIZING" "os_task o1" "os_conn o1" and w: "waiting c"
    using s by (simp_all add: handed_over_def)
  let ?oa = "o1\<lparr>os_state := OPTI_INSTANCE_REQUEST_PARSING\<rparr>"
  let ?ob = "?oa\<lparr>os_endpoint := routed (request c), os_state := OPTI_INSTANCE_RESPONSE_BUILDING\<rparr>"
  let ?oc = "?ob\<lparr>os_state := OPTI_INSTANCE_RESPONSE_SENDING\<rparr>"
  obtain c' a' where b: "worktask_response_build (ri_env i3) (routed (request c)) (c, a) = (c', a')"
    by fastforce
  have c': "only_response c c'" "weather_done c'"
    using build_frame [of c "ri_env i3" "routed (request c)" a] ok(3)
      build_answers [of "ri_env i3" "routed (request c)" c a] b
    by (auto simp: round_ok_def answer_def)
  have st: "state c' = WEATHER_HANDOVER" "req_path (request c') \<noteq> Some ''/echo''" "events c' = events c"
    using only_response_frame [OF c'(1)] w path by (auto simp: waiting_def)
  have r1: "api_round lib i1 (o1, c, a) = (?oa, c, a)"
    using o1 w by (simp add: api_round_def conn_turn_waiting api_turn_def osi_taskwork_def)
  have r2: "api_round lib i2 (?oa, c, a) = (?ob, c, a)"
    using o1 w by (simp add: api_round_def conn_turn_waiting api_turn_def osi_taskwork_def
        worktask_request_parse_def routed_def)
  have turn: "api_turn i3 (?ob, c, a) = (?oc, c', a')"
    using o1 b by (simp add: api_turn_def osi_taskwork_def)
  have "stage lib c' a' 0 (?oc, c', a')" using o1 by (simp add: stage_def)
  then have "stage lib c' a' 0 (api_round lib i3 (?ob, c, a)) \<or> stage lib c' a' 1 (api_round lib i3 (?ob, c, a))"
    using stage_conn [of lib c' a' 0 "(?oc, c', a')" i3] turn w ok(3) st c'(2)
    by (simp add: api_round_def conn_turn_waiting)
  then obtain k where k: "k \<le> 1" "stage lib c' a' k (api_round lib i3 (?ob, c, a))" by force
  let ?s3 = "api_round lib i3 (?ob, c, a)"
  note next_stage = stage_round [OF _ _ _ st(1) c'(2) st(2)]
  have "stage lib c' a' (min 3 (k + 1)) (api_round lib i4 ?s3)"
    by (rule next_stage [OF k(2) ok(4)]) (use k(1) in simp)
  from next_stage [OF this ok(5)] next_stage
  have "stage lib c' a' (min 3 (min 3 (k + 1) + 1)) (api_round lib i5 (api_round lib i4 ?s3))" by simp
  from next_stage [OF this ok(6)]
  have "stage lib c' a' (min 3 (min 3 (min 3 (k + 1) + 1) + 1))
      (api_round lib i6 (api_round lib i5 (api_round lib i4 ?s3)))" by simp
  moreover have "min 3 (min 3 (min 3 (k + 1) + 1) + 1) = 3" using k(1) by simp
  ultimately have "stage lib c' a' 3 (run_task (api_round lib) rounds (o1, c, a))"
    by (simp add: rounds(1) r1 r2 numeral_3_eq_3)
  then show ?thesis by (auto simp: b stage_def st(3) Let_def split: prod.splits)
qed

section \<open>Without memory\<close>

lemma build_without_memory:
  assumes "\<And>n. \<not> av_mem E n"
  shows "\<exists>n. fst (worktask_response_build E ep (c, a)) = set_status n c"
proof -
  obtain r where r: "proper E c r" "worktask_response_build E ep (c, a) =
     (if fst r \<noteq> SUCCESS
      then (snd (osi_set_response E 500 ''text/plain'' ''Internal Server Error'' (fst (snd r))), snd (snd r))
      else snd r)" using build_result by blast
  with assms obtain n where "fst r \<noteq> SUCCESS" "fst (snd r) = set_status n c" by (auto simp: proper_def)
  with r(2) assms have "fst (worktask_response_build E ep (c, a)) = set_status 500 (set_status n c)"
    by (simp add: set_response_cases)
  also have "\<dots> = set_status 500 c" by (simp add: set_status_def)
  finally show ?thesis by blast
qed

text \<open>A connection that waits for an instance that has already tried.\<close>

definition abandoned :: "http_conn \<Rightarrow> api_sys \<Rightarrow> bool" where
  "abandoned c0 s = (case s of (o1, c, a) \<Rightarrow> waiting c \<and> events c = events c0 \<and> os_conn o1 \<and>
     os_state o1 \<in> {OPTI_INSTANCE_RESPONSE_SENDING, OPTI_INSTANCE_DISPOSING})"

lemma abandoned_round: "abandoned c0 s \<Longrightarrow> abandoned c0 (api_round lib i s)"
proof -
  assume ab: "abandoned c0 s"
  obtain o1 c a where s: "s = (o1, c, a)" by (cases s)
  from ab have w: "waiting c" by (simp add: s abandoned_def)
  obtain o2 where t: "api_turn i (o1, c, a) = (o2, c, a)" "os_conn o2 = os_conn o1"
      "os_state o2 \<in> {OPTI_INSTANCE_RESPONSE_SENDING, OPTI_INSTANCE_DISPOSING}"
    using ab by (cases "os_task o1") (auto simp: s abandoned_def api_turn_def osi_taskwork_def)
  with ab w show ?thesis
    by (simp add: s api_round_def conn_turn_waiting abandoned_def)
qed

text \<open>A response needs memory, and is tried once: if no memory is available in the one round in which
  the instance builds the response, neither the response nor the 500 in its place is set, and the
  client waits for ever: whatever happens later, the connection stays in its waiting state, nothing
  is written and nothing is disposed.\<close>

theorem response_without_memory_hangs:
  assumes s: "handed_over (o1, c, a)" and mem: "\<And>n. \<not> av_mem (ri_env i3) n"
  shows "let (o2, c2, a2) = run_task (api_round lib) ([i1, i2, i3] @ rounds) (o1, c, a)
    in state c2 = WEATHER_HANDOVER \<and> \<not> weather_done c2 \<and> events c2 = events c \<and> os_conn o2"
proof -
  have o1: "os_state o1 = OPTI_INSTANCE_INITIALIZING" "os_task o1" "os_conn o1" and w: "waiting c"
    using s by (simp_all add: handed_over_def)
  let ?ob = "o1\<lparr>os_state := OPTI_INSTANCE_RESPONSE_BUILDING, os_endpoint := routed (request c)\<rparr>"
  have r1: "api_round lib i1 (o1, c, a) = (o1\<lparr>os_state := OPTI_INSTANCE_REQUEST_PARSING\<rparr>, c, a)"
    using o1 w by (simp add: api_round_def conn_turn_waiting api_turn_def osi_taskwork_def)
  have r2: "api_round lib i2 (o1\<lparr>os_state := OPTI_INSTANCE_REQUEST_PARSING\<rparr>, c, a) = (?ob, c, a)"
    using o1 w by (simp add: api_round_def conn_turn_waiting api_turn_def osi_taskwork_def
        worktask_request_parse_def routed_def)
  obtain n a' where b: "worktask_response_build (ri_env i3) (routed (request c)) (c, a) = (set_status n c, a')"
    using build_without_memory [of "ri_env i3" "routed (request c)" c a] mem by (metis prod.collapse)
  have w': "waiting (set_status n c)" using w by (simp add: waiting_def set_status_def)
  have "abandoned c (api_round lib i3 (?ob, c, a))"
    using o1 w w' b by (simp add: api_round_def conn_turn_waiting api_turn_def osi_taskwork_def
        abandoned_def) (simp add: set_status_def)
  then have "abandoned c (run_task (api_round lib) ([i1, i2, i3] @ rounds) (o1, c, a))"
    by (simp add: run_task_append r1 r2 run_task_invariant [of "abandoned c"] abandoned_round)
  then show ?thesis by (auto simp: abandoned_def waiting_def Let_def split: prod.splits)
qed

section \<open>Instances\<close>

definition plain_round :: "bool \<Rightarrow> tree round_input" where
  "plain_round first = \<lparr>ri_conn = quiet_round, ri_env = plain_env, ri_task_ok = True, ri_api_first = first\<rparr>"

lemma plain_round_ok [simp]: "round_ok (plain_round first)" "ri_env (plain_round first) = plain_env"
  by (simp_all add: round_ok_def plain_round_def memory_ok_def quiet_round_def)

theorem api_connection_ends_witness:
  "\<exists>n. api_done (run_task (api_round small_parser) (take n (replicate 58 (plain_round True))) (api_start plain_api))"
  using api_connection_ends [of "replicate 58 (plain_round True)" small_parser plain_api] by auto

definition asked_instance :: osi where
  "asked_instance = osi_on_request True osi_init"

lemma asked_handed_over: "handed_over (asked_instance, asked m path params body, a)"
  by (simp add: handed_over_def asked_instance_def osi_on_request_def osi_init_def waiting_def)

theorem api_request_answered_witness:
  "\<exists>msg. events (fst (snd (run_task (api_round small_parser)
      [plain_round True, plain_round False, plain_round True, plain_round True, plain_round False, plain_round True]
      (asked_instance, asked HTTP_GET ''/api/v1/nothing'' [] [], plain_api)))) =
    [OnRequest, Write msg, Disconnect, OnDispose]"
proof -
  let ?c = "asked HTTP_GET ''/api/v1/nothing'' [] []"
  let ?rounds = "[plain_round True, plain_round False, plain_round True, plain_round True, plain_round False,
      plain_round True]"
  have "req_path (request ?c) \<noteq> Some ''/echo''" "\<forall>i \<in> set ?rounds. round_ok i" by simp_all
  from api_request_answered [OF asked_handed_over this(1) refl this(2), of plain_api small_parser]
  show ?thesis by (auto simp: Let_def case_prod_beta)
qed

theorem response_without_memory_hangs_witness:
  "state (fst (snd (run_task (api_round small_parser)
      [plain_round True, plain_round True, (plain_round True)\<lparr>ri_env := plain_env\<lparr>av_mem := (\<lambda>n. False)\<rparr>\<rparr>,
       plain_round True, plain_round True]
      (asked_instance, asked HTTP_GET ''/api/v1/kill'' [] [], plain_api)))) = WEATHER_HANDOVER"
  using response_without_memory_hangs [OF asked_handed_over,
      of "(plain_round True)\<lparr>ri_env := plain_env\<lparr>av_mem := (\<lambda>n. False)\<rparr>\<rparr>" small_parser
        "plain_round True" "plain_round True" "[plain_round True, plain_round True]"
        HTTP_GET "''/api/v1/kill''" "[]" "[]" plain_api]
  by (auto simp: Let_def case_prod_beta)

end
