(* ===== verification/Spot_Source.thy ===== *)
theory Spot_Source
  imports Documents Cache_Integrity "HOL-Library.Monad_Syntax"
begin

text \<open>
  Where the spot prices come from: the client of the price service (\<open>optimizer/src/elprisjustnu.c\<close>) and
  the handler that fills the cache database from it (\<open>optimizer/src/electricity_cache_handler.c\<close>). The
  HTTP client, cJSON, the calendar and the parser of time stamps are parameters. A value \<open>None\<close> of the
  outer \<open>option\<close> is an execution without defined behaviour: the use of a reply that was never set, or
  the division by a count of 0. The theorems say what an update does to the map of prices that the
  cache means and when it goes wrong.
\<close>

section \<open>The price service\<close>

record epjn_price =
  ep_time_start :: int
  ep_time_end :: int
  ep_sek :: flt
  ep_eur :: flt
  ep_exr :: flt

record epjn_spots =
  en_prices :: "epjn_price list"
  en_price_class :: spot_price_class

definition epjn_init :: epjn_spots where
  "epjn_init = \<lparr>en_prices = [], en_price_class = SE1\<rparr>"

text \<open>\<open>se_http\<close> is the data that \<open>http_blocking_get\<close> leaves in its argument, \<open>None\<close> when it sets none; its
  result is only logged. \<open>se_gmtime\<close> gives year, month and day; \<open>se_epoch\<close> is
  \<open>parse_iso_full_datetime_string_to_epoch\<close>. \<open>se_today\<close> is \<open>epoch_now_day\<close> and \<open>se_from_hour\<close> is
  \<open>time_is_at_or_after_hour\<close>. The last three are the calls of the database.\<close>

record 'j spot_env =
  se_http :: "string \<Rightarrow> string option"
  se_mem :: allocator
  se_gmtime :: "int \<Rightarrow> int \<times> int \<times> int"
  se_json :: "'j json_tree"
  se_epoch :: "string \<Rightarrow> int"
  se_today :: int
  se_from_hour :: "int \<Rightarrow> bool"
  se_read :: cache_env
  se_insert :: cache_env
  se_reread :: cache_env

definition epjn_url_len :: nat where
  "epjn_url_len = 128"

definition epjn_url :: "int \<times> int \<times> int \<Rightarrow> spot_price_class \<Rightarrow> string" where
  "epjn_url date pc = (case date of (year, month, day) \<Rightarrow> snprintf_trunc epjn_url_len
     (''https://www.elprisetjustnu.se/api/v1/prices/'' @ pad0 4 (dec_int year) @ ''/'' @
      pad0 2 (dec_int month) @ ''-'' @ pad0 2 (dec_int day) @ ''_SE'' @
      dec_int (price_class_int pc + 1) @ ''.json''))"

text \<open>A copy of the reply with a NUL behind it; the inner \<open>None\<close> is NULL.\<close>

definition epjn_get_response_json ::
  "(string \<Rightarrow> string option) \<Rightarrow> allocator \<Rightarrow> string \<Rightarrow> string option option" where
  "epjn_get_response_json http alloc url = do {
     reply \<leftarrow> http url;
     Some (if alloc (length reply + 1) then Some reply else None)
   }"

text \<open>One item of the array, and the loop, which stops at the first item that is wrong.\<close>

definition epjn_item :: "'j json_tree \<Rightarrow> (string \<Rightarrow> int) \<Rightarrow> 'j \<Rightarrow> epjn_price result" where
  "epjn_item J epoch item =
     (if \<not> jt_is_object J item then Inl ERR_JSON_OBJ_NOT_FOUND
      else case (jt_text J item ''time_start'', jt_text J item ''time_end'') of
        (Some s, Some e) \<Rightarrow>
          (if epoch s = - 1 \<or> epoch e = - 1 then Inl ERR_JSON_PARSE
           else Inr \<lparr>ep_time_start = epoch s, ep_time_end = epoch e, ep_sek = jt_double J item ''SEK_per_kWh'',
                     ep_eur = jt_double J item ''EUR_per_kWh'', ep_exr = jt_double J item ''EXR''\<rparr>)
      | _ \<Rightarrow> Inl ERR_NO_MEMORY)"

fun epjn_items :: "'j json_tree \<Rightarrow> (string \<Rightarrow> int) \<Rightarrow> 'j list \<Rightarrow> epjn_price list result" where
  "epjn_items J epoch [] = Inr []"
| "epjn_items J epoch (item # rest) =
     (case epjn_item J epoch item of
        Inl e \<Rightarrow> Inl e
      | Inr p \<Rightarrow> (case epjn_items J epoch rest of Inl e \<Rightarrow> Inl e | Inr ps \<Rightarrow> Inr (p # ps)))"

definition sizeof_epjn_price :: nat where
  "sizeof_epjn_price = 32"

text \<open>After a failure the struct is only disposed of.\<close>

definition epjn_update ::
  "'j spot_env \<Rightarrow> spot_price_class \<Rightarrow> int \<Rightarrow> epjn_spots result option" where
  "epjn_update E pc date = do {
     json \<leftarrow> epjn_get_response_json (se_http E) (se_mem E) (epjn_url (se_gmtime E date) pc);
     Some (case json of
       None \<Rightarrow> Inl ERR_INTERNAL
     | Some text \<Rightarrow>
         (case cj_parse (se_json E) (cstr text) of
            None \<Rightarrow> Inl ERR_JSON_PARSE
          | Some jroot \<Rightarrow>
              (let items = jt_items (se_json E) jroot
               in if \<not> se_mem E (length items * sizeof_epjn_price) then Inl ERR_NO_MEMORY
                  else case epjn_items (se_json E) (se_epoch E) items of
                    Inl e \<Rightarrow> Inl e
                  | Inr ps \<Rightarrow> Inr \<lparr>en_prices = ps, en_price_class = pc\<rparr>)))
   }"

fun epjn_price_in :: "spot_currency \<Rightarrow> epjn_price \<Rightarrow> flt" where
  "epjn_price_in SPOT_SEK p = ep_sek p"
| "epjn_price_in SPOT_EUR p = ep_eur p"

text \<open>The interval is 1440 minutes divided by the number of prices, which may be 0.\<close>

definition epjn_parse ::
  "allocator \<Rightarrow> epjn_spots \<Rightarrow> spot_currency \<Rightarrow> electricity_spots \<Rightarrow> electricity_spots result option" where
  "epjn_parse alloc P currency S =
     (let n = length (en_prices P)
      in if \<not> alloc (n * sizeof_spot_price) then Some (Inl ERR_NO_MEMORY)
         else if n = 0 then None
         else Some (Inr (S\<lparr>es_currency := currency, es_interval := 1440 div n,
                es_prices := map (\<lambda>p. \<lparr>sp_time_start = ep_time_start p, sp_time_end = ep_time_end p,
                                       sp_price = epjn_price_in currency p\<rparr>) (en_prices P)\<rparr>)))"

section \<open>The cache handler\<close>

definition ech_get_spots_range ::
  "cache_env \<Rightarrow> string option \<Rightarrow> electricity_spots \<Rightarrow> spot_price_class \<Rightarrow> spot_currency \<Rightarrow> int \<Rightarrow> int
   \<Rightarrow> sql_helper \<Rightarrow> status \<times> electricity_spots" where
  "ech_get_spots_range e spots_dir out cl cu t0 t1 h =
     (if spots_dir = None then (ERR_INVALID_ARG, out)
      else case sql_helper_read_spots e out cl cu t0 t1 h of
        (res, S) \<Rightarrow> if res \<noteq> SUCCESS then (res, S)
                    else if es_prices S = [] then (ERR_NOT_FOUND, S) else (SUCCESS, S))"

record ech =
  eh_spot :: electricity_spots
  eh_epjn :: epjn_spots
  eh_data_dir :: "string option"
  eh_price_class :: spot_price_class
  eh_currency :: spot_currency

text \<open>Creating the directory has no part in the model: nothing is stored there any more.\<close>

definition ech_init :: "string option \<Rightarrow> spot_price_class \<Rightarrow> spot_currency \<Rightarrow> ech" where
  "ech_init data_dir pc currency = \<lparr>eh_spot = no_spots, eh_epjn = epjn_init, eh_data_dir = data_dir,
     eh_price_class = pc, eh_currency = currency\<rparr>"

text \<open>The day whose prices are wanted: from 13 o'clock that of tomorrow.\<close>

definition target_day :: "'j spot_env \<Rightarrow> int" where
  "target_day E = (if se_from_hour E 13 then se_today E + 86400 else se_today E)"

definition day_start :: "'j spot_env \<Rightarrow> int" where
  "day_start E = target_day E - 3600"

text \<open>Without prices in the cache: the request, the insert, and the read of what is there now.\<close>

definition ech_fetch ::
  "'j spot_env \<Rightarrow> ech \<Rightarrow> electricity_spots \<Rightarrow> sql_helper \<Rightarrow> (status \<times> ech \<times> sql_helper) option" where
  "ech_fetch E H S1 h = do {
     fetched \<leftarrow> epjn_update E (es_price_class S1) (target_day E);
     case fetched of
       Inl e \<Rightarrow> Some (e, H\<lparr>eh_spot := S1, eh_epjn := epjn_init\<rparr>, h)
     | Inr P \<Rightarrow> do {
         parsed \<leftarrow> epjn_parse (se_mem E) P (eh_currency H) S1;
         case parsed of
           Inl e \<Rightarrow> Some (e, H\<lparr>eh_spot := S1, eh_epjn := P\<rparr>, h)
         | Inr S2 \<Rightarrow>
             (case sql_helper_insert_spots (se_insert E) False S2 h of
                (res, h2) \<Rightarrow>
                  if res \<noteq> SUCCESS then Some (res, H\<lparr>eh_spot := S2, eh_epjn := P\<rparr>, h2)
                  else (case sql_helper_read_spots (se_reread E) S2 (eh_price_class H) (eh_currency H)
                               (day_start E) (day_start E + 86400) h2 of
                          (res3, S3) \<Rightarrow> Some (res3, H\<lparr>eh_spot := S3, eh_epjn := P\<rparr>, h2)))
       }
   }"

definition ech_update_cache ::
  "'j spot_env \<Rightarrow> ech \<Rightarrow> sql_helper \<Rightarrow> (status \<times> ech \<times> sql_helper) option" where
  "ech_update_cache E H h =
     (case sql_helper_read_spots (se_read E)
             ((eh_spot H)\<lparr>es_price_class := eh_price_class H, es_currency := eh_currency H\<rparr>)
             (eh_price_class H) (eh_currency H) (day_start E) (day_start E + 86400) h of
        (res, S1) \<Rightarrow>
          if res \<noteq> SUCCESS then Some (res, H\<lparr>eh_spot := S1\<rparr>, h)
          else if es_prices S1 \<noteq> [] then Some (SUCCESS, H\<lparr>eh_spot := S1\<rparr>, h)
          else ech_fetch E H S1 h)"

section \<open>What an update does\<close>

text \<open>The prices that the service gave, as the cache stores them.\<close>

definition fetched_prices :: "spot_currency \<Rightarrow> epjn_spots \<Rightarrow> spot_price list" where
  "fetched_prices cu P = map (\<lambda>p. \<lparr>sp_time_start = ep_time_start p, sp_time_end = ep_time_end p,
     sp_price = epjn_price_in cu p\<rparr>) (en_prices P)"

definition in_target :: "'j spot_env \<Rightarrow> int \<Rightarrow> bool" where
  "in_target E time \<longleftrightarrow> day_start E \<le> time \<and> time < day_start E + 86400"

definition cached_day :: "'j spot_env \<Rightarrow> cache_tables \<Rightarrow> spot_price_class \<Rightarrow> spot_currency \<Rightarrow> bool" where
  "cached_day E t cl cu \<longleftrightarrow> select_spots cl cu (day_start E) (day_start E + 86400) t \<noteq> []"

lemma read_spots_rows:
  assumes "calls_ok e"
  shows "sql_helper_read_spots e out cl cu t0 t1 \<lparr>sh_db = Some (sql_rest t), sh_locked = l\<rparr> =
    (SUCCESS, out\<lparr>es_prices := select_spots cl cu t0 t1 t, es_price_class := cl, es_currency := cu\<rparr>)"
  using assms by (simp add: sql_helper_read_spots_def calls_ok_def delivered_def read_rows_ok tx_simps)

lemma select_spots_map:
  assumes "keys_distinct spot_key (ct_spots t)"
  shows "sorted_wrt (<) (map sp_time_start (select_spots cl cu t0 t1 t))"
    and "p \<in> set (select_spots cl cu t0 t1 t) \<longleftrightarrow> t0 \<le> sp_time_start p \<and> sp_time_start p < t1 \<and>
       spot_map t cl cu (sp_time_start p) = Some p"
proof -
  have ok: "calls_ok \<lparr>ce_prepare = True, ce_facility = True, ce_select = True, ce_begin = True,
      ce_step = (\<lambda>i. True), ce_undone = False, ce_commit = True, ce_prune = (\<lambda>i. True), ce_rows = None,
      ce_mem = (\<lambda>n. True), ce_now = 0\<rparr>" (is "calls_ok ?e") by (simp add: calls_ok_def)
  from read_spots_map [OF ok assms, of no_spots cl cu t0 t1 False]
  show "sorted_wrt (<) (map sp_time_start (select_spots cl cu t0 t1 t))"
    and "p \<in> set (select_spots cl cu t0 t1 t) \<longleftrightarrow> t0 \<le> sp_time_start p \<and> sp_time_start p < t1 \<and>
       spot_map t cl cu (sp_time_start p) = Some p"
    unfolding read_spots_rows [OF ok] by (auto simp: no_spots_def)
qed

lemma cached_day_map:
  assumes "keys_distinct spot_key (ct_spots t)"
  shows "cached_day E t cl cu \<longleftrightarrow> (\<exists>time. in_target E time \<and> spot_map t cl cu time \<noteq> None)"
proof -
  have start: "sp_time_start p = time" if "spot_map t cl cu time = Some p" for p time
    using that by (auto simp: spot_map_def spot_key_def dest!: row_at_SomeD)
  have "cached_day E t cl cu \<longleftrightarrow> (\<exists>p. p \<in> set (select_spots cl cu (day_start E) (day_start E + 86400) t))"
    by (simp add: cached_day_def ex_in_conv)
  then have "cached_day E t cl cu \<longleftrightarrow>
      (\<exists>p. in_target E (sp_time_start p) \<and> spot_map t cl cu (sp_time_start p) = Some p)"
    unfolding select_spots_map(2) [OF assms] in_target_def by blast
  also have "\<dots> \<longleftrightarrow> (\<exists>time. in_target E time \<and> spot_map t cl cu time \<noteq> None)" (is "?L \<longleftrightarrow> ?R")
  proof
    assume ?L then show ?R by force
  next
    assume ?R
    then obtain time p where "in_target E time" and p: "spot_map t cl cu time = Some p" by blast
    with start [OF p] show ?L by blast
  qed
  finally show ?thesis .
qed

text \<open>The update, with the read of the cache resolved.\<close>

lemma update_cached:
  assumes "calls_ok (se_read E)" and "cached_day E t (eh_price_class H) (eh_currency H)"
  shows "\<exists>S. ech_update_cache E H \<lparr>sh_db = Some (sql_rest t), sh_locked = l\<rparr> =
      Some (SUCCESS, H\<lparr>eh_spot := S\<rparr>, \<lparr>sh_db = Some (sql_rest t), sh_locked = l\<rparr>) \<and>
    es_prices S = select_spots (eh_price_class H) (eh_currency H) (day_start E) (day_start E + 86400) t"
  using assms by (auto simp: ech_update_cache_def read_spots_rows cached_day_def)

text \<open>What the struct holds after the read of an empty day.\<close>

definition empty_day :: "ech \<Rightarrow> electricity_spots" where
  "empty_day H = (eh_spot H)\<lparr>es_prices := [], es_price_class := eh_price_class H, es_currency := eh_currency H\<rparr>"

lemma update_missing:
  assumes "calls_ok (se_read E)" and "\<not> cached_day E t (eh_price_class H) (eh_currency H)"
  shows "ech_update_cache E H \<lparr>sh_db = Some (sql_rest t), sh_locked = l\<rparr> =
    ech_fetch E H (empty_day H) \<lparr>sh_db = Some (sql_rest t), sh_locked = l\<rparr>"
  using assms by (simp add: ech_update_cache_def read_spots_rows cached_day_def empty_day_def)

lemma fetch_filled:
  assumes "calls_ok (se_insert E)" and "calls_ok (se_reread E)" and "\<forall>n. se_mem E n"
    and "keys_distinct spot_key (ct_spots t)"
    and "epjn_update E (eh_price_class H) (target_day E) = Some (Inr P)" and "en_prices P \<noteq> []"
  shows "\<exists>H' t'. ech_fetch E H (empty_day H) \<lparr>sh_db = Some (sql_rest t), sh_locked = l\<rparr> =
      Some (SUCCESS, H', \<lparr>sh_db = Some (sql_rest t'), sh_locked = l\<rparr>) \<and>
    keys_distinct spot_key (ct_spots t') \<and>
    es_prices (eh_spot H') =
      select_spots (eh_price_class H) (eh_currency H) (day_start E) (day_start E + 86400) t' \<and>
    (\<forall>cl cu time. spot_map t' cl cu time =
       (if time < ce_now (se_insert E) - 30 * 86400 then None
        else if cl = eh_price_class H \<and> cu = eh_currency H
        then (case row_at sp_time_start (rev (fetched_prices cu P)) time of
                Some p \<Rightarrow> Some p | None \<Rightarrow> spot_map t cl cu time)
        else spot_map t cl cu time))"
proof -
  define S2 where "S2 = (empty_day H)\<lparr>es_currency := eh_currency H,
    es_interval := 1440 div length (en_prices P), es_prices := fetched_prices (eh_currency H) P\<rparr>"
  have S2: "es_price_class S2 = eh_price_class H" "es_currency S2 = eh_currency H"
    "es_prices S2 = fetched_prices (eh_currency H) P" by (simp_all add: S2_def empty_day_def)
  have parsed: "epjn_parse (se_mem E) P (eh_currency H) (empty_day H) = Some (Inr S2)"
    using assms(3,6) by (simp add: epjn_parse_def S2_def fetched_prices_def Let_def)
  obtain t' where t': "sql_helper_insert_spots (se_insert E) False S2
      \<lparr>sh_db = Some (sql_rest t), sh_locked = l\<rparr> = (SUCCESS, \<lparr>sh_db = Some (sql_rest t'), sh_locked = l\<rparr>)"
    and keys: "keys_distinct spot_key (ct_spots t')"
    and m: "\<forall>cl cu time. spot_map t' cl cu time =
       (if time < ce_now (se_insert E) - 30 * 86400 then None
        else if cl = eh_price_class H \<and> cu = eh_currency H
        then (case row_at sp_time_start (rev (fetched_prices cu P)) time of
                Some p \<Rightarrow> Some p | None \<Rightarrow> spot_map t cl cu time)
        else spot_map t cl cu time)"
    using insert_spots_filled [OF assms(1,4), of S2 l] unfolding S2 by (metis (no_types, lifting))
  have "es_price_class (empty_day H) = eh_price_class H" by (simp add: empty_day_def)
  then have "\<exists>S3. ech_fetch E H (empty_day H) \<lparr>sh_db = Some (sql_rest t), sh_locked = l\<rparr> =
      Some (SUCCESS, H\<lparr>eh_spot := S3, eh_epjn := P\<rparr>, \<lparr>sh_db = Some (sql_rest t'), sh_locked = l\<rparr>) \<and>
    es_prices S3 = select_spots (eh_price_class H) (eh_currency H) (day_start E) (day_start E + 86400) t'"
    by (intro exI [of _ "S2\<lparr>es_prices := select_spots (eh_price_class H) (eh_currency H) (day_start E)
          (day_start E + 86400) t', es_price_class := eh_price_class H, es_currency := eh_currency H\<rparr>"])
      (simp add: ech_fetch_def assms(5) parsed t' read_spots_rows [OF assms(2)])
  then obtain S3 where S3: "ech_fetch E H (empty_day H) \<lparr>sh_db = Some (sql_rest t), sh_locked = l\<rparr> =
      Some (SUCCESS, H\<lparr>eh_spot := S3, eh_epjn := P\<rparr>, \<lparr>sh_db = Some (sql_rest t'), sh_locked = l\<rparr>)"
    "es_prices S3 = select_spots (eh_price_class H) (eh_currency H) (day_start E) (day_start E + 86400) t'"
    by blast
  have "es_prices (eh_spot (H\<lparr>eh_spot := S3, eh_epjn := P\<rparr>)) =
      select_spots (eh_price_class H) (eh_currency H) (day_start E) (day_start E + 86400) t'"
    by (simp add: S3(2))
  with S3(1) m keys show ?thesis by blast
qed

text \<open>C6: What an update leaves behind. If the cache has a price of the wanted day it changes nothing.
  Otherwise the map of prices in the cache is updated by what the service gives, in the class and
  currency of the handler only, and loses what is older than 30 days. In both cases the handler ends
  up with exactly the prices the cache then has for the day, once each and in the order of time.\<close>

theorem spot_update_fills:
  assumes "calls_ok (se_read E)" and "calls_ok (se_insert E)" and "calls_ok (se_reread E)"
    and "\<forall>n. se_mem E n" and "keys_distinct spot_key (ct_spots t)"
    and "epjn_update E (eh_price_class H) (target_day E) = Some (Inr P)" and "en_prices P \<noteq> []"
  shows "\<exists>H' t'. ech_update_cache E H \<lparr>sh_db = Some (sql_rest t), sh_locked = l\<rparr> =
      Some (SUCCESS, H', \<lparr>sh_db = Some (sql_rest t'), sh_locked = l\<rparr>) \<and>
    (\<forall>cl cu time. spot_map t' cl cu time =
       (if \<exists>d. in_target E d \<and> spot_map t (eh_price_class H) (eh_currency H) d \<noteq> None
        then spot_map t cl cu time
        else if time < ce_now (se_insert E) - 30 * 86400 then None
        else if cl = eh_price_class H \<and> cu = eh_currency H
        then (case row_at sp_time_start (rev (fetched_prices cu P)) time of
                Some p \<Rightarrow> Some p | None \<Rightarrow> spot_map t cl cu time)
        else spot_map t cl cu time)) \<and>
    sorted_wrt (<) (map sp_time_start (es_prices (eh_spot H'))) \<and>
    (\<forall>p. p \<in> set (es_prices (eh_spot H')) \<longleftrightarrow> in_target E (sp_time_start p) \<and>
       spot_map t' (eh_price_class H) (eh_currency H) (sp_time_start p) = Some p)"
proof (cases "cached_day E t (eh_price_class H) (eh_currency H)")
  case True
  then have hit: "\<exists>d. in_target E d \<and> spot_map t (eh_price_class H) (eh_currency H) d \<noteq> None"
    using cached_day_map [OF assms(5)] by blast
  from update_cached [OF assms(1) True, of l] obtain S where
    "ech_update_cache E H \<lparr>sh_db = Some (sql_rest t), sh_locked = l\<rparr> =
      Some (SUCCESS, H\<lparr>eh_spot := S\<rparr>, \<lparr>sh_db = Some (sql_rest t), sh_locked = l\<rparr>)"
    "es_prices S = select_spots (eh_price_class H) (eh_currency H) (day_start E) (day_start E + 86400) t"
    by blast
  with hit select_spots_map [OF assms(5)] show ?thesis
    by (intro exI [of _ "H\<lparr>eh_spot := S\<rparr>"] exI [of _ t]) (simp add: in_target_def)
next
  case False
  then have miss: "(\<exists>d. in_target E d \<and> spot_map t (eh_price_class H) (eh_currency H) d \<noteq> None) = False"
    using cached_day_map [OF assms(5)] by blast
  from fetch_filled [OF assms(2,3,4,5,6,7), of l] obtain H' t' where
    *: "ech_fetch E H (empty_day H) \<lparr>sh_db = Some (sql_rest t), sh_locked = l\<rparr> =
      Some (SUCCESS, H', \<lparr>sh_db = Some (sql_rest t'), sh_locked = l\<rparr>)"
    "keys_distinct spot_key (ct_spots t')"
    "es_prices (eh_spot H') =
      select_spots (eh_price_class H) (eh_currency H) (day_start E) (day_start E + 86400) t'"
    "\<forall>cl cu time. spot_map t' cl cu time =
       (if time < ce_now (se_insert E) - 30 * 86400 then None
        else if cl = eh_price_class H \<and> cu = eh_currency H
        then (case row_at sp_time_start (rev (fetched_prices cu P)) time of
                Some p \<Rightarrow> Some p | None \<Rightarrow> spot_map t cl cu time)
        else spot_map t cl cu time)" by blast
  then show ?thesis
    unfolding miss if_False update_missing [OF assms(1) False]
    using select_spots_map [OF *(2)] by (intro exI conjI) (assumption | simp add: in_target_def *(3))+
qed

text \<open>An update has no defined outcome in exactly two cases, both without a price of the day in the
  cache: the HTTP client delivers no data, so that the code copies from a struct it never set, or the
  reply is JSON without elements, so that the number of minutes is divided by 0.\<close>

theorem spot_update_undefined:
  assumes "calls_ok (se_read E)" and "\<forall>n. se_mem E n"
  shows "ech_update_cache E H \<lparr>sh_db = Some (sql_rest t), sh_locked = l\<rparr> = None \<longleftrightarrow>
    \<not> cached_day E t (eh_price_class H) (eh_currency H) \<and>
    (case se_http E (epjn_url (se_gmtime E (target_day E)) (eh_price_class H)) of
       None \<Rightarrow> True
     | Some reply \<Rightarrow> (case cj_parse (se_json E) (cstr reply) of
                        None \<Rightarrow> False | Some j \<Rightarrow> jt_items (se_json E) j = []))"
proof (cases "cached_day E t (eh_price_class H) (eh_currency H)")
  case True
  with update_cached [OF assms(1) True, of l] show ?thesis by auto
next
  case False
  have none: "epjn_items J epoch js = Inr [] \<longleftrightarrow> js = []" for J epoch and js :: "'a list"
    by (cases js) (auto split: sum.split)
  have cl: "es_price_class (empty_day H) = eh_price_class H" by (simp add: empty_day_def)
  show ?thesis
  proof (cases "se_http E (epjn_url (se_gmtime E (target_day E)) (eh_price_class H))")
    case None
    with False show ?thesis
      unfolding update_missing [OF assms(1) False]
      by (simp add: ech_fetch_def epjn_update_def epjn_get_response_json_def cl)
  next
    case (Some reply)
    show ?thesis
    proof (cases "cj_parse (se_json E) (cstr reply)")
      case None
      with False Some assms(2) show ?thesis
        unfolding update_missing [OF assms(1) False]
        by (simp add: ech_fetch_def epjn_update_def epjn_get_response_json_def cl)
    next
      case (Some j)
      show ?thesis
      proof (cases "epjn_items (se_json E) (se_epoch E) (jt_items (se_json E) j)")
        case (Inl e)
        then have "jt_items (se_json E) j \<noteq> []" by auto
        with Inl False Some \<open>se_http E _ = Some reply\<close> assms(2) show ?thesis
          unfolding update_missing [OF assms(1) False]
          by (simp add: ech_fetch_def epjn_update_def epjn_get_response_json_def cl Let_def)
      next
        case (Inr ps)
        then have "ps = [] \<longleftrightarrow> jt_items (se_json E) j = []"
          using none [of "se_json E" "se_epoch E" "jt_items (se_json E) j"] by auto
        with Inr False Some \<open>se_http E _ = Some reply\<close> assms(2) show ?thesis
          unfolding update_missing [OF assms(1) False]
          by (simp add: ech_fetch_def epjn_update_def epjn_get_response_json_def cl Let_def
              epjn_parse_def case_prod_beta)
      qed
    qed
  qed
qed

section \<open>An instance\<close>

text \<open>A library whose trees are documents.\<close>

fun item_texts :: "json_doc \<Rightarrow> (string \<times> string) list" where
  "item_texts (J_obj kvs) = concat (map (\<lambda>(k, v). case v of J_str s \<Rightarrow> [(k, s)] | _ \<Rightarrow> []) kvs)"
| "item_texts _ = []"

fun item_numbers :: "json_doc \<Rightarrow> (string \<times> dbl) list" where
  "item_numbers (J_obj kvs) = concat (map (\<lambda>(k, v). case v of J_num x \<Rightarrow> [(k, x)] | _ \<Rightarrow> []) kvs)"
| "item_numbers _ = []"

definition number_at :: "json_doc \<Rightarrow> string \<Rightarrow> dbl" where
  "number_at j k = (case map_of (item_numbers j) k of None \<Rightarrow> 0 | Some x \<Rightarrow> x)"

definition doc_tree :: "(string \<Rightarrow> json_doc option) \<Rightarrow> json_doc json_tree" where
  "doc_tree p = \<lparr>cj_parse = p,
     cj_get = (\<lambda>j k. case j of J_obj kvs \<Rightarrow> map_of kvs k | _ \<Rightarrow> None),
     cj_number = (\<lambda>j. case j of J_num x \<Rightarrow> Some x | _ \<Rightarrow> None),
     cj_string = (\<lambda>j. case j of J_str s \<Rightarrow> Some s | _ \<Rightarrow> None),
     jt_is_object = (\<lambda>j. case j of J_obj kvs \<Rightarrow> True | _ \<Rightarrow> False),
     jt_is_array = (\<lambda>j. case j of J_list js \<Rightarrow> True | _ \<Rightarrow> False),
     jt_items = (\<lambda>j. case j of J_list js \<Rightarrow> js | J_obj kvs \<Rightarrow> map snd kvs | _ \<Rightarrow> []),
     jt_get_ci = (\<lambda>j k. case j of J_obj kvs \<Rightarrow> map_of kvs k | _ \<Rightarrow> None),
     jt_double = number_at, jt_int = (\<lambda>j k. c_trunc (number_at j k)),
     jt_text = (\<lambda>j k. map_of (item_texts j) k),
     jt_valueint = (\<lambda>j. case j of J_num x \<Rightarrow> c_trunc x | _ \<Rightarrow> 0)\<rparr>"

definition one_price_reply :: json_doc where
  "one_price_reply = J_list [J_obj [(''SEK_per_kWh'', J_num 1), (''EUR_per_kWh'', J_num (1 / 10)),
     (''EXR'', J_num 10), (''time_start'', J_str ''a''), (''time_end'', J_str ''b'')]]"

definition plain_spot_env :: "json_doc \<Rightarrow> json_doc spot_env" where
  "plain_spot_env reply = \<lparr>se_http = (\<lambda>url. Some ''x''), se_mem = mem_unlimited,
     se_gmtime = (\<lambda>t. (2026, 1, 26)), se_json = doc_tree (\<lambda>s. Some reply),
     se_epoch = (\<lambda>s. if s = ''a'' then 864000 else 864900), se_today = 864000,
     se_from_hour = (\<lambda>h. False), se_read = calls_fine 0, se_insert = calls_fine 0,
     se_reread = calls_fine 0\<rparr>"

theorem spot_update_fills_witness:
  "\<exists>H' t'. ech_update_cache (plain_spot_env one_price_reply) (ech_init None SE3 SPOT_SEK)
      \<lparr>sh_db = Some (sql_rest no_tables), sh_locked = False\<rparr> =
      Some (SUCCESS, H', \<lparr>sh_db = Some (sql_rest t'), sh_locked = False\<rparr>) \<and>
    \<lparr>sp_time_start = 864000, sp_time_end = 864900, sp_price = 1\<rparr> \<in> set (es_prices (eh_spot H'))"
proof -
  let ?E = "plain_spot_env one_price_reply" and ?H = "ech_init None SE3 SPOT_SEK"
  let ?P = "\<lparr>en_prices = [\<lparr>ep_time_start = 864000, ep_time_end = 864900, ep_sek = 1, ep_eur = 1 / 10,
    ep_exr = 10\<rparr>], en_price_class = SE3\<rparr>"
  have up: "epjn_update ?E (eh_price_class ?H) (target_day ?E) = Some (Inr ?P)" by code_simp
  have ok: "calls_ok (se_read ?E)" "calls_ok (se_insert ?E)" "calls_ok (se_reread ?E)"
    "\<forall>n. se_mem ?E n" "keys_distinct spot_key (ct_spots no_tables)"
    by (simp_all add: plain_spot_env_def mem_unlimited_def no_tables_def keys_distinct_def)
  from spot_update_fills [OF ok up, of False] obtain H' t' where
    *: "ech_update_cache ?E ?H \<lparr>sh_db = Some (sql_rest no_tables), sh_locked = False\<rparr> =
      Some (SUCCESS, H', \<lparr>sh_db = Some (sql_rest t'), sh_locked = False\<rparr>)"
    and m: "\<And>cl cu time. spot_map t' cl cu time =
       (if \<exists>d. in_target ?E d \<and> spot_map no_tables (eh_price_class ?H) (eh_currency ?H) d \<noteq> None
        then spot_map no_tables cl cu time
        else if time < ce_now (se_insert ?E) - 30 * 86400 then None
        else if cl = eh_price_class ?H \<and> cu = eh_currency ?H
        then (case row_at sp_time_start (rev (fetched_prices cu ?P)) time of
                Some p \<Rightarrow> Some p | None \<Rightarrow> spot_map no_tables cl cu time)
        else spot_map no_tables cl cu time)"
    and s: "\<And>p. p \<in> set (es_prices (eh_spot H')) \<longleftrightarrow> in_target ?E (sp_time_start p) \<and>
       spot_map t' (eh_price_class ?H) (eh_currency ?H) (sp_time_start p) = Some p" by auto
  have "\<lparr>sp_time_start = 864000, sp_time_end = 864900, sp_price = 1\<rparr> \<in> set (es_prices (eh_spot H'))"
    unfolding s unfolding m
    by (simp add: in_target_def day_start_def target_day_def plain_spot_env_def ech_init_def
        fetched_prices_def spot_map_def no_tables_def)
  with * show ?thesis by blast
qed

theorem spot_update_undefined_witness:
  "ech_update_cache (plain_spot_env (J_list [])) (ech_init None SE3 SPOT_SEK)
     \<lparr>sh_db = Some (sql_rest no_tables), sh_locked = False\<rparr> = None"
proof -
  let ?E = "plain_spot_env (J_list [])"
  have ok: "calls_ok (se_read ?E)" "\<forall>n. se_mem ?E n"
    by (simp_all add: plain_spot_env_def mem_unlimited_def)
  have "\<not> cached_day ?E no_tables SE3 SPOT_SEK" by (simp add: cached_day_def select_spots_def no_tables_def)
  with spot_update_undefined [OF ok, of "ech_init None SE3 SPOT_SEK" no_tables False] show ?thesis
    by (simp add: plain_spot_env_def doc_tree_def ech_init_def)
qed

end
