(* ===== verification/Price_Calc.thy ===== *)
theory Price_Calc
  imports Spot_Source
begin

text \<open>
  The price calculations of the optimizer (\<open>optimizer/src/calculations.c\<close>): for every facility a
  quarterly and an hourly table of prices, their deviation from the average and their class, and the
  gain of the solar panel, written as a JSON file and as a text summary. The files and the global
  mutex are the state. A run of the code is \<open>Done\<close> with a result, \<open>Blocks\<close> when it locks a mutex that
  is never unlocked, or \<open>Undefined\<close> when it reads behind the end of an array. The theorems show what
  the tables hold, when the calculation leaves its input, and what a failing summary does to the
  next run.
\<close>

section \<open>Outcomes and numbers\<close>

datatype 'a run = Done 'a | Blocks | Undefined

fun then_run :: "'a run \<Rightarrow> ('a \<Rightarrow> 'b run) \<Rightarrow> 'b run" where
  "then_run (Done x) f = f x"
| "then_run Blocks f = Blocks"
| "then_run Undefined f = Undefined"

text \<open>A quotient: a division by 0 gives an infinity or not-a-number that only depends on the
  dividend.\<close>

datatype quotient = Fin flt | Over_zero flt

definition fdiv :: "flt \<Rightarrow> flt \<Rightarrow> quotient" where
  "fdiv x y = (if y = 0 then Over_zero x else Fin (x / y))"

fun qscale :: "flt \<Rightarrow> quotient \<Rightarrow> quotient" where
  "qscale k (Fin x) = Fin (k * x)"
| "qscale k (Over_zero x) = Over_zero (k * x)"

text \<open>\<open>lroundf\<close>: to the nearest, halves away from 0. The result of a value that is not finite is not
  specified, and is the parameter \<open>junk\<close>.\<close>

definition lroundf :: "flt \<Rightarrow> int" where
  "lroundf x = (if 0 \<le> x then \<lfloor>x + 1 / 2\<rfloor> else - \<lfloor>1 / 2 - x\<rfloor>)"

fun lround_quotient :: "(flt \<Rightarrow> int) \<Rightarrow> quotient \<Rightarrow> int" where
  "lround_quotient junk (Fin x) = lroundf x"
| "lround_quotient junk (Over_zero x) = junk x"

section \<open>Results\<close>

datatype results_interval = DAILY | HOURLY | QUARTERLY

fun interval_num :: "results_interval \<Rightarrow> nat" where
  "interval_num DAILY = 24"
| "interval_num HOURLY = 4"
| "interval_num QUARTERLY = 1"

datatype cheapness = CHEAP | AVERAGE | EXPENSIVE

fun cheapness_int :: "cheapness \<Rightarrow> int" where
  "cheapness_int CHEAP = - 1"
| "cheapness_int AVERAGE = 0"
| "cheapness_int EXPENSIVE = 1"

text \<open>The two arrays of the panel are allocated together or are both NULL.\<close>

record calc_results =
  cr_spot_prices :: "flt list"
  cr_deviation :: "quotient list"
  cr_cheapness :: "cheapness list"
  cr_solar :: "(flt list \<times> quotient list) option"
  cr_timestamps :: "int list"
  cr_cheapness_thresh :: flt
  cr_spot_avg :: flt
  cr_solar_avg :: flt
  cr_count :: nat

text \<open>The panel is not NULL where there is weather, see \<open>calc_daily_averages_threadtask\<close>.\<close>

definition panel_size :: "facility_config \<Rightarrow> flt" where
  "panel_size F = (case fc_panel F of None \<Rightarrow> 0 | Some p \<Rightarrow> of_int (uint (pn_size p)))"

text \<open>The values of one interval, as far as the array goes, and their average.\<close>

definition block :: "nat \<Rightarrow> nat \<Rightarrow> 'a list \<Rightarrow> 'a list" where
  "block n i xs = take n (drop (i * n) xs)"

definition block_average :: "nat \<Rightarrow> nat \<Rightarrow> flt list \<Rightarrow> flt" where
  "block_average n i xs = sum_list (block n i xs) / of_nat (length (block n i xs))"

definition price_class_at :: "flt \<Rightarrow> flt \<Rightarrow> flt \<Rightarrow> cheapness" where
  "price_class_at avg thresh price =
     (if avg * (1 + thresh) < price then EXPENSIVE
      else if price < avg * (1 - thresh) then CHEAP else AVERAGE)"

definition solar_gain :: "flt \<Rightarrow> nat \<Rightarrow> flt \<Rightarrow> flt \<Rightarrow> flt \<Rightarrow> flt \<times> quotient" where
  "solar_gain m2 n gain_avg radiation_sum price =
     (if 0 < radiation_sum
      then let watt = (radiation_sum * m2) / of_nat n; gain = (watt / 1000) * price
           in (gain, fdiv (gain - gain_avg) gain_avg)
      else (0, Fin 0))"

text \<open>The checks, and the sizes of the four arrays that are allocated before the input is read.\<close>

definition calc_input_ok ::
  "electricity_spots \<Rightarrow> weather option \<Rightarrow> nat \<Rightarrow> nat \<Rightarrow> flt \<Rightarrow> bool" where
  "calc_input_ok S W cnt n thresh \<longleftrightarrow>
     n \<noteq> 0 \<and> 1 \<le> cnt \<and> cnt \<le> length (es_prices S) \<and> n \<le> cnt \<and>
     (case W of None \<Rightarrow> True | Some w \<Rightarrow> length (we_values w) = length (es_prices S) \<and>
        wv_timestamp (we_values w ! 0) = sp_time_start (es_prices S ! 0)) \<and> 0 \<le> thresh \<and> thresh \<le> 1"

definition arrays_ok :: "allocator \<Rightarrow> nat \<Rightarrow> bool" where
  "arrays_ok alloc cnt \<longleftrightarrow> alloc (8 * cnt) \<and> alloc (4 * cnt)"

definition calc_results_create ::
  "allocator \<Rightarrow> facility_config \<Rightarrow> electricity_spots \<Rightarrow> weather option \<Rightarrow> nat \<Rightarrow> results_interval \<Rightarrow> flt
   \<Rightarrow> calc_results result run" where
  "calc_results_create alloc F S W cnt iv thresh =
     (let n = interval_num iv; prices = map sp_price (es_prices S)
      in if \<not> calc_input_ok S W cnt n thresh then Done (Inl ERR_INVALID_ARG)
         else if \<not> arrays_ok alloc cnt then Done (Inl ERR_NO_MEMORY)
         else if length prices < cnt * n then Undefined
         else let avg = sum_list (take (cnt * n) prices) / of_nat (cnt * n);
                  radiation = (case W of None \<Rightarrow> [] | Some w \<Rightarrow> map wv_radiation_tilted (we_values w));
                  gain_avg = (sum_list (take (cnt * n) radiation) / of_nat (cnt * n) / 1000) * avg;
                  slot = (\<lambda>i. block_average n i prices);
                  gain = (\<lambda>i. solar_gain (panel_size F) n gain_avg (sum_list (block n i radiation)) (slot i))
              in Done (Inr \<lparr>cr_spot_prices = map slot [0..<cnt],
                   cr_deviation = map (\<lambda>i. qscale 100 (fdiv (slot i - avg) avg)) [0..<cnt],
                   cr_cheapness = map (\<lambda>i. price_class_at avg thresh (slot i)) [0..<cnt],
                   cr_solar = (case W of None \<Rightarrow> None
                     | Some w \<Rightarrow> Some (map (fst \<circ> gain) [0..<cnt], map (snd \<circ> gain) [0..<cnt])),
                   cr_timestamps = map (\<lambda>i. sp_time_start (es_prices S ! (i * n))) [0..<cnt],
                   cr_cheapness_thresh = thresh, cr_spot_avg = avg,
                   cr_solar_avg = (case W of None \<Rightarrow> 0 | Some w \<Rightarrow> gain_avg), cr_count = cnt\<rparr>))"

section \<open>Files\<close>

text \<open>\<open>cw_locked\<close> is the global mutex.\<close>

record calc_world =
  cw_fs :: file_sys
  cw_locked :: bool

text \<open>\<open>cv_object\<close> is \<open>cJSON_CreateObject\<close>, \<open>cv_print\<close> the printer, NULL without memory; \<open>cv_write\<close> is the
  success of \<open>write_string_to_file\<close> on a text that may be NULL, \<open>cv_fopen\<close> that of \<open>fopen\<close>; \<open>cv_now\<close> and
  \<open>cv_date\<close> are the time as text; \<open>cv_iso\<close> is \<open>parse_epoch_to_iso_full_datetime_string\<close>; \<open>cv_junk\<close> and
  \<open>cv_nonfinite\<close> are what a number that is not finite is rounded to and printed as; \<open>cv_reads\<close> are the
  calls of the database, two for prices and one for weather; \<open>cv_today\<close> is \<open>epoch_now_day\<close>.\<close>

record calc_env =
  cv_mem :: allocator
  cv_object :: bool
  cv_print :: "json_doc \<Rightarrow> string option"
  cv_write :: "string option \<Rightarrow> string \<Rightarrow> bool"
  cv_fopen :: "string \<Rightarrow> bool"
  cv_place :: nat
  cv_now :: string
  cv_date :: string
  cv_iso :: "int \<Rightarrow> string"
  cv_junk :: "flt \<Rightarrow> int"
  cv_nonfinite :: "flt \<Rightarrow> string"
  cv_reads :: "nat \<Rightarrow> cache_env"
  cv_scan :: "facility_row list \<Rightarrow> facility_row list"
  cv_today :: int

definition lock_run :: "calc_world \<Rightarrow> calc_world run" where
  "lock_run w = (if cw_locked w then Blocks else Done (w\<lparr>cw_locked := True\<rparr>))"

definition J_int :: "int \<Rightarrow> json_doc" where
  "J_int i = J_num (of_int i)"

definition result_step :: "calc_results \<Rightarrow> int" where
  "result_step R = (if 1 < cr_count R then (cr_timestamps R ! 1 - cr_timestamps R ! 0) mod 2 ^ 32 else 900)"

definition results_doc :: "(flt \<Rightarrow> int) \<Rightarrow> calc_results \<Rightarrow> json_doc" where
  "results_doc junk R = J_obj
     ([(''start'', J_int (cr_timestamps R ! 0)), (''step'', J_int (result_step R)),
       (''prices'', J_list (map (\<lambda>p. J_int (int_of_long (lroundf (p * 1000)))) (cr_spot_prices R))),
       (''deviation'', J_list (map (\<lambda>d. J_int (int_of_long (lround_quotient junk d))) (cr_deviation R))),
       (''cheapness'', J_list (map (J_int \<circ> cheapness_int) (cr_cheapness R)))] @
      (case cr_solar R of None \<Rightarrow> []
       | Some (gains, devs) \<Rightarrow>
           [(''solar'', J_list (map (\<lambda>g. J_int (int_of_long (lroundf (g * 1000)))) gains)),
            (''solar_dev'', J_list (map (\<lambda>d. J_int (int_of_long (lround_quotient junk d))) devs))]))"

text \<open>A failing write is only logged.\<close>

definition calc_results_json_create ::
  "calc_env \<Rightarrow> calc_results \<Rightarrow> string \<Rightarrow> calc_world \<Rightarrow> (status \<times> calc_world) run" where
  "calc_results_json_create E R filename w =
     (if \<not> cv_object E then Done (ERR_JSON_PARSE, w)
      else let js = cv_print E (results_doc (cv_junk E) R)
           in then_run (lock_run w) (\<lambda>w1. Done (SUCCESS, w1\<lparr>cw_locked := False,
                cw_fs := (case js of
                  Some text \<Rightarrow> if cv_write E js filename then fs_write (cv_place E) filename text (cw_fs w)
                               else cw_fs w
                | None \<Rightarrow> cw_fs w)\<rparr>)))"

fun fmt_quotient :: "(flt \<Rightarrow> string) \<Rightarrow> nat \<Rightarrow> quotient \<Rightarrow> string" where
  "fmt_quotient nonfinite n (Fin x) = fmt_fixed n x"
| "fmt_quotient nonfinite n (Over_zero x) = nonfinite x"

fun cheapness_text :: "cheapness \<Rightarrow> string" where
  "cheapness_text CHEAP = ''CHEAP''"
| "cheapness_text AVERAGE = ''AVERAGE''"
| "cheapness_text EXPENSIVE = ''EXPENSIVE''"

fun currency_int :: "spot_currency \<Rightarrow> int" where
  "currency_int SPOT_SEK = 0"
| "currency_int SPOT_EUR = 1"

definition summary_head :: "calc_env \<Rightarrow> calc_results \<Rightarrow> facility_config \<Rightarrow> string" where
  "summary_head E R F = unlines
     ([replicate 57 (CHR ''=''), ''              ENERGY CALCULATION SUMMARY REPORT           '',
       replicate 57 (CHR ''=''), ''Generated at: '' @ cv_now E,
       ''Spot Class:   '' @ dec_int (price_class_int (fc_price_class F)),
       ''Currency:     '' @ dec_int (currency_int (fc_currency F)), replicate 57 (CHR ''-''),
       ''Average Spot Price: '' @ fmt_fixed 2 (cr_spot_avg R) @ '' SEK/kW'',
       ''Cheapness Threshold: '' @ fmt_fixed 2 (cr_cheapness_thresh R * 100) @ ''%''] @
      (if cr_solar R = None then []
       else [''Panel Size:   '' @ dec_int (int_of_long \<lfloor>panel_size F\<rfloor>),
             ''Average Solar Gains: '' @ fmt_fixed 2 (cr_solar_avg R) @ '' SEK'']) @
      [''Data Points: '' @ dec_nat (cr_count R), replicate 57 (CHR ''=''), []])"

definition summary_columns :: "calc_results \<Rightarrow> string" where
  "summary_columns R =
     pad_right 25 ''Timestamp'' @ '' | '' @ pad_right 7 ''Spot'' @ '' | '' @ pad_right 7 ''Dev(%)'' @ '' | '' @
     pad_right 9 ''Cheapness'' @
     (if cr_solar R = None then [NL] @ replicate 57 (CHR ''-'') @ [NL]
      else '' | '' @ pad_right 10 ''SolarGains'' @ '' | '' @ pad_right 11 ''SolarDev(%)'' @ [NL] @
           replicate 84 (CHR ''-'') @ [NL])"

definition summary_row :: "calc_env \<Rightarrow> calc_results \<Rightarrow> nat \<Rightarrow> string" where
  "summary_row E R i =
     pad_right 19 (cv_iso E (cr_timestamps R ! i)) @ '' | '' @
     pad_left 7 (fmt_fixed 2 (cr_spot_prices R ! i)) @ '' | '' @
     pad_left 7 (fmt_quotient (cv_nonfinite E) 2 (cr_deviation R ! i)) @ '' | '' @
     pad_right 9 (cheapness_text (cr_cheapness R ! i)) @
     (case cr_solar R of None \<Rightarrow> []
      | Some (gains, devs) \<Rightarrow> '' | '' @ pad_left 10 (fmt_fixed 2 (gains ! i)) @ '' | '' @
          pad_left 11 (fmt_quotient (cv_nonfinite E) 2 (devs ! i))) @ [NL]"

definition summary_text :: "calc_env \<Rightarrow> calc_results \<Rightarrow> facility_config \<Rightarrow> string" where
  "summary_text E R F = summary_head E R F @ summary_columns R @
     concat (map (summary_row E R) [0..<cr_count R]) @
     [NL] @ unlines [replicate 60 (CHR ''=''), ''End of report.'', replicate 60 (CHR ''='')]"

text \<open>When the file cannot be opened the mutex stays locked.\<close>

definition calc_summary_create ::
  "calc_env \<Rightarrow> calc_results \<Rightarrow> facility_config \<Rightarrow> string \<Rightarrow> calc_world \<Rightarrow> (status \<times> calc_world) run" where
  "calc_summary_create E R F filename w =
     then_run (lock_run w) (\<lambda>w1.
       if \<not> cv_fopen E filename then Done (ERR_FATAL, w1)
       else Done (SUCCESS, w1\<lparr>cw_locked := False,
              cw_fs := fs_write (cv_place E) filename (summary_text E R F) (cw_fs w1)\<rparr>))"

section \<open>A run for one facility\<close>

definition wch_get_weather_range ::
  "cache_env \<Rightarrow> (facility_row list \<Rightarrow> facility_row list) \<Rightarrow> weather \<Rightarrow> flt \<Rightarrow> flt \<Rightarrow> int \<Rightarrow> int \<Rightarrow> bool
   \<Rightarrow> int \<Rightarrow> int \<Rightarrow> sql_helper \<Rightarrow> status \<times> weather" where
  "wch_get_weather_range e scan out lat lon tilt azimuth forecast t0 t1 h =
     sql_helper_read_weather e scan out lat lon tilt azimuth forecast t0 t1 h"

text \<open>The prices of tomorrow or else of today, and for a panel the forecast of the same time.\<close>

definition fetch_spots ::
  "calc_env \<Rightarrow> string option \<Rightarrow> facility_config \<Rightarrow> sql_helper \<Rightarrow> status \<times> electricity_spots" where
  "fetch_spots E data_dir F h =
     (let start = cv_today E + 86400 - 3600;
          get = (\<lambda>k out t. ech_get_spots_range (cv_reads E k) data_dir out (fc_price_class F) (fc_currency F)
                   t (t + 86400) h);
          (res, S) = get 0 no_spots start
      in if res = SUCCESS then (res, S) else get 1 S (cv_today E - 3600))"

definition calc_fetch_input_data ::
  "calc_env \<Rightarrow> string option \<Rightarrow> facility_config \<Rightarrow> sql_helper \<Rightarrow> (electricity_spots \<times> weather option) result" where
  "calc_fetch_input_data E data_dir F h =
     (case fetch_spots E data_dir F h of
        (res, S) \<Rightarrow>
          if res \<noteq> SUCCESS then Inl res
          else (case fc_panel F of
              None \<Rightarrow> Inr (S, None)
            | Some p \<Rightarrow>
                (case wch_get_weather_range (cv_reads E 2) (cv_scan E) no_weather (fc_lat F) (fc_lon F)
                        (uint (pn_tilt p)) (sint (pn_azimuth p)) True (sp_time_start (hd (es_prices S)))
                        (sp_time_end (last (es_prices S))) h of
                   (res2, W) \<Rightarrow> if res2 \<noteq> SUCCESS then Inl res2 else Inr (S, Some W))))"

text \<open>Weather that does not go with the prices is left out.\<close>

definition usable_weather :: "electricity_spots \<Rightarrow> weather option \<Rightarrow> weather option" where
  "usable_weather S W =
     (case W of None \<Rightarrow> None
      | Some w \<Rightarrow>
          if length (we_values w) \<noteq> length (es_prices S) \<or> we_values w = [] \<or>
             wv_timestamp (hd (we_values w)) \<noteq> sp_time_start (hd (es_prices S)) then None else Some w)"

fun entries_per_day :: "results_interval \<Rightarrow> nat" where
  "entries_per_day QUARTERLY = 96"
| "entries_per_day HOURLY = 24"
| "entries_per_day DAILY = 1"

definition daily_file :: "calc_env \<Rightarrow> string \<Rightarrow> facility_config \<Rightarrow> string \<Rightarrow> results_interval \<Rightarrow> string option" where
  "daily_file E calcs_dir F ext iv =
     calc_name_get_daily (cv_mem E) (cv_date E) calcs_dir (cstr (fc_name F)) ext (int (entries_per_day iv))"

text \<open>The files of a run whose results are there.\<close>

definition write_results ::
  "calc_env \<Rightarrow> string \<Rightarrow> facility_config \<Rightarrow> results_interval \<Rightarrow> calc_results \<Rightarrow> calc_world \<Rightarrow> calc_world run" where
  "write_results E calcs_dir F iv R w =
     (case daily_file E calcs_dir F ''json'' iv of
        None \<Rightarrow> Done w
      | Some jf \<Rightarrow> then_run (calc_results_json_create E R jf w) (\<lambda>(res, w1).
          if res \<noteq> SUCCESS then Done w1
          else case daily_file E calcs_dir F ''txt'' iv of
            None \<Rightarrow> Done w1
          | Some tf \<Rightarrow> then_run (calc_summary_create E R F tf w1) (\<lambda>(res2, w2). Done w2)))"

definition calc_daily_averages_threadtask ::
  "calc_env \<Rightarrow> string option \<Rightarrow> string option \<Rightarrow> sql_helper \<Rightarrow> facility_config \<times> results_interval
   \<Rightarrow> calc_world \<Rightarrow> calc_world run" where
  "calc_daily_averages_threadtask E calcs_dir data_dir h task w =
     (case (calcs_dir, data_dir) of
        (Some dir, Some data) \<Rightarrow>
          (let F = fst task; iv = snd task
           in case calc_fetch_input_data E (Some data) F h of
             Inl e \<Rightarrow> Done w
           | Inr (S, W) \<Rightarrow>
               then_run (calc_results_create (cv_mem E) F S (usable_weather S W) (entries_per_day iv) iv (1 / 4))
                 (\<lambda>r. case r of Inl e \<Rightarrow> Done w | Inr R \<Rightarrow> write_results E dir F iv R w))
      | _ \<Rightarrow> Done w)"

section \<open>All facilities\<close>

text \<open>The tasks: every one is waited for before the next is added, so they run in order. \<open>te_add\<close> is the
  success of \<open>tp_task_add\<close>; a task that is not added is only logged. Task \<open>k\<close> has the environment \<open>te_env k\<close>.\<close>

record task_env =
  te_pool :: bool
  te_mem :: allocator
  te_add :: "nat \<Rightarrow> bool"
  te_env :: "nat \<Rightarrow> calc_env"

definition calc_tasks :: "facility_config list \<Rightarrow> (facility_config \<times> results_interval) list" where
  "calc_tasks fs = concat (map (\<lambda>F. [(F, QUARTERLY), (F, HOURLY)]) fs)"

fun run_tasks ::
  "task_env \<Rightarrow> string option \<Rightarrow> string option \<Rightarrow> sql_helper \<Rightarrow> nat \<Rightarrow>
   (facility_config \<times> results_interval) list \<Rightarrow> calc_world \<Rightarrow> calc_world run" where
  "run_tasks T calcs_dir data_dir h k [] w = Done w"
| "run_tasks T calcs_dir data_dir h k (t # ts) w =
     then_run (if te_add T k then calc_daily_averages_threadtask (te_env T k) calcs_dir data_dir h t w else Done w)
       (run_tasks T calcs_dir data_dir h (Suc k) ts)"

definition sizeof_thread_args :: nat where
  "sizeof_thread_args = 24"

definition calc_create_reports ::
  "task_env \<Rightarrow> string option \<Rightarrow> string option \<Rightarrow> facility_config list \<Rightarrow> sql_helper \<Rightarrow> calc_world
   \<Rightarrow> (status \<times> calc_world) run" where
  "calc_create_reports T calcs_dir data_dir fs h w =
     (if calcs_dir = None \<or> data_dir = None \<or> fs = [] then Done (ERR_INVALID_ARG, w)
      else if \<not> te_pool T then Done (ERR_FATAL, w)
      else if \<not> te_mem T (2 * length fs * sizeof_thread_args) then Done (ERR_NO_MEMORY, w)
      else then_run (run_tasks T calcs_dir data_dir h 0 (calc_tasks fs) w) (\<lambda>w1. Done (SUCCESS, w1)))"

section \<open>What the results hold\<close>

lemma sum_blocks: "sum_list (take (c * n) (xs :: flt list)) = (\<Sum>i<c. sum_list (block n i xs))"
proof (induction c)
  case (Suc c)
  have "take (Suc c * n) xs = take (c * n) xs @ block n c xs"
    using take_add [of "c * n" n xs] by (simp add: block_def add.commute)
  with Suc.IH show ?case by simp
qed simp

lemma length_block:
  assumes "i < c" and "c * n \<le> length xs"
  shows "length (block n i xs) = n"
proof -
  have "(i + 1) * n \<le> c * n" using assms(1) by (intro mult_le_mono1) simp
  with assms(2) show ?thesis by (simp add: block_def)
qed

lemma block_sum_nth:
  assumes "i < c" and "c * n \<le> length xs"
  shows "sum_list (block n i (map f xs)) = (\<Sum>j<n. f (xs ! (i * n + j)))"
proof -
  have len: "length (block n i (map f xs)) = n" using assms by (simp add: length_block)
  have "(i + 1) * n \<le> c * n" using assms(1) by (intro mult_le_mono1) simp
  then have le: "i * n + n \<le> length xs" using assms(2) by simp
  have "block n i (map f xs) ! j = f (xs ! (i * n + j))" if "j < n" for j
    using le that by (simp add: block_def)
  then show ?thesis
    unfolding sum_list_sum_nth len by (intro sum.cong) (auto simp: atLeast0LessThan)
qed

lemma averages_average:
  assumes "0 < c" and "0 < n" and "c * n \<le> length prices"
  shows "(\<Sum>i<c. block_average n i prices) = of_nat c * (sum_list (take (c * n) prices) / of_nat (c * n))"
proof -
  have "(\<Sum>i<c. block_average n i prices) = (\<Sum>i<c. sum_list (block n i prices) / of_nat n)"
    using length_block [OF _ assms(3)] by (intro sum.cong) (simp_all add: block_average_def)
  also have "\<dots> = sum_list (take (c * n) prices) / of_nat n"
    by (simp add: sum_blocks sum_divide_distrib)
  finally show ?thesis using assms(1,2) by (simp add: field_simps)
qed

lemma interval_num_pos [simp]: "0 < interval_num iv"
  by (cases iv) simp_all

lemma some_not_above:
  fixes f :: "nat \<Rightarrow> flt"
  assumes "(\<Sum>i<c. f i) = of_nat c * avg" and "0 < c"
  shows "\<exists>i<c. f i \<le> avg" and "\<exists>i<c. avg \<le> f i"
proof -
  have const: "(\<Sum>i<c. avg) = of_nat c * avg" by simp
  show "\<exists>i<c. f i \<le> avg"
  proof (rule ccontr)
    assume "\<not> ?thesis"
    then have "(\<Sum>i<c. avg) < (\<Sum>i<c. f i)" using assms(2) by (intro sum_strict_mono) auto
    with const assms(1) show False by simp
  qed
  show "\<exists>i<c. avg \<le> f i"
  proof (rule ccontr)
    assume "\<not> ?thesis"
    then have "(\<Sum>i<c. f i) < (\<Sum>i<c. avg)" using assms(2) by (intro sum_strict_mono) auto
    with const assms(1) show False by simp
  qed
qed

lemma price_class_bounds:
  assumes "0 < avg" and "0 \<le> thresh"
  shows "price \<le> avg \<Longrightarrow> price_class_at avg thresh price \<noteq> EXPENSIVE"
    and "avg \<le> price \<Longrightarrow> price_class_at avg thresh price \<noteq> CHEAP"
proof -
  have "avg * (1 - thresh) \<le> avg" "avg \<le> avg * (1 + thresh)" using assms by (simp_all add: field_simps)
  then show "price \<le> avg \<Longrightarrow> price_class_at avg thresh price \<noteq> EXPENSIVE"
    and "avg \<le> price \<Longrightarrow> price_class_at avg thresh price \<noteq> CHEAP"
    by (auto simp: price_class_at_def)
qed

lemma results_fields:
  assumes "calc_results_create alloc F S W cnt iv thresh = Done (Inr R)"
  defines "n \<equiv> interval_num iv" and "prices \<equiv> map sp_price (es_prices S)"
  shows "0 < cnt" "0 \<le> thresh" "cnt * n \<le> length prices" "cr_count R = cnt"
    and "cr_spot_avg R = sum_list (take (cnt * n) prices) / of_nat (cnt * n)"
    and "cr_spot_prices R = map (\<lambda>i. block_average n i prices) [0..<cnt]"
    and "cr_cheapness R = map (\<lambda>i. price_class_at (cr_spot_avg R) thresh (block_average n i prices)) [0..<cnt]"
    and "cr_timestamps R = map (\<lambda>i. sp_time_start (es_prices S ! (i * n))) [0..<cnt]"
  using assms(1) unfolding calc_results_create_def Let_def n_def prices_def calc_input_ok_def
  by (auto split: if_splits)

text \<open>C7: The results of a calculation. Slot \<open>i\<close> starts with quarter \<open>i * n\<close> and has the average price of its
  \<open>n\<close> quarters, and the average over the slots is the average that the classes compare with. If that
  average is positive, some slot is not expensive and some slot is not cheap. If it is negative and the
  price is constant, every slot is called expensive.\<close>

theorem calc_results_averages:
  assumes "calc_results_create alloc F S W cnt iv thresh = Done (Inr R)"
  shows "cr_count R = cnt \<and> length (cr_spot_prices R) = cnt \<and>
    sum_list (cr_spot_prices R) = of_nat cnt * cr_spot_avg R \<and>
    (\<forall>i<cnt. cr_timestamps R ! i = sp_time_start (es_prices S ! (i * interval_num iv)) \<and>
       of_nat (interval_num iv) * cr_spot_prices R ! i =
         (\<Sum>j<interval_num iv. sp_price (es_prices S ! (i * interval_num iv + j))) \<and>
       cr_cheapness R ! i = price_class_at (cr_spot_avg R) thresh (cr_spot_prices R ! i)) \<and>
    (0 < cr_spot_avg R \<longrightarrow> (\<exists>i<cnt. cr_cheapness R ! i \<noteq> EXPENSIVE) \<and> (\<exists>i<cnt. cr_cheapness R ! i \<noteq> CHEAP)) \<and>
    (cr_spot_avg R < 0 \<and> 0 < thresh \<and> (\<forall>i<cnt. cr_spot_prices R ! i = cr_spot_avg R) \<longrightarrow>
       (\<forall>i<cnt. cr_cheapness R ! i = EXPENSIVE))"
proof -
  let ?n = "interval_num iv" and ?prices = "map sp_price (es_prices S)"
  note R = results_fields [OF assms]
  have total: "(\<Sum>i<cnt. block_average ?n i ?prices) = of_nat cnt * cr_spot_avg R"
    unfolding R(5) by (rule averages_average [OF R(1) _ R(3)]) simp
  then have sum: "sum_list (cr_spot_prices R) = of_nat cnt * cr_spot_avg R"
    by (simp add: R(6) interv_sum_list_conv_sum_set_nat atLeast0LessThan)
  have slot: "of_nat ?n * cr_spot_prices R ! i = (\<Sum>j<?n. sp_price (es_prices S ! (i * ?n + j)))"
    if "i < cnt" for i
    using that R(3) length_block [OF that R(3)] block_sum_nth [OF that, of ?n "es_prices S" sp_price]
    by (simp add: R(6) block_average_def)
  have cls: "cr_cheapness R ! i = price_class_at (cr_spot_avg R) thresh (cr_spot_prices R ! i)"
    if "i < cnt" for i using that by (simp add: R(6,7))
  have some: "\<exists>i<cnt. cr_spot_prices R ! i \<le> cr_spot_avg R" "\<exists>i<cnt. cr_spot_avg R \<le> cr_spot_prices R ! i"
    using some_not_above [OF total R(1)] by (auto simp: R(6))
  have "(\<exists>i<cnt. cr_cheapness R ! i \<noteq> EXPENSIVE) \<and> (\<exists>i<cnt. cr_cheapness R ! i \<noteq> CHEAP)"
    if "0 < cr_spot_avg R"
    using some cls price_class_bounds [OF that R(2)] by metis
  moreover have "cr_cheapness R ! i = EXPENSIVE"
    if "cr_spot_avg R < 0" "0 < thresh" "cr_spot_prices R ! i = cr_spot_avg R" "i < cnt" for i
    using that mult_strict_left_mono_neg [of 1 "1 + thresh" "cr_spot_avg R"]
    by (simp add: cls price_class_at_def)
  moreover have "cr_timestamps R ! i = sp_time_start (es_prices S ! (i * ?n))" if "i < cnt" for i
    using that by (simp add: R(8))
  moreover have "length (cr_spot_prices R) = cnt" by (simp add: R(6))
  ultimately show ?thesis using sum slot cls R(4) by blast
qed

section \<open>Reading the prices\<close>

lemma results_exist:
  assumes "calc_input_ok S W cnt (interval_num iv) thresh" and "arrays_ok alloc cnt"
    and "cnt * interval_num iv \<le> length (es_prices S)"
  shows "\<exists>R. calc_results_create alloc F S W cnt iv thresh = Done (Inr R)"
  using assms by (simp add: calc_results_create_def Let_def)

lemma write_results_defined [simp]: "write_results E dir F iv R w \<noteq> Undefined"
  by (simp add: write_results_def calc_results_json_create_def calc_summary_create_def lock_run_def Let_def
      split: option.split)

lemma usable_weather_ok:
  "es_prices S \<noteq> [] \<Longrightarrow> calc_input_ok S (usable_weather S W) cnt n (1 / 4) \<longleftrightarrow>
     n \<noteq> 0 \<and> 1 \<le> cnt \<and> cnt \<le> length (es_prices S) \<and> n \<le> cnt"
  by (auto simp: calc_input_ok_def usable_weather_def hd_conv_nth split: option.split)

lemma results_undefined:
  assumes "\<forall>n. alloc n"
  shows "calc_results_create alloc F S (usable_weather S W) (entries_per_day iv) iv (1 / 4) = Undefined \<longleftrightarrow>
    iv = HOURLY \<and> 24 \<le> length (es_prices S) \<and> length (es_prices S) < 96"
proof (cases "es_prices S = []")
  case True
  then show ?thesis by (cases iv) (simp_all add: calc_results_create_def calc_input_ok_def)
next
  case False
  with assms usable_weather_ok [OF False, of W] show ?thesis
    by (cases iv) (simp_all add: calc_results_create_def arrays_ok_def Let_def not_le)
qed

lemma tasks_intervals: "(F, iv) \<in> set (calc_tasks fs) \<longleftrightarrow> F \<in> set fs \<and> (iv = QUARTERLY \<or> iv = HOURLY)"
  by (induction fs) (auto simp: calc_tasks_def)

text \<open>C24: The runs for a facility read their prices inside the array, with one exception: the hourly run
  reads behind it exactly when the day has at least 24 but fewer than 96 prices, as the day on which
  summer time begins and every day with a price per hour have.\<close>

theorem hourly_run_overreads:
  assumes "(F, iv) \<in> set (calc_tasks fs)" and "\<forall>n. cv_mem E n"
    and "calc_fetch_input_data E (Some data) F h = Inr (S, W)"
  shows "calc_daily_averages_threadtask E (Some dir) (Some data) h (F, iv) w = Undefined \<longleftrightarrow>
    iv = HOURLY \<and> 24 \<le> length (es_prices S) \<and> length (es_prices S) < 96"
proof -
  let ?r = "calc_results_create (cv_mem E) F S (usable_weather S W) (entries_per_day iv) iv (1 / 4)"
  have "calc_daily_averages_threadtask E (Some dir) (Some data) h (F, iv) w = Undefined \<longleftrightarrow> ?r = Undefined"
    using assms(3)
    by (cases ?r) (auto simp: calc_daily_averages_threadtask_def split: sum.split)
  then show ?thesis by (simp add: results_undefined [OF assms(2)])
qed

section \<open>The mutex\<close>

text \<open>A task with results that are written: what it needs, and the files.\<close>

definition task_results ::
  "calc_env \<Rightarrow> string \<Rightarrow> sql_helper \<Rightarrow> facility_config \<times> results_interval \<Rightarrow> calc_results \<Rightarrow> bool" where
  "task_results E data h t R \<longleftrightarrow> (\<exists>S W. calc_fetch_input_data E (Some data) (fst t) h = Inr (S, W) \<and>
     calc_results_create (cv_mem E) (fst t) S (usable_weather S W) (entries_per_day (snd t)) (snd t) (1 / 4) =
       Done (Inr R))"

definition task_file :: "calc_env \<Rightarrow> string \<Rightarrow> string \<Rightarrow> facility_config \<times> results_interval \<Rightarrow> string" where
  "task_file E dir ext t = dir @ ''/'' @ cstr (fc_name (fst t)) @ ''-Daily_'' @ cv_date E @ ''_SP'' @
     dec_int (int (entries_per_day (snd t))) @ ''.'' @ ext"

definition productive ::
  "calc_env \<Rightarrow> string \<Rightarrow> string \<Rightarrow> sql_helper \<Rightarrow> facility_config \<times> results_interval \<Rightarrow> bool" where
  "productive E dir data h t \<longleftrightarrow> (\<exists>R. task_results E data h t R) \<and> cv_object E \<and> (\<forall>n. cv_mem E n) \<and>
     length (task_file E dir ''json'' t) < 512"

lemma daily_file_task:
  assumes "\<forall>n. cv_mem E n" and "length (task_file E dir ''json'' (F, iv)) < 512"
  shows "daily_file E dir F ''json'' iv = Some (task_file E dir ''json'' (F, iv))"
    and "daily_file E dir F ''txt'' iv = Some (task_file E dir ''txt'' (F, iv))"
  using assms by (simp_all add: daily_file_def calc_name_get_daily_def task_file_def Let_def)

definition json_files :: "calc_env \<Rightarrow> calc_results \<Rightarrow> string \<Rightarrow> file_sys \<Rightarrow> file_sys" where
  "json_files E R jf fs =
     (let js = cv_print E (results_doc (cv_junk E) R)
      in case js of None \<Rightarrow> fs
         | Some text \<Rightarrow> if cv_write E js jf then fs_write (cv_place E) jf text fs else fs)"

text \<open>What a task with results does, with the mutex free and with the mutex locked.\<close>

lemma task_run:
  assumes "productive E dir data h t" and "task_results E data h t R"
  shows "calc_daily_averages_threadtask E (Some dir) (Some data) h t w =
    (if cw_locked w then Blocks
     else let fs = json_files E R (task_file E dir ''json'' t) (cw_fs w); tf = task_file E dir ''txt'' t
          in Done (w\<lparr>cw_fs := if cv_fopen E tf then fs_write (cv_place E) tf (summary_text E R (fst t)) fs else fs,
                     cw_locked := \<not> cv_fopen E tf\<rparr>))"
proof -
  obtain F iv where t: "t = (F, iv)" by force
  obtain S W where SW: "calc_fetch_input_data E (Some data) F h = Inr (S, W)"
    "calc_results_create (cv_mem E) F S (usable_weather S W) (entries_per_day iv) iv (1 / 4) = Done (Inr R)"
    using assms(2) by (auto simp: task_results_def t)
  have "calc_daily_averages_threadtask E (Some dir) (Some data) h t w = write_results E dir F iv R w"
    by (simp add: calc_daily_averages_threadtask_def t SW)
  then show ?thesis
    using assms(1) daily_file_task [of E dir F iv]
    by (simp add: productive_def t write_results_def calc_results_json_create_def calc_summary_create_def
        lock_run_def json_files_def Let_def split: option.split)
qed

lemma locked_blocks: "productive E dir data h t \<Longrightarrow> cw_locked w \<Longrightarrow>
    calc_daily_averages_threadtask E (Some dir) (Some data) h t w = Blocks"
  using task_run by (fastforce simp: productive_def)

lemma free_runs:
  assumes "productive E dir data h t" and "\<not> cw_locked w"
  shows "\<exists>fs. calc_daily_averages_threadtask E (Some dir) (Some data) h t w =
    Done (w\<lparr>cw_fs := fs, cw_locked := \<not> cv_fopen E (task_file E dir ''txt'' t)\<rparr>)"
proof -
  from assms(1) obtain R where "task_results E data h t R" by (auto simp: productive_def)
  from task_run [OF assms(1) this, of w] assms(2) show ?thesis
    by (auto simp: Let_def)
qed

definition all_productive ::
  "task_env \<Rightarrow> string \<Rightarrow> string \<Rightarrow> sql_helper \<Rightarrow> nat \<Rightarrow> (facility_config \<times> results_interval) list \<Rightarrow> bool" where
  "all_productive T dir data h k ts \<longleftrightarrow>
     (\<forall>i<length ts. te_add T (k + i) \<and> productive (te_env T (k + i)) dir data h (ts ! i))"

lemma all_productive_Cons [simp]:
  "all_productive T dir data h k (t # ts) \<longleftrightarrow> te_add T k \<and> productive (te_env T k) dir data h t \<and>
     all_productive T dir data h (Suc k) ts"
  by (auto simp: all_productive_def nth_Cons less_Suc_eq_0_disj split: nat.splits)

lemma ex_less_Suc2: "(\<exists>i. P i) \<longleftrightarrow> P 0 \<or> (\<exists>i. P (Suc i))"
  by (metis not0_implies_Suc)

lemma run_tasks_block:
  assumes "all_productive T dir data h k ts" and "\<not> cw_locked w"
  shows "run_tasks T (Some dir) (Some data) h k ts w = Blocks \<longleftrightarrow>
    (\<exists>i. i + 1 < length ts \<and> \<not> cv_fopen (te_env T (k + i)) (task_file (te_env T (k + i)) dir ''txt'' (ts ! i)))"
  using assms
proof (induction ts arbitrary: k w)
  case (Cons t ts)
  let ?open = "cv_fopen (te_env T k) (task_file (te_env T k) dir ''txt'' t)"
  have t: "te_add T k" "productive (te_env T k) dir data h t" "all_productive T dir data h (Suc k) ts"
    using Cons.prems(1) by simp_all
  from free_runs [OF t(2) Cons.prems(2)] obtain fs where
    run: "calc_daily_averages_threadtask (te_env T k) (Some dir) (Some data) h t w =
      Done (w\<lparr>cw_fs := fs, cw_locked := \<not> ?open\<rparr>)" by blast
  show ?case
  proof (cases ?open)
    case True
    with run t Cons.IH [OF t(3), of "w\<lparr>cw_fs := fs, cw_locked := False\<rparr>"] show ?thesis
      by (subst ex_less_Suc2) (simp add: True)
  next
    case False
    show ?thesis
    proof (cases ts)
      case Nil
      with run t False show ?thesis by simp
    next
      case (Cons u us)
      with t(3) have "te_add T (Suc k)" "productive (te_env T (Suc k)) dir data h u" by simp_all
      with locked_blocks [OF this(2), of "w\<lparr>cw_fs := fs, cw_locked := True\<rparr>"] run t False Cons
      show ?thesis by (auto intro: exI [of _ 0])
    qed
  qed
qed simp

text \<open>C23: A summary that cannot be opened leaves the global mutex locked. When every task has results, the
  calculation never returns exactly if the summary of some task but the last cannot be opened.\<close>

theorem reports_block:
  assumes "all_productive T dir data h 0 (calc_tasks fs)" and "fs \<noteq> []" and "te_pool T" and "\<forall>n. te_mem T n"
    and "\<not> cw_locked w"
  shows "calc_create_reports T (Some dir) (Some data) fs h w = Blocks \<longleftrightarrow>
    (\<exists>i. i + 1 < 2 * length fs \<and>
       \<not> cv_fopen (te_env T i) (task_file (te_env T i) dir ''txt'' (calc_tasks fs ! i)))"
proof -
  have len: "length (calc_tasks fs) = 2 * length fs" by (induction fs) (simp_all add: calc_tasks_def)
  have "calc_create_reports T (Some dir) (Some data) fs h w = Blocks \<longleftrightarrow>
      run_tasks T (Some dir) (Some data) h 0 (calc_tasks fs) w = Blocks"
    using assms(2,3,4)
    by (cases "run_tasks T (Some dir) (Some data) h 0 (calc_tasks fs) w") (simp_all add: calc_create_reports_def)
  with run_tasks_block [OF assms(1,5)] show ?thesis by (simp add: len)
qed

section \<open>Instances\<close>

definition plain_facility :: facility_config where
  "plain_facility = \<lparr>fc_name = ''a'', fc_panel = None, fc_lat = 59, fc_lon = 18, fc_currency = SPOT_SEK,
     fc_price_class = SE3\<rparr>"

text \<open>The prices of a day at a constant price, and an environment on the first day of the epoch.\<close>

definition day_table :: "nat \<Rightarrow> cache_tables" where
  "day_table n = no_tables\<lparr>ct_spots := map (\<lambda>i. \<lparr>sr_class = SE3, sr_currency = SPOT_SEK,
     sr_price = \<lparr>sp_time_start = 82800 + 900 * int i, sp_time_end = 83700 + 900 * int i, sp_price = 1\<rparr>\<rparr>)
     [0..<n]\<rparr>"

definition plain_calc_env :: "(string \<Rightarrow> bool) \<Rightarrow> calc_env" where
  "plain_calc_env fopen = \<lparr>cv_mem = mem_unlimited, cv_object = True, cv_print = (\<lambda>d. Some ''x''),
     cv_write = (\<lambda>js f. True), cv_fopen = fopen, cv_place = 0, cv_now = ''1970-01-01 00:00:00'',
     cv_date = ''1970-01-01'', cv_iso = (\<lambda>t. ''t''), cv_junk = (\<lambda>x. 0), cv_nonfinite = (\<lambda>x. ''nan''),
     cv_reads = (\<lambda>k. calls_fine 0), cv_scan = id, cv_today = 0\<rparr>"

definition day_helper :: "nat \<Rightarrow> sql_helper" where
  "day_helper n = \<lparr>sh_db = Some (sql_rest (day_table n)), sh_locked = False\<rparr>"

lemma day_selected:
  assumes "n \<le> 96"
  shows "length (select_spots SE3 SPOT_SEK 82800 169200 (day_table n)) = n"
proof -
  have "filter (\<lambda>i. 900 * i < (86400 :: int)) (map int [0..<n]) = map int [0..<n]"
    using assms by (intro filter_True) auto
  then show ?thesis
    using assms by (simp add: select_spots_def day_table_def filter_map comp_def filter_id_conv)
qed

lemma day_fetched:
  assumes "0 < n" and "n \<le> 96"
  shows "\<exists>S. calc_fetch_input_data (plain_calc_env fopen) (Some ''/d'') plain_facility (day_helper n) =
    Inr (S, None) \<and> length (es_prices S) = n"
proof -
  let ?ps = "select_spots SE3 SPOT_SEK 82800 169200 (day_table n)"
  have len: "length ?ps = n" by (rule day_selected [OF assms(2)])
  with assms(1) have "?ps \<noteq> []" by auto
  with len show ?thesis
    by (simp add: calc_fetch_input_data_def fetch_spots_def ech_get_spots_range_def plain_calc_env_def
        plain_facility_def day_helper_def read_spots_rows no_spots_def Let_def)
qed

theorem calc_results_averages_witness:
  "\<exists>R. calc_results_create mem_unlimited plain_facility two_prices None 2 QUARTERLY (1 / 4) = Done (Inr R) \<and>
     sum_list (cr_spot_prices R) = 2 * cr_spot_avg R \<and> (\<exists>i<2. cr_cheapness R ! i \<noteq> EXPENSIVE)"
proof -
  obtain R where R: "calc_results_create mem_unlimited plain_facility two_prices None 2 QUARTERLY (1 / 4) =
      Done (Inr R)"
    by (simp add: calc_results_create_def calc_input_ok_def arrays_ok_def mem_unlimited_def two_prices_def
        no_spots_def Let_def)
  then have "0 < cr_spot_avg R"
    by (auto simp: calc_results_create_def calc_input_ok_def arrays_ok_def mem_unlimited_def two_prices_def
        no_spots_def Let_def)
  with R calc_results_averages [OF R] show ?thesis by auto
qed

theorem hourly_run_overreads_witness:
  "calc_daily_averages_threadtask (plain_calc_env (\<lambda>f. True)) (Some ''/c'') (Some ''/d'') (day_helper 24)
     (plain_facility, HOURLY) \<lparr>cw_fs = \<lparr>fs_read = Map.empty, fs_dir = Map.empty\<rparr>, cw_locked = False\<rparr> = Undefined"
proof -
  obtain S where S: "calc_fetch_input_data (plain_calc_env (\<lambda>f. True)) (Some ''/d'') plain_facility (day_helper 24) =
    Inr (S, None)" "length (es_prices S) = 24"
    using day_fetched [of 24 "\<lambda>f. True"] by auto
  have "(plain_facility, HOURLY) \<in> set (calc_tasks [plain_facility])" by (simp add: calc_tasks_def)
  moreover have "\<forall>n. cv_mem (plain_calc_env (\<lambda>f. True)) n" by (simp add: plain_calc_env_def mem_unlimited_def)
  ultimately show ?thesis using hourly_run_overreads [OF _ _ S(1)] S(2) by simp
qed

lemma day_productive:
  assumes "iv = QUARTERLY \<or> iv = HOURLY" and "length dir < 100"
  shows "productive (plain_calc_env fopen) dir ''/d'' (day_helper 96) (plain_facility, iv)"
proof -
  obtain S where S: "calc_fetch_input_data (plain_calc_env fopen) (Some ''/d'') plain_facility (day_helper 96) =
    Inr (S, None)" "length (es_prices S) = 96"
    using day_fetched [of 96 fopen] by auto
  have "\<exists>R. calc_results_create (cv_mem (plain_calc_env fopen)) plain_facility S (usable_weather S None)
      (entries_per_day iv) iv (1 / 4) = Done (Inr R)"
    using assms S(2) by (intro results_exist)
      (auto simp: calc_input_ok_def arrays_ok_def plain_calc_env_def mem_unlimited_def usable_weather_def)
  with S(1) have "\<exists>R. task_results (plain_calc_env fopen) ''/d'' (day_helper 96) (plain_facility, iv) R"
    by (auto simp: task_results_def)
  moreover have "length (task_file (plain_calc_env fopen) dir ''json'' (plain_facility, iv)) < 512"
    using assms length_dec_nat_le [of "entries_per_day iv" 2]
    by (auto simp: task_file_def plain_facility_def plain_calc_env_def dec_int_def)
  ultimately show ?thesis by (simp add: productive_def plain_calc_env_def mem_unlimited_def)
qed

definition plain_tasks :: "(string \<Rightarrow> bool) \<Rightarrow> task_env" where
  "plain_tasks fopen = \<lparr>te_pool = True, te_mem = mem_unlimited, te_add = (\<lambda>k. True),
     te_env = (\<lambda>k. plain_calc_env fopen)\<rparr>"

lemma plain_all_productive:
  "length dir < 100 \<Longrightarrow> all_productive (plain_tasks fopen) dir ''/d'' (day_helper 96) 0 (calc_tasks [plain_facility])"
  using day_productive [of QUARTERLY dir fopen] day_productive [of HOURLY dir fopen]
  by (simp add: calc_tasks_def plain_tasks_def) (simp add: all_productive_def)

definition no_world :: calc_world where
  "no_world = \<lparr>cw_fs = \<lparr>fs_read = Map.empty, fs_dir = Map.empty\<rparr>, cw_locked = False\<rparr>"

theorem reports_block_witness:
  "calc_create_reports (plain_tasks (\<lambda>f. False)) (Some ''/c'') (Some ''/d'') [plain_facility] (day_helper 96)
     no_world = Blocks"
proof -
  have "te_pool (plain_tasks (\<lambda>f. False))" "\<forall>n. te_mem (plain_tasks (\<lambda>f. False)) n" "\<not> cw_locked no_world"
    by (simp_all add: plain_tasks_def mem_unlimited_def no_world_def)
  from reports_block [OF plain_all_productive [of "''/c''" "\<lambda>f. False"] _ this]
  show ?thesis by (auto simp: plain_tasks_def plain_calc_env_def intro!: exI [of _ 0])
qed

end
