(* ===== verification/Reports_Served.thy ===== *)
theory Reports_Served
  imports Price_Calc Opti_Storage
begin

text \<open>
  The two programs together: the optimizer writes the daily results of a facility to a file
  (\<open>optimizer/src/calculations.c\<close>), and the server serves that file under \<open>/average-daily\<close>
  (\<open>server/src/opti/opti_instance.c\<close>). They agree on its name by \<open>calc_name_get_daily\<close>, and on
  its directory only as long as the configuration of the optimizer keeps the default. The theorem says what
  is served after a calculation in either case.
\<close>

lemma two_digits: "iv = QUARTERLY \<or> iv = HOURLY \<Longrightarrow>
    dec_int (int (entries_per_day iv)) = (if iv = QUARTERLY then ''96'' else ''24'')"
  by (auto; code_simp)

text \<open>The files of different tasks are different.\<close>

lemma task_file_inj:
  assumes "cv_date E1 = cv_date E2" and "iv1 \<in> {QUARTERLY, HOURLY}" and "iv2 \<in> {QUARTERLY, HOURLY}"
    and "e1 \<in> {''json'', ''txt''}" and "e2 \<in> {''json'', ''txt''}"
    and "task_file E1 dir e1 (F1, iv1) = task_file E2 dir e2 (F2, iv2)"
  shows "e1 = e2 \<and> cstr (fc_name F1) = cstr (fc_name F2) \<and> iv1 = iv2"
proof -
  have last_file: "last (task_file E dir e t) = last e" if "e \<in> {''json'', ''txt''}" for E e t
    using that by (auto simp: task_file_def)
  have "last e1 = last e2" using last_file assms(4-6) by metis
  with assms(4,5) have e: "e1 = e2" by auto
  from assms(6) have "cstr (fc_name F1) @ (''-Daily_'' @ cv_date E1 @ ''_SP'' @ dec_int (int (entries_per_day iv1)) @
      ''.'' @ e1) = cstr (fc_name F2) @ (''-Daily_'' @ cv_date E2 @ ''_SP'' @ dec_int (int (entries_per_day iv2)) @ ''.'' @ e2)"
    by (simp add: task_file_def)
  then have "cstr (fc_name F1) = cstr (fc_name F2) \<and>
      dec_int (int (entries_per_day iv1)) = dec_int (int (entries_per_day iv2))"
    using assms(1-3) e two_digits [of iv1] two_digits [of iv2]
    by (subst (asm) append_eq_append_conv) auto
  then show ?thesis using e assms(2,3) two_digits [of iv1] two_digits [of iv2] by (auto split: if_splits)
qed

text \<open>Everything that is written succeeds, on one day.\<close>

definition files_fine :: "task_env \<Rightarrow> string \<Rightarrow> bool" where
  "files_fine T D \<longleftrightarrow> (\<forall>k. cv_date (te_env T k) = D \<and> (\<forall>f. cv_fopen (te_env T k) f) \<and>
     (\<forall>js f. cv_write (te_env T k) js f))"

lemma task_done:
  assumes "files_fine T D" and "productive (te_env T k) dir data h t" and "\<not> cw_locked w"
    and "task_results (te_env T k) data h t R"
    and "cv_print (te_env T k) (results_doc (cv_junk (te_env T k)) R) = Some js"
  shows "\<exists>w1. calc_daily_averages_threadtask (te_env T k) (Some dir) (Some data) h t w = Done w1 \<and> \<not> cw_locked w1 \<and>
    (\<forall>p. fs_read (cw_fs w1) p =
       (if p = task_file (te_env T k) dir ''txt'' t then Some (summary_text (te_env T k) R (fst t))
        else if p = task_file (te_env T k) dir ''json'' t then Some js else fs_read (cw_fs w) p))"
  using task_run [OF assms(2,4), of w] assms(1,3,5)
  by (simp add: files_fine_def json_files_def Let_def)

definition prints :: "task_env \<Rightarrow> string \<Rightarrow> sql_helper \<Rightarrow> nat \<Rightarrow> facility_config \<times> results_interval \<Rightarrow> string \<Rightarrow> bool" where
  "prints T data h k t js \<longleftrightarrow> (\<exists>R. task_results (te_env T k) data h t R \<and>
     cv_print (te_env T k) (results_doc (cv_junk (te_env T k)) R) = Some js)"

text \<open>The files after a series of tasks: those of other paths are as before, and the table of every task
  has its text.\<close>

lemma run_tasks_files:
  assumes "files_fine T D" and "all_productive T dir data h k ts" and "\<not> cw_locked w"
    and "\<forall>i<length ts. prints T data h (k + i) (ts ! i) (js i)"
    and "distinct (map (\<lambda>(F, iv). (cstr (fc_name F), iv)) ts)" and "snd ` set ts \<subseteq> {QUARTERLY, HOURLY}"
  shows "\<exists>w1. run_tasks T (Some dir) (Some data) h k ts w = Done w1 \<and>
    (\<forall>p. (\<forall>t \<in> set ts. p \<notin> {task_file (te_env T 0) dir ''json'' t, task_file (te_env T 0) dir ''txt'' t}) \<longrightarrow>
       fs_read (cw_fs w1) p = fs_read (cw_fs w) p) \<and>
    (\<forall>i<length ts. fs_read (cw_fs w1) (task_file (te_env T 0) dir ''json'' (ts ! i)) = Some (js i))"
  using assms(2-6)
proof (induction ts arbitrary: k w js)
  case (Cons t ts)
  have date: "task_file (te_env T k) dir e u = task_file (te_env T 0) dir e u" for e u
    using assms(1) by (simp add: task_file_def files_fine_def)
  have t: "te_add T k" "productive (te_env T k) dir data h t" "all_productive T dir data h (Suc k) ts"
    using Cons.prems(1) by simp_all
  from Cons.prems(3) have "prints T data h k t (js 0)" by force
  then obtain R where R: "task_results (te_env T k) data h t R"
    "cv_print (te_env T k) (results_doc (cv_junk (te_env T k)) R) = Some (js 0)" by (auto simp: prints_def)
  from task_done [OF assms(1) t(2) Cons.prems(2) R] obtain w1 where
    w1: "calc_daily_averages_threadtask (te_env T k) (Some dir) (Some data) h t w = Done w1" "\<not> cw_locked w1"
    "\<And>p. fs_read (cw_fs w1) p =
       (if p = task_file (te_env T 0) dir ''txt'' t then Some (summary_text (te_env T k) R (fst t))
        else if p = task_file (te_env T 0) dir ''json'' t then Some (js 0) else fs_read (cw_fs w) p)"
    unfolding date by blast
  have "\<forall>i<length ts. prints T data h (Suc k + i) (ts ! i) (js (Suc i))"
    using Cons.prems(3) by auto
  from Cons.IH [OF t(3) w1(2) this] Cons.prems(4,5) obtain w2 where
    w2: "run_tasks T (Some dir) (Some data) h (Suc k) ts w1 = Done w2"
    "\<And>p. (\<forall>t \<in> set ts. p \<notin> {task_file (te_env T 0) dir ''json'' t, task_file (te_env T 0) dir ''txt'' t}) \<Longrightarrow>
       fs_read (cw_fs w2) p = fs_read (cw_fs w1) p"
    "\<And>i. i < length ts \<Longrightarrow> fs_read (cw_fs w2) (task_file (te_env T 0) dir ''json'' (ts ! i)) = Some (js (Suc i))"
    by auto
  have other: "task_file (te_env T 0) dir ''json'' t \<notin>
      {task_file (te_env T 0) dir ''json'' u, task_file (te_env T 0) dir ''txt'' u}" if "u \<in> set ts" for u
  proof -
    obtain F iv F' iv' where tu: "t = (F, iv)" "u = (F', iv')" by force
    have "(cstr (fc_name F), iv) \<noteq> (cstr (fc_name F'), iv')"
      using Cons.prems(4) imageI [OF that, of "\<lambda>(F, iv). (cstr (fc_name F), iv)"] by (auto simp: tu)
    moreover have "iv \<in> {QUARTERLY, HOURLY}" "iv' \<in> {QUARTERLY, HOURLY}"
      using Cons.prems(5) imageI [OF that, of snd] by (auto simp: tu)
    ultimately show ?thesis
      using task_file_inj [of "te_env T 0" "te_env T 0" iv iv' "''json''" "''json''" dir F F']
        task_file_inj [of "te_env T 0" "te_env T 0" iv iv' "''json''" "''txt''" dir F F']
      unfolding tu by blast
  qed
  have own: "task_file (te_env T 0) dir ''json'' t \<noteq> task_file (te_env T 0) dir ''txt'' t"
  proof -
    obtain F iv where "t = (F, iv)" by (cases t)
    with Cons.prems(5) task_file_inj [of "te_env T 0" "te_env T 0" iv iv "''json''" "''txt''" dir F F]
    show ?thesis by auto
  qed
  have first: "fs_read (cw_fs w2) (task_file (te_env T 0) dir ''json'' t) = Some (js 0)"
    using w2(2) [of "task_file (te_env T 0) dir ''json'' t"] other own by (simp add: w1(3))
  show ?case
  proof (intro exI conjI allI impI)
    show "run_tasks T (Some dir) (Some data) h k (t # ts) w = Done w2" by (simp add: t(1) w1(1) w2(1))
    show "fs_read (cw_fs w2) p = fs_read (cw_fs w) p"
      if "\<forall>u \<in> set (t # ts). p \<notin> {task_file (te_env T 0) dir ''json'' u, task_file (te_env T 0) dir ''txt'' u}" for p
      using that w2(2) [of p] by (simp add: w1(3))
    show "fs_read (cw_fs w2) (task_file (te_env T 0) dir ''json'' ((t # ts) ! i)) = Some (js i)"
      if "i < length (t # ts)" for i
      using that first w2(3) by (cases i) auto
  qed
qed simp

lemma distinct_tasks:
  "distinct (map (cstr \<circ> fc_name) fs) \<Longrightarrow>
   distinct (map (\<lambda>(F, iv). (cstr (fc_name F), iv)) (calc_tasks fs))"
  by (induction fs) (auto simp: calc_tasks_def)

text \<open>A path without a slash in its last part lies in the directory before it.\<close>

lemma task_file_dir:
  assumes "CHR ''/'' \<notin> set (cstr (fc_name (fst t)))" and "CHR ''/'' \<notin> set (cv_date E)"
    and "snd t \<in> {QUARTERLY, HOURLY}" and "CHR ''/'' \<notin> set ext"
  shows "path_dir (task_file E dir ext t) = dir"
proof -
  have "CHR ''/'' \<notin> set (dec_int (int (entries_per_day (snd t))))"
    using assms(3) two_digits [of "snd t"] by auto
  then show ?thesis using assms(1,2,4) by (simp add: task_file_def)
qed

lemma two_directories:
  assumes "dir \<noteq> dir'" and "CHR ''/'' \<notin> set D" and "cv_date E = D"
    and "\<forall>F \<in> set fs. CHR ''/'' \<notin> set (cstr (fc_name F))"
    and "t \<in> set (calc_tasks fs)" and "u \<in> set (calc_tasks fs)"
  shows "task_file E dir' ''json'' u \<notin> {task_file E dir ''json'' t, task_file E dir ''txt'' t}"
proof -
  have *: "path_dir (task_file E x e v) = x" if "v \<in> set (calc_tasks fs)" "e \<in> {''json'', ''txt''}" for x e v
  proof (rule task_file_dir)
    show "CHR ''/'' \<notin> set (cstr (fc_name (fst v)))" using that(1) assms(4) by (auto simp: calc_tasks_def)
    show "snd v \<in> {QUARTERLY, HOURLY}" using that(1) by (auto simp: calc_tasks_def)
  qed (use assms(2,3) that(2) in auto)
  then show ?thesis using assms(1,5,6) by (metis insert_iff singletonD)
qed

text \<open>C5: When all tasks of a calculation have results and all files can be written, the calculation
  returns, whatever directory it is told to write to. The facilities have distinct names, every task sees the
  same date, and so does the request. If the directory is the default, then afterwards a request of
  \<open>/average-daily\<close> for any of the facilities, with 96 or 24 entries, is answered 200 with the JSON text that
  was printed for that table. If it is any other, as \<open>data.calcs.dir\<close> allows, the answer is the one the request
  had before the calculation: the server looks in the default directory only, so no report of the calculation
  is served. Paths are compared as their text, and for the second part names and date have no slash.\<close>

theorem reports_are_served:
  assumes "files_fine T D" and "all_productive T dir data h 0 (calc_tasks fs)"
    and "\<forall>i<2 * length fs. prints T data h i (calc_tasks fs ! i) (js i)"
    and "fs \<noteq> []" and "distinct (map (cstr \<circ> fc_name) fs)"
    and "te_pool T" and "\<forall>n. te_mem T n" and "\<not> cw_locked w"
    and "i < 2 * length fs" and "calc_tasks fs ! i = (F, iv)"
  shows "\<exists>w1. calc_create_reports T (Some dir) (Some data) fs h w = Done (SUCCESS, w1) \<and>
    (\<forall>E c a. (\<forall>n. av_mem E n) \<and> av_date E ''%Y-%m-%d'' (av_now E) = D \<and> ap_fs a = cw_fs w1 \<and>
       daily_request (request c) = \<lparr>dp_name = Some (cstr (fc_name F)), dp_type = None,
         dp_epd = int (entries_per_day iv)\<rparr> \<longrightarrow>
       (dir = calcs_default_directory \<longrightarrow>
          osi_get_average_daily E (c, a) = respond_with E 200 ''application/json'' (js i) (c, a)) \<and>
       (dir \<noteq> calcs_default_directory \<and> CHR ''/'' \<notin> set D \<and>
          (\<forall>F' \<in> set fs. CHR ''/'' \<notin> set (cstr (fc_name F'))) \<longrightarrow>
          (let (r, c1, a1) = osi_get_average_daily E (c, a);
               (r0, c0, a0) = osi_get_average_daily E (c, a\<lparr>ap_fs := cw_fs w\<rparr>)
           in r = r0 \<and> c1 = c0)))"
proof -
  let ?ts = "calc_tasks fs" and ?f = "task_file (te_env T 0) calcs_default_directory ''json'' (F, iv)"
  have len: "length ?ts = 2 * length fs" by (induction fs) (simp_all add: calc_tasks_def)
  have ivs: "snd ` set ?ts \<subseteq> {QUARTERLY, HOURLY}" by (auto simp: tasks_intervals)
  have "\<forall>i<length ?ts. prints T data h (0 + i) (?ts ! i) (js i)" using assms(3) len by simp
  from run_tasks_files [OF assms(1,2,8) this distinct_tasks [OF assms(5)] ivs] obtain w1 where
    run: "run_tasks T (Some dir) (Some data) h 0 ?ts w = Done w1" and
    other: "\<And>p. (\<forall>t \<in> set ?ts. p \<notin> {task_file (te_env T 0) dir ''json'' t, task_file (te_env T 0) dir ''txt'' t}) \<Longrightarrow>
       fs_read (cw_fs w1) p = fs_read (cw_fs w) p" and
    files: "\<forall>i<length ?ts. fs_read (cw_fs w1) (task_file (te_env T 0) dir ''json'' (?ts ! i)) = Some (js i)"
    by blast
  have date: "cv_date (te_env T 0) = D" "cv_date (te_env T i) = D" using assms(1) by (simp_all add: files_fine_def)
  have task: "(F, iv) \<in> set ?ts" using assms(9,10) len by (metis nth_mem)
  have "productive (te_env T i) dir data h (F, iv)"
    using assms(2,9,10) len by (auto simp: all_productive_def)
  then have short: "length (task_file (te_env T 0) dir ''json'' (F, iv)) < 512"
    using date by (simp add: productive_def task_file_def)
  have "fs_read (cw_fs w1) (task_file (te_env T 0) dir ''json'' (F, iv)) = Some (js i)"
    using files assms(9,10) len by auto
  then have "osi_get_average_daily E (c, a) = respond_with E 200 ''application/json'' (js i) (c, a)"
    if "\<forall>n. av_mem E n" "av_date E ''%Y-%m-%d'' (av_now E) = D" "ap_fs a = cw_fs w1" "dir = calcs_default_directory"
      "daily_request (request c) = \<lparr>dp_name = Some (cstr (fc_name F)), dp_type = None,
         dp_epd = int (entries_per_day iv)\<rparr>" for E :: "'j api_env" and c a
    using that short date
    by (simp add: osi_get_average_daily_def calc_name_get_daily_def task_file_def Let_def)
  moreover have "(let (r, c1, a1) = osi_get_average_daily E (c, a);
        (r0, c0, a0) = osi_get_average_daily E (c, a\<lparr>ap_fs := cw_fs w\<rparr>) in r = r0 \<and> c1 = c0)"
    if "av_date E ''%Y-%m-%d'' (av_now E) = D" "ap_fs a = cw_fs w1" "dir \<noteq> calcs_default_directory"
      "CHR ''/'' \<notin> set D" "\<forall>F' \<in> set fs. CHR ''/'' \<notin> set (cstr (fc_name F'))"
      "daily_request (request c) = \<lparr>dp_name = Some (cstr (fc_name F)), dp_type = None,
         dp_epd = int (entries_per_day iv)\<rparr>" for E :: "'j api_env" and c a
  proof -
    have "fs_read (cw_fs w1) ?f = fs_read (cw_fs w) ?f"
      using two_directories [OF that(3,4) date(1) that(5) _ task] by (intro other) blast
    then show ?thesis using that(1,2,6) date(1)
      by (simp add: osi_get_average_daily_def calc_name_get_daily_def task_file_def respond_with_def Let_def
          split: option.split prod.split)
  qed
  moreover have "calc_create_reports T (Some dir) (Some data) fs h w = Done (SUCCESS, w1)"
    using assms(4,6,7) run by (simp add: calc_create_reports_def)
  ultimately show ?thesis by blast
qed

text \<open>One calculation writes to the default directory and is served, one to another directory and is not.\<close>

definition asked_report :: http_conn where
  "asked_report = asked HTTP_GET ''/api/v1/average-daily'' [(''name'', ''a''), (''sp'', ''24'')] []"

definition epoch_env :: "tree api_env" where
  "epoch_env = plain_env\<lparr>av_date := \<lambda>f t. ''1970-01-01''\<rparr>"

theorem reports_are_served_witness:
  "(\<exists>w1. calc_create_reports (plain_tasks (\<lambda>f. True)) (Some calcs_default_directory) (Some ''/d'') [plain_facility]
        (day_helper 96) no_world = Done (SUCCESS, w1) \<and>
     (let a = plain_api\<lparr>ap_fs := cw_fs w1\<rparr>
      in osi_get_average_daily epoch_env (asked_report, a) =
           respond_with epoch_env 200 ''application/json'' ''x'' (asked_report, a))) \<and>
   (\<exists>w1. calc_create_reports (plain_tasks (\<lambda>f. True)) (Some ''/r'') (Some ''/d'') [plain_facility]
        (day_helper 96) no_world = Done (SUCCESS, w1) \<and>
     fst (snd (osi_get_average_daily epoch_env (asked_report, plain_api\<lparr>ap_fs := cw_fs w1\<rparr>))) =
     fst (snd (osi_get_average_daily epoch_env (asked_report, plain_api\<lparr>ap_fs := cw_fs no_world\<rparr>))))"
proof -
  let ?T = "plain_tasks (\<lambda>f. True)" and ?D = "''1970-01-01''"
  have fine: "files_fine ?T ?D" by (simp add: files_fine_def plain_tasks_def plain_calc_env_def)
  have ts: "calc_tasks [plain_facility] = [(plain_facility, QUARTERLY), (plain_facility, HOURLY)]"
    by (simp add: calc_tasks_def)
  have prod: "all_productive ?T dir ''/d'' (day_helper 96) 0 (calc_tasks [plain_facility])"
    if "length dir < 100" for dir by (rule plain_all_productive) (use that in simp)
  then have "\<exists>R. task_results (te_env ?T i) ''/d'' (day_helper 96) (calc_tasks [plain_facility] ! i) R" if "i < 2" for i
    using that prod [of "[]"] by (auto simp: all_productive_def productive_def ts)
  then have prints: "\<forall>i<2 * length [plain_facility].
      prints ?T ''/d'' (day_helper 96) i (calc_tasks [plain_facility] ! i) ''x''"
    by (auto simp: prints_def plain_tasks_def plain_calc_env_def)
  have rest: "te_pool ?T" "\<forall>n. te_mem ?T n" "\<not> cw_locked no_world"
    by (simp_all add: plain_tasks_def mem_unlimited_def no_world_def)
  have one: "1 < 2 * length [plain_facility]" "calc_tasks [plain_facility] ! 1 = (plain_facility, HOURLY)"
    "distinct (map (cstr \<circ> fc_name) [plain_facility])" "[plain_facility] \<noteq> []" by (simp_all add: ts)
  note served = reports_are_served [OF fine prod prints one(4,3) rest one(1,2)]
  have asked: "daily_request (request asked_report) = \<lparr>dp_name = Some (cstr (fc_name plain_facility)),
      dp_type = None, dp_epd = int (entries_per_day HOURLY)\<rparr>" by code_simp
  have env: "(\<forall>n. av_mem epoch_env n) \<and> av_date epoch_env ''%Y-%m-%d'' (av_now epoch_env) = ?D"
    by (simp add: epoch_env_def plain_env_def mem_unlimited_def)
  have names: "CHR ''/'' \<notin> set ?D" "\<forall>F' \<in> set [plain_facility]. CHR ''/'' \<notin> set (cstr (fc_name F'))"
    by (simp, code_simp)
  have dirs: "length calcs_default_directory < 100" "length ''/r'' < 100" "''/r'' \<noteq> calcs_default_directory"
    by (simp_all add: calcs_default_directory_def)
  from served [OF dirs(1)] obtain w1 where
    w1: "calc_create_reports ?T (Some calcs_default_directory) (Some ''/d'') [plain_facility] (day_helper 96)
        no_world = Done (SUCCESS, w1)" and
    same: "\<And>(E :: tree api_env) c a. (\<forall>n. av_mem E n) \<and> av_date E ''%Y-%m-%d'' (av_now E) = ?D \<and>
       ap_fs a = cw_fs w1 \<and> daily_request (request c) = \<lparr>dp_name = Some (cstr (fc_name plain_facility)),
         dp_type = None, dp_epd = int (entries_per_day HOURLY)\<rparr> \<Longrightarrow>
       osi_get_average_daily E (c, a) = respond_with E 200 ''application/json'' ''x'' (c, a)" by blast
  have "osi_get_average_daily epoch_env (asked_report, plain_api\<lparr>ap_fs := cw_fs w1\<rparr>) =
      respond_with epoch_env 200 ''application/json'' ''x'' (asked_report, plain_api\<lparr>ap_fs := cw_fs w1\<rparr>)"
    using env asked by (intro same) simp
  moreover
  from served [OF dirs(2)] obtain w2 where
    w2: "calc_create_reports ?T (Some ''/r'') (Some ''/d'') [plain_facility] (day_helper 96) no_world = Done (SUCCESS, w2)"
    and other: "\<And>(E :: tree api_env) c a. (\<forall>n. av_mem E n) \<and> av_date E ''%Y-%m-%d'' (av_now E) = ?D \<and>
       ap_fs a = cw_fs w2 \<and> daily_request (request c) = \<lparr>dp_name = Some (cstr (fc_name plain_facility)),
         dp_type = None, dp_epd = int (entries_per_day HOURLY)\<rparr> \<Longrightarrow>
       (let (r, c1, a1) = osi_get_average_daily E (c, a);
            (r0, c0, a0) = osi_get_average_daily E (c, a\<lparr>ap_fs := cw_fs no_world\<rparr>) in r = r0 \<and> c1 = c0)"
    using dirs(3) names by blast
  have "fst (snd (osi_get_average_daily epoch_env (asked_report, plain_api\<lparr>ap_fs := cw_fs w2\<rparr>))) =
      fst (snd (osi_get_average_daily epoch_env (asked_report, plain_api\<lparr>ap_fs := cw_fs no_world\<rparr>)))"
    using other [of epoch_env "plain_api\<lparr>ap_fs := cw_fs w2\<rparr>" asked_report] env asked
    by (simp add: case_prod_unfold Let_def)
  with w1 w2 calculation show ?thesis by (auto simp: Let_def)
qed

end
