(* ===== verification/Weather_Source.thy ===== *)
theory Weather_Source
  imports Spot_Source
begin

text \<open>
  Where the weather comes from: the client of the weather service (\<open>optimizer/src/meteo.c\<close>) and the handler
  that stores it in the cache database (\<open>optimizer/src/weather_cache_handler.c\<close>). As in \<open>Spot_Source\<close> the
  HTTP client, cJSON and the calendar are parameters, and an outer \<open>None\<close> is an execution without defined
  behaviour: a reply that was never set, \<open>strdup\<close> of a text that is not there, or a time stamp that is
  shorter than what is copied of it. The theorems say that a stored series comes back, which replies
  make the program fall over, and what is requested for a panel that faces east.
\<close>

section \<open>The weather service\<close>

text \<open>\<open>me_date\<close> is \<open>epoch_to_utc_date_string\<close>, \<open>me_epoch\<close> is \<open>parse_iso_datetime_string_to_epoch\<close>.\<close>

record 'j meteo_env =
  me_http :: "string \<Rightarrow> string option"
  me_mem :: allocator
  me_json :: "'j json_tree"
  me_date :: "int \<Rightarrow> string"
  me_epoch :: "string \<Rightarrow> int"
  me_now :: int
  me_cache :: cache_env
  me_scan :: "facility_row list \<Rightarrow> facility_row list"

definition meteo_max_url_len :: nat where
  "meteo_max_url_len = 512"

definition meteo_values :: string where
  "meteo_values = ''shortwave_radiation,direct_radiation,diffuse_radiation,direct_normal_irradiance,'' @
     ''global_tilted_irradiance,temperature_2m,sunshine_duration,wind_speed_10m,precipitation,wind_direction_10m''"

definition meteo_place :: "flt \<Rightarrow> flt \<Rightarrow> flt \<Rightarrow> flt \<Rightarrow> string" where
  "meteo_place lat lon azimuth tilt =
     ''http://api.open-meteo.com/v1/forecast?latitude='' @ fmt_fixed 6 lat @ ''&longitude='' @ fmt_fixed 6 lon @
     ''&timezone=GMT&azimuth='' @ fmt_fixed 6 azimuth @ ''&tilt='' @ fmt_fixed 6 tilt"

text \<open>The addresses. They are printed into a buffer of 512 bytes, so the request is for what fits.\<close>

definition meteo_forecast_text :: "'j meteo_env \<Rightarrow> flt \<Rightarrow> flt \<Rightarrow> flt \<Rightarrow> flt \<Rightarrow> int \<Rightarrow> int \<Rightarrow> string" where
  "meteo_forecast_text E lat lon azimuth tilt t0 t1 =
     meteo_place lat lon azimuth tilt @ ''&minutely_15='' @ meteo_values @
     ''&start_date='' @ me_date E (t0 - 86400) @ ''&end_date='' @ me_date E t1"

definition meteo_current_text :: "flt \<Rightarrow> flt \<Rightarrow> flt \<Rightarrow> flt \<Rightarrow> string" where
  "meteo_current_text lat lon azimuth tilt = meteo_place lat lon azimuth tilt @ ''&current='' @ meteo_values"

definition meteo_get_response_json ::
  "(string \<Rightarrow> string option) \<Rightarrow> allocator \<Rightarrow> string \<Rightarrow> string option option" where
  "meteo_get_response_json http alloc url = do {
     reply \<leftarrow> http url;
     Some (if alloc (length reply + 1) then Some reply else None)
   }"

text \<open>\<open>strdup\<close> of a text that may be missing.\<close>

definition dup_text :: "allocator \<Rightarrow> string option \<Rightarrow> string option option" where
  "dup_text alloc t = do { s \<leftarrow> t; Some (if alloc (length s + 1) then Some s else None) }"

definition meteo_units :: "allocator \<Rightarrow> 'j json_tree \<Rightarrow> 'j \<Rightarrow> weather \<Rightarrow> weather option" where
  "meteo_units alloc J units W = do {
     temperature \<leftarrow> dup_text alloc (jt_text J units ''temperature_2m'');
     windspeed \<leftarrow> dup_text alloc (jt_text J units ''wind_speed_10m'');
     precipitation \<leftarrow> dup_text alloc (jt_text J units ''precipitation'');
     winddirection \<leftarrow> dup_text alloc (jt_text J units ''wind_direction_10m'');
     radiation \<leftarrow> dup_text alloc (jt_text J units ''direct_radiation'');
     Some (W\<lparr>we_temperature_unit := temperature, we_windspeed_unit := windspeed,
             we_precipitation_unit := precipitation, we_winddirection_unit := winddirection,
             we_radiation_unit := radiation\<rparr>)
   }"

text \<open>Item \<open>i\<close> of the array under a key, if both are there, and its number.\<close>

definition array_item :: "'j json_tree \<Rightarrow> 'j \<Rightarrow> string \<Rightarrow> nat \<Rightarrow> 'j option" where
  "array_item J obj key i =
     (case cj_get J obj key of None \<Rightarrow> None
      | Some a \<Rightarrow> if i < length (jt_items J a) then Some (jt_items J a ! i) else None)"

definition series_number :: "'j json_tree \<Rightarrow> 'j \<Rightarrow> string \<Rightarrow> nat \<Rightarrow> flt" where
  "series_number J obj key i =
     (case array_item J obj key i of None \<Rightarrow> 0
      | Some x \<Rightarrow> (case cj_number J x of None \<Rightarrow> 0 | Some v \<Rightarrow> v))"

definition series_int :: "'j json_tree \<Rightarrow> 'j \<Rightarrow> string \<Rightarrow> nat \<Rightarrow> int" where
  "series_int J obj key i =
     (case array_item J obj key i of None \<Rightarrow> 0
      | Some x \<Rightarrow> (case cj_number J x of None \<Rightarrow> 0 | Some v \<Rightarrow> jt_valueint J x))"

definition series_time :: "'j json_tree \<Rightarrow> (string \<Rightarrow> int) \<Rightarrow> 'j \<Rightarrow> nat \<Rightarrow> int" where
  "series_time J epoch obj i =
     (case array_item J obj ''time'' i of None \<Rightarrow> 0
      | Some x \<Rightarrow> (case cj_string J x of None \<Rightarrow> 0 | Some s \<Rightarrow> max 0 (epoch s)))"

definition forecast_value :: "'j json_tree \<Rightarrow> (string \<Rightarrow> int) \<Rightarrow> 'j \<Rightarrow> nat \<Rightarrow> weather_values" where
  "forecast_value J epoch obj i = \<lparr>
     wv_timestamp = series_time J epoch obj i,
     wv_temperature = series_number J obj ''temperature_2m'' i,
     wv_precipitation = series_number J obj ''precipitation'' i,
     wv_windspeed = series_number J obj ''wind_speed_10m'' i,
     wv_radiation_direct_n = series_number J obj ''direct_normal_irradiance'' i,
     wv_radiation_tilted = series_number J obj ''global_tilted_irradiance'' i,
     wv_radiation_direct = series_number J obj ''direct_radiation'' i,
     wv_radiation_diffuse = series_number J obj ''diffuse_radiation'' i,
     wv_radiation_shortwave = series_number J obj ''shortwave_radiation'' i,
     wv_sun_duration = series_int J obj ''sunshine_duration'' i,
     wv_winddirection_azimuth = word_of_int (series_int J obj ''wind_direction_10m'' i)\<rparr>"

text \<open>The number of values is the number of times, 0 when the times are missing.\<close>

definition series_count :: "'j json_tree \<Rightarrow> 'j \<Rightarrow> nat" where
  "series_count J obj = (case cj_get J obj ''time'' of None \<Rightarrow> 0 | Some a \<Rightarrow> length (jt_items J a))"

definition meteo_parse_forecast ::
  "'j meteo_env \<Rightarrow> string \<Rightarrow> string \<Rightarrow> weather \<Rightarrow> weather result option" where
  "meteo_parse_forecast E json interval W =
     (let J = me_json E
      in case cj_parse J (cstr json) of
        None \<Rightarrow> Some (Inl ERR_JSON_PARSE)
      | Some j \<Rightarrow>
          (case (cj_get J j interval, cj_get J j (interval @ ''_units'')) of
             (Some vals, Some units) \<Rightarrow> do {
               W1 \<leftarrow> meteo_units (me_mem E) J units
                       (W\<lparr>we_latitude := jt_double J j ''latitude'', we_longitude := jt_double J j ''longitude''\<rparr>);
               let n = series_count J vals;
               Some (if \<not> me_mem E (n * sizeof_weather_values) then Inl ERR_NO_MEMORY
                     else Inr (W1\<lparr>we_values := map (forecast_value J (me_epoch E) vals) [0..<n]\<rparr>))
             }
           | _ \<Rightarrow> Some (Inl ERR_JSON_OBJ_NOT_FOUND)))"

text \<open>The time stamp is the first 16 bytes; a shorter text is read over its end.\<close>

definition current_value :: "'j json_tree \<Rightarrow> (string \<Rightarrow> int) \<Rightarrow> 'j \<Rightarrow> weather_values option" where
  "current_value J epoch obj = do {
     time \<leftarrow> jt_text J obj ''time'';
     (if length time < 15 then None else Some \<lparr>
        wv_timestamp = epoch (take 16 time),
        wv_temperature = jt_double J obj ''temperature_2m'',
        wv_precipitation = jt_double J obj ''precipitation'',
        wv_windspeed = jt_double J obj ''wind_speed_10m'',
        wv_radiation_direct_n = jt_double J obj ''direct_normal_irradiance'',
        wv_radiation_tilted = jt_double J obj ''global_tilted_irradiance'',
        wv_radiation_direct = jt_double J obj ''direct_radiation'',
        wv_radiation_diffuse = jt_double J obj ''diffuse_radiation'',
        wv_radiation_shortwave = jt_double J obj ''shortwave_radiation'',
        wv_sun_duration = jt_int J obj ''sunshine_duration'',
        wv_winddirection_azimuth = word_of_int (jt_int J obj ''wind_direction_10m'')\<rparr>)
   }"

definition meteo_parse_current ::
  "'j meteo_env \<Rightarrow> string \<Rightarrow> string \<Rightarrow> weather \<Rightarrow> weather result option" where
  "meteo_parse_current E json interval W =
     (let J = me_json E
      in case cj_parse J (cstr json) of
        None \<Rightarrow> Some (Inl ERR_JSON_PARSE)
      | Some j \<Rightarrow>
          (case (cj_get J j interval, cj_get J j (interval @ ''_units'')) of
             (Some vals, Some units) \<Rightarrow>
               if \<not> me_mem E sizeof_weather_values then Some (Inl ERR_NO_MEMORY)
               else do {
                 W1 \<leftarrow> meteo_units (me_mem E) J units
                         (W\<lparr>we_latitude := jt_double J j ''latitude'', we_longitude := jt_double J j ''longitude''\<rparr>);
                 v \<leftarrow> current_value J (me_epoch E) vals;
                 Some (Inr (W1\<lparr>we_values := [v]\<rparr>))
               }
           | _ \<Rightarrow> Some (Inl ERR_JSON_OBJ_NOT_FOUND)))"

text \<open>A reply and its parser; every failure of the parser is \<open>ERR_INTERNAL\<close>. The copy of the address gets the
  length that the whole text would have.\<close>

definition meteo_reply ::
  "'j meteo_env \<Rightarrow> string \<Rightarrow> (string \<Rightarrow> weather result option) \<Rightarrow> weather result option" where
  "meteo_reply E address parse =
     (if \<not> me_mem E (length address + 1) then Some (Inl ERR_NO_MEMORY)
      else do {
        json \<leftarrow> meteo_get_response_json (me_http E) (me_mem E) (snprintf_trunc meteo_max_url_len address);
        case json of
          None \<Rightarrow> Some (Inl ERR_INTERNAL)
        | Some text \<Rightarrow> do {
            r \<leftarrow> parse text;
            Some (case r of Inl e \<Rightarrow> Inl ERR_INTERNAL | Inr W \<Rightarrow> Inr W)
          }
      })"

definition meteo_get_15_minutely ::
  "'j meteo_env \<Rightarrow> weather \<Rightarrow> flt \<Rightarrow> flt \<Rightarrow> flt \<Rightarrow> flt \<Rightarrow> int \<Rightarrow> int \<Rightarrow> weather result option" where
  "meteo_get_15_minutely E W lat lon azimuth tilt t0 t1 =
     meteo_reply E (meteo_forecast_text E lat lon azimuth tilt t0 t1)
       (\<lambda>json. meteo_parse_forecast E json ''minutely_15'' (W\<lparr>we_update_interval := 15\<rparr>))"

definition meteo_get_current ::
  "'j meteo_env \<Rightarrow> weather \<Rightarrow> flt \<Rightarrow> flt \<Rightarrow> flt \<Rightarrow> flt \<Rightarrow> weather result option" where
  "meteo_get_current E W lat lon azimuth tilt =
     meteo_reply E (meteo_current_text lat lon azimuth tilt)
       (\<lambda>json. meteo_parse_current E json ''current'' (W\<lparr>we_update_interval := 15\<rparr>))"

section \<open>The cache handler\<close>

record wch_conf =
  wc_latitude :: flt
  wc_longitude :: flt
  wc_panel_tilt :: int
  wc_panel_azimuth :: "32 word"
  wc_forecast :: bool

text \<open>The place and the panel are set before and after the request; the struct holds the panel in 16 bits.\<close>

definition set_place :: "wch_conf \<Rightarrow> weather \<Rightarrow> weather" where
  "set_place C W = W\<lparr>we_latitude := wc_latitude C, we_longitude := wc_longitude C,
     we_panel_tilt := word_of_int (wc_panel_tilt C), we_panel_azimuth := ucast (wc_panel_azimuth C)\<rparr>"

text \<open>The conversion of an \<open>unsigned int\<close> to \<open>float\<close>: the 24 leading bits, to the nearest and at a tie to
  the even. It matters for the azimuth, which may be close to 2 to the 32; the tilt is small, and the
  place is taken as exact, as all decimal numbers are here.\<close>

definition float_of_uint :: "32 word \<Rightarrow> flt" where
  "float_of_uint x =
     (let n = uint x; s = 2 ^ length (filter (\<lambda>k. 2 ^ (24 + k) \<le> n) [0..<8]); q = n div s; r = n mod s
      in of_int (s * (if s < 2 * r \<or> s = 2 * r \<and> odd q then q + 1 else q)))"

definition wch_request :: "'j meteo_env \<Rightarrow> wch_conf \<Rightarrow> weather \<Rightarrow> weather result option" where
  "wch_request E C W =
     (let lat = wc_latitude C; lon = wc_longitude C; azimuth = float_of_uint (wc_panel_azimuth C);
          tilt = of_int (wc_panel_tilt C)
      in if wc_forecast C
         then meteo_get_15_minutely E W lat lon azimuth tilt (me_now E) (me_now E + 7 * 86400)
         else meteo_get_current E W lat lon azimuth tilt)"

definition wch_update_cache ::
  "'j meteo_env \<Rightarrow> wch_conf \<Rightarrow> weather \<Rightarrow> sql_helper \<Rightarrow> (status \<times> sql_helper) option" where
  "wch_update_cache E C W h = do {
     r \<leftarrow> wch_request E C (set_place C W);
     Some (case r of
         Inl e \<Rightarrow> (ERR_INTERNAL, h)
       | Inr W1 \<Rightarrow> sql_helper_insert_weather (me_cache E) (me_scan E) (set_place C W1) (wc_forecast C) h)
   }"

text \<open>\<open>wch_init\<close> copies the configuration and starts with an empty struct.\<close>

definition wch_init :: "wch_conf \<Rightarrow> wch_conf \<times> weather" where
  "wch_init C = (C, no_weather)"

section \<open>What an update does\<close>

definition unit_keys :: "string list" where
  "unit_keys = [''temperature_2m'', ''wind_speed_10m'', ''precipitation'', ''wind_direction_10m'',
     ''direct_radiation'']"

lemma dup_text_None: "dup_text alloc t = None \<longleftrightarrow> t = None"
  by (cases t) (simp_all add: dup_text_def)

lemma meteo_units_None: "meteo_units alloc J units W = None \<longleftrightarrow> (\<exists>k \<in> set unit_keys. jt_text J units k = None)"
  unfolding meteo_units_def unit_keys_def
  by (cases "jt_text J units ''temperature_2m''"; cases "jt_text J units ''wind_speed_10m''";
      cases "jt_text J units ''precipitation''"; cases "jt_text J units ''wind_direction_10m''";
      cases "jt_text J units ''direct_radiation''") (simp_all add: dup_text_def)

lemma meteo_units_frame: "meteo_units alloc J units W = Some W' \<Longrightarrow>
    we_values W' = we_values W \<and> we_update_interval W' = we_update_interval W"
  by (auto simp: meteo_units_def split: bind_splits)

text \<open>The address of the forecast that is asked for.\<close>

definition request_url :: "'j meteo_env \<Rightarrow> wch_conf \<Rightarrow> string" where
  "request_url E C = snprintf_trunc meteo_max_url_len (meteo_forecast_text E (wc_latitude C) (wc_longitude C)
     (float_of_uint (wc_panel_azimuth C)) (of_int (wc_panel_tilt C)) (me_now E) (me_now E + 7 * 86400))"

text \<open>Small azimuths are exact.\<close>

lemma float_of_small: "uint x < 2 ^ 24 \<Longrightarrow> float_of_uint x = of_int (uint x)"
proof -
  assume "uint x < 2 ^ 24"
  then have "\<not> 2 ^ (24 + k) \<le> uint x" for k
    using power_increasing [of 24 "24 + k" "2 :: int"] by simp
  then have "length (filter (\<lambda>k. 2 ^ (24 + k) \<le> uint x) [0..<8]) = 0" by (simp add: filter_empty_conv)
  then show ?thesis by (simp only: float_of_uint_def Let_def power_0 div_by_1 mod_by_1) simp
qed

lemma float_of_negative:
  assumes "uint x = 2 ^ 32 + z" and "- 128 \<le> z" and "z < 0"
  shows "float_of_uint x = 2 ^ 32"
proof -
  have "2 ^ (24 + k) \<le> uint x" if "k < 8" for k
    using power_increasing [of "24 + k" 31 "2 :: int"] that assms by simp
  then have "filter (\<lambda>k. 2 ^ (24 + k) \<le> uint x) [0..<8] = [0..<8]" by (intro filter_True) simp
  then have s: "(2 :: int) ^ length (filter (\<lambda>k. 2 ^ (24 + k) \<le> uint x) [0..<8]) = 256" by simp
  have n: "uint x = 256 * (2 ^ 24 - 1) + (256 + z)" and r: "0 \<le> 256 + z" "256 + z < 256" using assms by simp_all
  have "uint x div 256 = 2 ^ 24 - 1" "uint x mod 256 = 256 + z"
    by (rule int_div_pos_eq [OF n r], rule int_mod_pos_eq [OF n r])
  moreover have "256 < 2 * (256 + z) \<or> 256 = 2 * (256 + z)" using assms(2) by arith
  ultimately show ?thesis unfolding float_of_uint_def Let_def s by auto
qed

lemma forecast_request:
  assumes "\<forall>n. me_mem E n" and "wc_forecast C"
  shows "wch_request E C W = (case me_http E (request_url E C) of
      None \<Rightarrow> None
    | Some reply \<Rightarrow> (case meteo_parse_forecast E reply ''minutely_15'' (W\<lparr>we_update_interval := 15\<rparr>) of
        None \<Rightarrow> None | Some (Inl e) \<Rightarrow> Some (Inl ERR_INTERNAL) | Some (Inr W1) \<Rightarrow> Some (Inr W1)))"
  using assms by (simp add: wch_request_def Let_def meteo_get_15_minutely_def meteo_reply_def request_url_def
      meteo_get_response_json_def bind_eq_None_conv split: option.split sum.split)

lemma forecast_parsed:
  assumes "\<forall>n. me_mem E n" and "wc_forecast C" and "me_http E (request_url E C) = Some reply"
    and "cj_parse (me_json E) (cstr reply) = Some j" and "cj_get (me_json E) j ''minutely_15'' = Some vals"
    and "cj_get (me_json E) j ''minutely_15_units'' = Some units"
    and "\<forall>k \<in> set unit_keys. jt_text (me_json E) units k \<noteq> None"
  shows "\<exists>W1. wch_request E C (set_place C no_weather) = Some (Inr (W1\<lparr>we_values :=
    map (forecast_value (me_json E) (me_epoch E) vals) [0..<series_count (me_json E) vals]\<rparr>)) \<and> we_update_interval W1 = 15"
proof -
  let ?W = "(set_place C no_weather)\<lparr>we_update_interval := 15, we_latitude := jt_double (me_json E) j ''latitude'',
    we_longitude := jt_double (me_json E) j ''longitude''\<rparr>"
  from meteo_units_None [of "me_mem E" "me_json E" units ?W] assms(7) obtain W1 where
    W1: "meteo_units (me_mem E) (me_json E) units ?W = Some W1" by blast
  then show ?thesis
    using assms(1,4,5,6) meteo_units_frame [OF W1]
    by (intro exI [of _ W1]) (simp add: forecast_request [OF assms(1,2)] assms(3) meteo_parse_forecast_def Let_def)
qed

text \<open>C22: A forecast goes through the cache unharmed. If the reply to the request has the two objects and all
  units, then for a new place the update succeeds, and a read of any range for the place and its panel
  gives the items of the reply in that range: value \<open>i\<close> is made of the \<open>i\<close>-th element of every array.\<close>

theorem forecast_stored:
  assumes "\<forall>n. me_mem E n" and "wc_forecast C" and "me_http E (request_url E C) = Some reply"
    and "cj_parse (me_json E) (cstr reply) = Some j" and "cj_get (me_json E) j ''minutely_15'' = Some vals"
    and "cj_get (me_json E) j ''minutely_15_units'' = Some units"
    and "\<forall>k \<in> set unit_keys. jt_text (me_json E) units k \<noteq> None"
  defines "vs \<equiv> map (forecast_value (me_json E) (me_epoch E) vals) [0..<series_count (me_json E) vals]"
  assumes "calls_ok (me_cache E)" and "calls_ok e" and "cache_ok t" and "\<And>xs. set (me_scan E xs) = set xs"
    and "\<forall>f \<in> set (ct_facilities t). \<not> same_place (wc_latitude C) (wc_longitude C) f"
    and "vs \<noteq> []" and "sorted_wrt (<) (map wv_timestamp vs)"
    and "\<forall>v \<in> set vs. ce_now (me_cache E) - 30 * 86400 \<le> wv_timestamp v"
  shows "\<exists>h. wch_update_cache E C no_weather \<lparr>sh_db = Some (sql_rest t), sh_locked = l\<rparr> = Some (SUCCESS, h) \<and>
    (\<exists>W. sql_helper_read_weather e (me_scan E) no_weather (wc_latitude C) (wc_longitude C)
        (uint (word_of_int (wc_panel_tilt C) :: 16 word)) (uint (ucast (wc_panel_azimuth C) :: 16 word))
        True t0 t1 h = (SUCCESS, W) \<and>
      we_values W = filter (\<lambda>v. t0 \<le> wv_timestamp v \<and> wv_timestamp v < t1) vs \<and> we_update_interval W = 15)"
proof -
  from forecast_parsed [OF assms(1-7)] obtain W1 where
    request: "wch_request E C (set_place C no_weather) = Some (Inr (W1\<lparr>we_values := vs\<rparr>))"
    and W1: "we_update_interval W1 = 15" unfolding vs_def by blast
  define W2 where "W2 = set_place C (W1\<lparr>we_values := vs\<rparr>)"
  have up: "wch_update_cache E C no_weather h = Some (sql_helper_insert_weather (me_cache E) (me_scan E) W2 True h)"
    for h using assms(2) request by (simp add: wch_update_cache_def W2_def)
  have W2: "we_values W2 = vs" "we_latitude W2 = wc_latitude C" "we_longitude W2 = wc_longitude C"
    "we_panel_tilt W2 = word_of_int (wc_panel_tilt C)" "we_panel_azimuth W2 = ucast (wc_panel_azimuth C)"
    "we_update_interval W2 = 15"
    using W1 by (simp_all add: W2_def set_place_def)
  from weather_stored [of "me_cache E" e t "me_scan E" W2 True l no_weather t0 t1] assms(9-)
  obtain h where "sql_helper_insert_weather (me_cache E) (me_scan E) W2 True
        \<lparr>sh_db = Some (sql_rest t), sh_locked = l\<rparr> = (SUCCESS, h)"
    and read: "sql_helper_read_weather e (me_scan E) no_weather (wc_latitude C) (wc_longitude C)
        (uint (word_of_int (wc_panel_tilt C) :: 16 word)) (uint (ucast (wc_panel_azimuth C) :: 16 word)) True t0 t1 h =
      (SUCCESS, W2\<lparr>we_values := filter (\<lambda>v. t0 \<le> wv_timestamp v \<and> wv_timestamp v < t1) vs,
        we_temperature_unit := Some (text_or_empty (we_temperature_unit W2)),
        we_windspeed_unit := Some (text_or_empty (we_windspeed_unit W2)),
        we_precipitation_unit := Some (text_or_empty (we_precipitation_unit W2)),
        we_winddirection_unit := Some (text_or_empty (we_winddirection_unit W2)),
        we_radiation_unit := Some (text_or_empty (we_radiation_unit W2))\<rparr>)"
    unfolding W2 by blast
  then show ?thesis using W2(6) by (simp add: up)
qed

text \<open>An update of a forecast has no defined outcome exactly when the HTTP client delivers no data, or when
  the reply has the values and the units but one of the five units that are copied is not a text.\<close>

theorem forecast_update_undefined:
  assumes "\<forall>n. me_mem E n" and "wc_forecast C"
  shows "wch_update_cache E C W h = None \<longleftrightarrow>
    (case me_http E (request_url E C) of
       None \<Rightarrow> True
     | Some reply \<Rightarrow> (\<exists>j vals units. cj_parse (me_json E) (cstr reply) = Some j \<and>
         cj_get (me_json E) j ''minutely_15'' = Some vals \<and>
         cj_get (me_json E) j ''minutely_15_units'' = Some units \<and>
         (\<exists>k \<in> set unit_keys. jt_text (me_json E) units k = None)))"
proof -
  have "wch_update_cache E C W h = None \<longleftrightarrow> wch_request E C (set_place C W) = None"
    by (simp add: wch_update_cache_def bind_eq_None_conv)
  also have "\<dots> \<longleftrightarrow> (case me_http E (request_url E C) of None \<Rightarrow> True
      | Some reply \<Rightarrow> meteo_parse_forecast E reply ''minutely_15''
          ((set_place C W)\<lparr>we_update_interval := 15\<rparr>) = None)"
    by (auto simp: forecast_request [OF assms] split: option.split sum.split)
  finally show ?thesis
    by (auto simp: meteo_parse_forecast_def Let_def bind_eq_None_conv meteo_units_None split: option.splits)
qed

section \<open>An instance\<close>

definition sample_units :: json_doc where
  "sample_units = J_obj [(''temperature_2m'', J_str ''C''), (''wind_speed_10m'', J_str ''km/h''),
     (''precipitation'', J_str ''mm''), (''wind_direction_10m'', J_str ''deg''), (''direct_radiation'', J_str ''W'')]"

definition sample_series :: json_doc where
  "sample_series = J_obj [(''time'', J_list [J_str ''a'', J_str ''b'']),
     (''temperature_2m'', J_list [J_num 5, J_num 6])]"

definition sample_forecast :: "json_doc \<Rightarrow> json_doc" where
  "sample_forecast units = J_obj [(''latitude'', J_num 59), (''minutely_15'', sample_series),
     (''minutely_15_units'', units)]"

definition plain_meteo_env :: "json_doc \<Rightarrow> json_doc meteo_env" where
  "plain_meteo_env reply = \<lparr>me_http = (\<lambda>url. Some ''x''), me_mem = mem_unlimited,
     me_json = doc_tree (\<lambda>s. Some reply), me_date = (\<lambda>t. ''2026-01-26''),
     me_epoch = (\<lambda>s. if s = ''a'' then 900 else 1800), me_now = 0, me_cache = calls_fine 0, me_scan = rev\<rparr>"

definition plain_wch :: wch_conf where
  "plain_wch = \<lparr>wc_latitude = 59, wc_longitude = 18, wc_panel_tilt = 30, wc_panel_azimuth = 0, wc_forecast = True\<rparr>"

lemma plain_meteo_simps:
  "me_http (plain_meteo_env reply) url = Some ''x''" "\<forall>n. me_mem (plain_meteo_env reply) n"
  "cj_parse (me_json (plain_meteo_env reply)) s = Some reply"
  "me_cache (plain_meteo_env reply) = calls_fine 0" "me_scan (plain_meteo_env reply) = rev"
  "wc_forecast plain_wch"
  by (simp_all add: plain_meteo_env_def plain_wch_def mem_unlimited_def doc_tree_def)

theorem forecast_stored_witness:
  "\<exists>h W. wch_update_cache (plain_meteo_env (sample_forecast sample_units)) plain_wch no_weather
      \<lparr>sh_db = Some (sql_rest no_tables), sh_locked = False\<rparr> = Some (SUCCESS, h) \<and>
    sql_helper_read_weather (calls_fine 0) rev no_weather 59 18 30 0 True 1000 2000 h = (SUCCESS, W) \<and>
    map wv_temperature (we_values W) = [6]"
proof -
  let ?E = "plain_meteo_env (sample_forecast sample_units)"
  let ?J = "me_json ?E"
  let ?vs = "map (forecast_value ?J (me_epoch ?E) sample_series) [0..<series_count ?J sample_series]"
  have get: "cj_get ?J (sample_forecast sample_units) ''minutely_15'' = Some sample_series"
    "cj_get ?J (sample_forecast sample_units) ''minutely_15_units'' = Some sample_units" by code_simp+
  have units: "\<forall>k \<in> set unit_keys. jt_text ?J sample_units k \<noteq> None" by code_simp
  have vs: "map wv_timestamp ?vs = [900, 1800]" "map wv_temperature ?vs = [5, 6]" by code_simp+
  have "ce_now (me_cache ?E) - 30 * 86400 \<le> t" if "t \<in> set (map wv_timestamp ?vs)" for t
    using that unfolding vs(1) by (auto simp: plain_meteo_simps)
  then have recent: "\<forall>v \<in> set ?vs. ce_now (me_cache ?E) - 30 * 86400 \<le> wv_timestamp v" by simp
  have sorted: "sorted_wrt (<) (map wv_timestamp ?vs)" unfolding vs(1) by simp
  have ne: "?vs \<noteq> []" using vs(1) by fastforce
  have env: "calls_ok (me_cache ?E)" "\<And>xs. set (me_scan ?E xs) = set xs"
    "\<forall>f \<in> set (ct_facilities no_tables). \<not> same_place (wc_latitude plain_wch) (wc_longitude plain_wch) f"
    by (simp_all add: plain_meteo_simps no_tables_def)
  have conf: "wc_latitude plain_wch = 59" "wc_longitude plain_wch = 18"
    "uint (word_of_int (wc_panel_tilt plain_wch) :: 16 word) = 30"
    "uint (ucast (wc_panel_azimuth plain_wch) :: 16 word) = 0"
    by (simp_all add: plain_wch_def)
  note stored = forecast_stored [OF plain_meteo_simps(2,6,1,3) get units env(1) calls_fine_ok(1) [of 0] no_tables_ok
      env(2,3) ne sorted recent, of False 1000 2000, unfolded conf plain_meteo_simps(5)]
  obtain h W where hW: "wch_update_cache ?E plain_wch no_weather
      \<lparr>sh_db = Some (sql_rest no_tables), sh_locked = False\<rparr> = Some (SUCCESS, h)"
    "sql_helper_read_weather (calls_fine 0) rev no_weather 59 18 30 0 True 1000 2000 h = (SUCCESS, W)"
    "we_values W = filter (\<lambda>v. 1000 \<le> wv_timestamp v \<and> wv_timestamp v < 2000) ?vs"
    using stored by (elim exE conjE) (rule that)
  have "map wv_temperature (filter (\<lambda>v. 1000 \<le> wv_timestamp v \<and> wv_timestamp v < 2000) ?vs) = [6]" by code_simp
  then have "map wv_temperature (we_values W) = [6]" unfolding hW(3) .
  with hW(1,2) show ?thesis by (intro exI conjI)
qed

theorem forecast_update_undefined_witness:
  "wch_update_cache (plain_meteo_env (sample_forecast (J_obj []))) plain_wch no_weather
     \<lparr>sh_db = Some (sql_rest no_tables), sh_locked = False\<rparr> = None"
proof -
  let ?E = "plain_meteo_env (sample_forecast (J_obj []))"
  have "cj_get (me_json ?E) (sample_forecast (J_obj [])) ''minutely_15'' = Some sample_series"
    "cj_get (me_json ?E) (sample_forecast (J_obj [])) ''minutely_15_units'' = Some (J_obj [])"
    "jt_text (me_json ?E) (J_obj []) ''temperature_2m'' = None" by code_simp+
  then have "\<exists>j vals units. cj_parse (me_json ?E) (cstr ''x'') = Some j \<and>
      cj_get (me_json ?E) j ''minutely_15'' = Some vals \<and> cj_get (me_json ?E) j ''minutely_15_units'' = Some units \<and>
      (\<exists>k \<in> set unit_keys. jt_text (me_json ?E) units k = None)"
    by (intro exI conjI) (rule plain_meteo_simps(3) | assumption | simp add: unit_keys_def)+
  with forecast_update_undefined [OF plain_meteo_simps(2,6), of "sample_forecast (J_obj [])"]
  show ?thesis unfolding plain_meteo_simps(1) by simp
qed

end
