(* ===== verification/Optimizer.thy ===== *)
theory Optimizer
  imports Facility Price_Calc Weather_Source Spot_Analysis
begin

text \<open>
  The optimizer (\<open>optimizer/src/optimizer.c\<close>): its configuration, which is read again on request, and a
  run, which fills the caches for all price classes and facilities and then makes the reports. The run
  composes the cache handlers, the calculations and the analysis of the consumption. The strings of
  the configuration are pointers that may dangle. The threads of the pool interleave the steps of the cache
  tasks in an order that is a parameter. The theorems say which sequences of reloads are safe, what a
  run makes of the caches, what it leaves open, and what becomes of a panel that faces east.
\<close>

lemma then_run_iff:
  "then_run r f = Done x \<longleftrightarrow> (\<exists>a. r = Done a \<and> f a = Done x)"
  "then_run r f = Undefined \<longleftrightarrow> r = Undefined \<or> (\<exists>a. r = Done a \<and> f a = Undefined)"
  "then_run r f = Blocks \<longleftrightarrow> r = Blocks \<or> (\<exists>a. r = Done a \<and> f a = Blocks)"
  by (cases r; simp)+

text \<open>Tasks that work in steps on a shared state. A schedule names the task that makes the next step; the
  phases of the tasks are kept beside them.\<close>

fun run_schedule ::
  "('e \<Rightarrow> 'p \<Rightarrow> 'h \<Rightarrow> ('p \<times> 'h) run) \<Rightarrow> 'e list \<Rightarrow> nat list \<Rightarrow> 'p list \<Rightarrow> 'h \<Rightarrow> ('p list \<times> 'h) run" where
  "run_schedule f es [] ps h = Done (ps, h)"
| "run_schedule f es (k # ks) ps h =
     (if k < length es
      then then_run (f (es ! k) (ps ! k) h) (\<lambda>(p, h1). run_schedule f es ks (ps[k := p]) h1)
      else run_schedule f es ks ps h)"

section \<open>The configuration\<close>

text \<open>A pointer field: NULL, a live block, or a block that was freed. Freeing it leaves the field as it is.\<close>

datatype 'a cptr = Null | Valid 'a | Dangling

fun free_ptr :: "'a cptr \<Rightarrow> 'a cptr run" where
  "free_ptr Null = Done Null"
| "free_ptr (Valid x) = Done Dangling"
| "free_ptr Dangling = Undefined"

text \<open>\<open>oc_facilities\<close> is the array or NULL, \<open>oc_count\<close> its length.\<close>

record optimizer_config =
  oc_data_dir :: "string cptr"
  oc_calcs_dir :: "string cptr"
  oc_facility_dir :: "string cptr"
  oc_facilities :: "facility_config list option"
  oc_count :: nat
  oc_max_threads :: "8 word"

text \<open>\<open>oe_get\<close> is the result of \<open>config_get_value\<close>: a failure, or the text each key's buffer holds then.\<close>

record config_env =
  oe_get :: "(string \<Rightarrow> string) result"
  oe_mem :: allocator
  oe_config :: "string \<Rightarrow> string \<Rightarrow> string option"
  oe_list :: "string \<Rightarrow> string list option"

text \<open>The number of threads is stored in 8 bits.\<close>

definition threads_of :: "string \<Rightarrow> 8 word" where
  "threads_of s = (if 0 < c_atoi s then word_of_int (c_atoi s) else 1)"

text \<open>A value that is empty leaves the field alone.\<close>

definition set_string :: "allocator \<Rightarrow> string \<Rightarrow> string cptr \<Rightarrow> bool \<times> string cptr" where
  "set_string alloc s p =
     (if cstr s = [] then (True, p)
      else if alloc (length (cstr s) + 1) then (True, Valid (cstr s)) else (False, Null))"

definition load_facilities :: "config_env \<Rightarrow> optimizer_config \<Rightarrow> (status \<times> optimizer_config) run" where
  "load_facilities E C =
     (case oc_facility_dir C of
        Dangling \<Rightarrow> Undefined
      | Null \<Rightarrow> Done (ERR_INTERNAL, C)
      | Valid dir \<Rightarrow>
          (case facility_get_configs (facility_parse_config (oe_mem E) (oe_config E)) (oe_mem E) (oe_list E) dir of
             (fs, ws) \<Rightarrow> Done (if fs = None then ERR_INTERNAL else SUCCESS,
                              C\<lparr>oc_facilities := fs, oc_count := length ws\<rparr>)))"

definition load_values ::
  "config_env \<Rightarrow> (string \<Rightarrow> string) \<Rightarrow> optimizer_config \<Rightarrow> (status \<times> optimizer_config) run" where
  "load_values E v C =
     (let C1 = C\<lparr>oc_max_threads := threads_of (v ''sys.max_threads'')\<rparr>;
          (ok1, d) = set_string (oe_mem E) (v ''data.dir'') (oc_data_dir C1); C2 = C1\<lparr>oc_data_dir := d\<rparr>;
          (ok2, c) = set_string (oe_mem E) (v ''data.calcs.dir'') (oc_calcs_dir C2); C3 = C2\<lparr>oc_calcs_dir := c\<rparr>;
          (ok3, f) = set_string (oe_mem E) (v ''facility.conf.dir'') (oc_facility_dir C3)
      in if \<not> ok1 then Done (ERR_NO_MEMORY, C2)
         else if \<not> ok2 then Done (ERR_NO_MEMORY, C3)
         else if \<not> ok3 then Done (ERR_NO_MEMORY, C3\<lparr>oc_facility_dir := f\<rparr>)
         else load_facilities E (C3\<lparr>oc_facility_dir := f\<rparr>))"

definition optimizer_config_set ::
  "config_env \<Rightarrow> optimizer_config \<Rightarrow> (status \<times> optimizer_config) run" where
  "optimizer_config_set E C =
     then_run (free_ptr (oc_data_dir C)) (\<lambda>d. then_run (free_ptr (oc_calcs_dir C)) (\<lambda>c.
       then_run (free_ptr (oc_facility_dir C)) (\<lambda>f.
         let C1 = C\<lparr>oc_facilities := None, oc_count := 0, oc_data_dir := d, oc_calcs_dir := c,
                    oc_facility_dir := f\<rparr>
         in case oe_get E of Inl e \<Rightarrow> Done (e, C1) | Inr v \<Rightarrow> load_values E v C1)))"

section \<open>The optimizer\<close>

text \<open>\<open>op_lost\<close> counts the connections that were open when the handle was overwritten.\<close>

record optimizer =
  op_config :: optimizer_config
  op_sql :: sql_helper
  op_lost :: nat

definition zero_optimizer :: optimizer where
  "zero_optimizer = \<lparr>op_config = \<lparr>oc_data_dir = Null, oc_calcs_dir = Null, oc_facility_dir = Null,
     oc_facilities = None, oc_count = 0, oc_max_threads = 0\<rparr>,
     op_sql = \<lparr>sh_db = None, sh_locked = False\<rparr>, op_lost = 0\<rparr>"

definition optimizer_init :: "config_env \<Rightarrow> bool \<Rightarrow> (status \<times> optimizer) run" where
  "optimizer_init E mutex_ok =
     then_run (optimizer_config_set E (op_config zero_optimizer)) (\<lambda>(res, C).
       let Z = zero_optimizer\<lparr>op_config := C\<rparr>
       in if res \<noteq> SUCCESS then Done (res, Z)
          else case sql_helper_init mutex_ok (op_sql Z) of
            (res2, h) \<Rightarrow> Done (if res2 \<noteq> SUCCESS then ERR_FATAL else SUCCESS, Z\<lparr>op_sql := h\<rparr>))"

definition optimizer_dispose :: "optimizer \<Rightarrow> unit run" where
  "optimizer_dispose Z =
     then_run (free_ptr (oc_data_dir (op_config Z))) (\<lambda>_. then_run (free_ptr (oc_calcs_dir (op_config Z)))
       (\<lambda>_. then_run (free_ptr (oc_facility_dir (op_config Z))) (\<lambda>_. Done ())))"

section \<open>A run\<close>

text \<open>What a run changes: the databases by their path, the files of the calculations and their mutex, and
  the files the analysis wrote. \<open>ow_meter\<close> is the store of meter readings of the server, which it reads.\<close>

record opti_world =
  ow_db :: "string \<Rightarrow> cache_tables"
  ow_calc :: calc_world
  ow_meter :: meter_db
  ow_reports :: report_files

datatype cache_task = Ech_task spot_price_class | Wch_task wch_conf

text \<open>Task \<open>i\<close> has the environments \<open>ru_ech i\<close> and \<open>ru_wch i\<close>. \<open>ru_schedule\<close> is the order in which the
  threads of the pool make the steps of the tasks that were added, by the position of the task. \<open>ru_rows\<close>
  and \<open>ru_report\<close> are the input of the analysis, whose spot prices
  are read through the connection of the run with the calls \<open>ru_reads\<close>.\<close>

record 'j run_env =
  ru_open :: bool
  ru_schema :: bool
  ru_pool :: "8 word \<Rightarrow> bool"
  ru_mem :: allocator
  ru_add :: "nat \<Rightarrow> bool"
  ru_schedule :: "nat list"
  ru_ech :: "nat \<Rightarrow> 'j spot_env"
  ru_wch :: "nat \<Rightarrow> 'j meteo_env"
  ru_calc :: task_env
  ru_local :: local_time
  ru_today :: int
  ru_rows :: rows_env
  ru_report :: "facility_config \<Rightarrow> report_env"
  ru_reads :: "int \<Rightarrow> int \<Rightarrow> cache_env"

definition optimizer_run_ech :: "'j spot_env \<Rightarrow> string \<Rightarrow> spot_price_class \<Rightarrow> sql_helper \<Rightarrow> sql_helper run" where
  "optimizer_run_ech E dir pc h =
     (case ech_update_cache E (ech_init (Some dir) pc SPOT_SEK) h of
        None \<Rightarrow> Undefined | Some (res, H, h1) \<Rightarrow> Done h1)"

definition optimizer_run_wch :: "'j meteo_env \<Rightarrow> wch_conf \<Rightarrow> sql_helper \<Rightarrow> sql_helper run" where
  "optimizer_run_wch E conf h =
     (case wch_init conf of (C, W) \<Rightarrow>
        (case wch_update_cache E C W h of None \<Rightarrow> Undefined | Some (res, h1) \<Rightarrow> Done h1))"

text \<open>The azimuth is a \<open>short\<close> that becomes an \<open>unsigned int\<close>.\<close>

definition wch_conf_for :: "facility_config \<Rightarrow> bool \<Rightarrow> wch_conf" where
  "wch_conf_for F forecast = \<lparr>wc_latitude = fc_lat F, wc_longitude = fc_lon F,
     wc_panel_tilt = (case fc_panel F of None \<Rightarrow> 0 | Some p \<Rightarrow> uint (pn_tilt p)),
     wc_panel_azimuth = (case fc_panel F of None \<Rightarrow> 0 | Some p \<Rightarrow> scast (pn_azimuth p)),
     wc_forecast = forecast\<rparr>"

definition ech_tasks :: "cache_task list" where
  "ech_tasks = map (\<lambda>i. Ech_task (price_class_of (int i))) [0..<4]"

definition wch_tasks :: "facility_config list \<Rightarrow> cache_task list" where
  "wch_tasks fs = concat (map (\<lambda>F. [Wch_task (wch_conf_for F True), Wch_task (wch_conf_for F False)]) fs)"

text \<open>The operations on the database hold its mutex, so they are the steps that can be interleaved. A price
  task reads and, if the day is missing, fetches; then it stores. What it reads again after that goes into a
  struct that is disposed of. A weather task fetches and stores the facility, and then the values.\<close>

datatype task_phase = Start | Store_spots electricity_spots | Store_weather int weather | Stop

definition ech_begin :: "'j spot_env \<Rightarrow> ech \<Rightarrow> sql_helper \<Rightarrow> electricity_spots option option" where
  "ech_begin E H h =
     (case sql_helper_read_spots (se_read E)
             ((eh_spot H)\<lparr>es_price_class := eh_price_class H, es_currency := eh_currency H\<rparr>)
             (eh_price_class H) (eh_currency H) (day_start E) (day_start E + 86400) h of
        (res, S1) \<Rightarrow>
          if res \<noteq> SUCCESS \<or> es_prices S1 \<noteq> [] then Some None
          else do {
            fetched \<leftarrow> epjn_update E (es_price_class S1) (target_day E);
            case fetched of
              Inl e \<Rightarrow> Some None
            | Inr P \<Rightarrow> do {
                parsed \<leftarrow> epjn_parse (se_mem E) P (eh_currency H) S1;
                Some (case parsed of Inl e \<Rightarrow> None | Inr S2 \<Rightarrow> Some S2)
              }
          })"

definition wch_begin ::
  "'j meteo_env \<Rightarrow> wch_conf \<Rightarrow> weather \<Rightarrow> sql_helper \<Rightarrow> ((int \<times> weather) option \<times> sql_helper) option" where
  "wch_begin E C W h = do {
     r \<leftarrow> wch_request E C (set_place C W);
     Some (case r of
         Inl e \<Rightarrow> (None, h)
       | Inr W1 \<Rightarrow>
           (let W2 = set_place C W1
            in if sh_db h = None \<or> we_values W2 = [] then (None, h)
               else case sql_helper_get_or_create_facility (me_cache E) (me_scan E) W2 (wc_forecast C) h of
                 (Inl s, h1) \<Rightarrow> (None, h1)
               | (Inr fid, h1) \<Rightarrow> (Some (fid, W2), h1)))
   }"

definition task_step ::
  "'j run_env \<Rightarrow> string \<Rightarrow> nat \<times> cache_task \<Rightarrow> task_phase \<Rightarrow> sql_helper \<Rightarrow> (task_phase \<times> sql_helper) run" where
  "task_step R dir task ph h =
     (case (task, ph) of
        ((i, Ech_task pc), Start) \<Rightarrow>
          (case ech_begin (ru_ech R i) (ech_init (Some dir) pc SPOT_SEK) h of
             None \<Rightarrow> Undefined
           | Some None \<Rightarrow> Done (Stop, h)
           | Some (Some S) \<Rightarrow> Done (Store_spots S, h))
      | ((i, Ech_task pc), Store_spots S) \<Rightarrow>
          Done (Stop, snd (sql_helper_insert_spots (se_insert (ru_ech R i)) False S h))
      | ((i, Wch_task conf), Start) \<Rightarrow>
          (case wch_init conf of (C, W) \<Rightarrow>
            (case wch_begin (ru_wch R i) C W h of
               None \<Rightarrow> Undefined
             | Some (None, h1) \<Rightarrow> Done (Stop, h1)
             | Some (Some (fid, W1), h1) \<Rightarrow> Done (Store_weather fid W1, h1)))
      | ((i, Wch_task conf), Store_weather fid W) \<Rightarrow>
          Done (Stop, snd (insert_weather_values (me_cache (ru_wch R i)) fid W h))
      | _ \<Rightarrow> Done (Stop, h))"

text \<open>A task that runs without others between its steps is the handler. A task whose step is named again
  after its end does nothing more.\<close>

definition run_alone :: "'j run_env \<Rightarrow> string \<Rightarrow> nat \<times> cache_task \<Rightarrow> sql_helper \<Rightarrow> sql_helper run" where
  "run_alone R dir task h = (case task of
      (i, Ech_task pc) \<Rightarrow> optimizer_run_ech (ru_ech R i) dir pc h
    | (i, Wch_task conf) \<Rightarrow> optimizer_run_wch (ru_wch R i) conf h)"

lemma ech_steps:
  "optimizer_run_ech E dir pc h =
     (case ech_begin E (ech_init (Some dir) pc SPOT_SEK) h of
        None \<Rightarrow> Undefined
      | Some None \<Rightarrow> Done h
      | Some (Some S) \<Rightarrow> Done (snd (sql_helper_insert_spots (se_insert E) False S h)))"
  by (auto simp: optimizer_run_ech_def ech_begin_def ech_update_cache_def ech_fetch_def split: prod.split bind_split
      sum.split option.split)

lemma wch_steps:
  "optimizer_run_wch E conf h =
     (case wch_begin E conf no_weather h of
        None \<Rightarrow> Undefined
      | Some (None, h1) \<Rightarrow> Done h1
      | Some (Some (fid, W), h1) \<Rightarrow> Done (snd (insert_weather_values (me_cache E) fid W h1)))"
  by (auto simp: optimizer_run_wch_def wch_init_def wch_begin_def wch_update_cache_def sql_helper_insert_weather_def
      Let_def split: prod.split bind_split sum.split option.split)

theorem task_alone:
  "run_schedule (task_step R dir) [task] [0, 0] [Start] h = then_run (run_alone R dir task h) (\<lambda>h1. Done ([Stop], h1))"
  by (cases task rule: prod.exhaust; cases "snd task")
    (auto simp: task_step_def run_alone_def ech_steps wch_steps wch_init_def split: option.split prod.split)

text \<open>\<open>tp_wait\<close> returns when every task has come to its end.\<close>

definition pool_run :: "'j run_env \<Rightarrow> string \<Rightarrow> cache_task list \<Rightarrow> sql_helper \<Rightarrow> sql_helper run" where
  "pool_run R dir ts h =
     (let added = filter (\<lambda>(i, t). ru_add R i) (enumerate 0 ts)
      in then_run (run_schedule (task_step R dir) added (ru_schedule R) (map (\<lambda>_. Start) added) h)
           (\<lambda>(ps, h1). if list_all (\<lambda>p. p = Stop) ps then Done h1 else Blocks))"

definition sizeof_wch_conf :: nat where
  "sizeof_wch_conf = 32"

text \<open>All cache tasks; the second component is whether the array of the weather tasks was there. A count
  without an array reads through NULL.\<close>

definition cache_phase ::
  "'j run_env \<Rightarrow> string \<Rightarrow> optimizer_config \<Rightarrow> sql_helper \<Rightarrow> (sql_helper \<times> bool) run" where
  "cache_phase R dir C h =
     (if \<not> ru_mem R (sizeof_wch_conf * oc_count C * 2)
      then then_run (pool_run R dir ech_tasks h) (\<lambda>h1. Done (h1, False))
      else case oc_facilities C of
        None \<Rightarrow> if oc_count C \<noteq> 0 then Undefined
                else then_run (pool_run R dir ech_tasks h) (\<lambda>h1. Done (h1, True))
      | Some fs \<Rightarrow> then_run (pool_run R dir (ech_tasks @ wch_tasks fs) h) (\<lambda>h1. Done (h1, True)))"

definition analysis_env :: "'j run_env \<Rightarrow> string \<Rightarrow> sql_helper \<Rightarrow> facility_config \<Rightarrow> report_env" where
  "analysis_env R dir h F = (ru_report R F)\<lparr>re_spots := (\<lambda>t0 t1.
     case ech_get_spots_range (ru_reads R t0 t1) (Some dir) no_spots (fc_price_class F) (fc_currency F) t0 t1 h of
       (res, S) \<Rightarrow> if res = SUCCESS then Inr S else Inl res)\<rparr>"

text \<open>The reports. The database file holds what was committed when the connection is closed, or lost.\<close>

definition committed :: "string \<Rightarrow> sql_helper \<Rightarrow> opti_world \<Rightarrow> opti_world" where
  "committed path h w =
     (case sh_db h of None \<Rightarrow> w | Some c \<Rightarrow> w\<lparr>ow_db := (ow_db w)(path := sc_saved c)\<rparr>)"

definition make_reports ::
  "'j run_env \<Rightarrow> string \<Rightarrow> string \<Rightarrow> string option \<Rightarrow> facility_config list \<Rightarrow> sql_helper \<Rightarrow> optimizer
   \<Rightarrow> opti_world \<Rightarrow> (status \<times> optimizer \<times> opti_world) run" where
  "make_reports R path dir calcs fs h Z w =
     then_run (calc_create_reports (ru_calc R) calcs (Some dir) fs h (ow_calc w)) (\<lambda>(res, cw).
       let w1 = (committed path h w)\<lparr>ow_calc := cw\<rparr>
       in if res \<noteq> SUCCESS then Done (ERR_FATAL, Z\<lparr>op_sql := h\<rparr>, w1)
          else let files = snd (consumption_analysis_create_reports (analysis_env R dir h) (ru_local R)
                                  (ru_today R) (ru_rows R) (ow_meter w) fs)
               in Done (SUCCESS, Z\<lparr>op_sql := sql_helper_close h\<rparr>, w1\<lparr>ow_reports := files\<rparr>))"

definition report_phase ::
  "'j run_env \<Rightarrow> string \<Rightarrow> string \<Rightarrow> sql_helper \<Rightarrow> optimizer \<Rightarrow> opti_world
   \<Rightarrow> (status \<times> optimizer \<times> opti_world) run" where
  "report_phase R path dir h Z w =
     (let fs = (case oc_facilities (op_config Z) of None \<Rightarrow> [] | Some fs \<Rightarrow> fs)
      in case oc_calcs_dir (op_config Z) of
           Null \<Rightarrow> make_reports R path dir None fs h Z w
         | Valid calcs \<Rightarrow> make_reports R path dir (Some calcs) fs h Z w
         | Dangling \<Rightarrow> if fs = [] then make_reports R path dir None fs h Z w else Undefined)"

lemma make_reports_Done:
  assumes "make_reports R path dir calcs fs h Z w = Done (res, Z', w')"
  shows "ow_db w' = ow_db (committed path h w) \<and> op_lost Z' = op_lost Z \<and> op_config Z' = op_config Z \<and>
    op_sql Z' = (if res = SUCCESS then sql_helper_close h else h)"
proof -
  obtain r cw where "calc_create_reports (ru_calc R) calcs (Some dir) fs h (ow_calc w) = Done (r, cw)"
    using assms unfolding make_reports_def then_run_iff by fast
  then show ?thesis using assms by (cases "r = SUCCESS") (auto simp: make_reports_def Let_def)
qed

lemma report_phase_make:
  assumes "report_phase R path dir h Z w = Done r"
  obtains calcs fs where "make_reports R path dir calcs fs h Z w = Done r"
  using assms by (auto simp: report_phase_def Let_def split: cptr.splits if_splits)

definition db_path :: "string \<Rightarrow> string" where
  "db_path dir = snprintf_trunc 512 (dir @ ''/cache.db'')"

text \<open>A handle that is still there is overwritten by \<open>sqlite3_open\<close>.\<close>

definition reopen :: "optimizer \<Rightarrow> optimizer" where
  "reopen Z = Z\<lparr>op_lost := op_lost Z + (if sh_db (op_sql Z) = None then 0 else 1)\<rparr>"

lemma reopen_sql [simp]: "op_sql (reopen Z) = op_sql Z" "op_config (reopen Z) = op_config Z"
  by (simp_all add: reopen_def)

lemma reopen_lost: "op_lost (reopen Z) = op_lost Z + (if sh_db (op_sql Z) = None then 0 else 1)"
  by (simp add: reopen_def)

text \<open>A data directory that is NULL or freed is printed with \<open>%s\<close>, which is not defined.\<close>

definition optimizer_run ::
  "'j run_env \<Rightarrow> optimizer \<Rightarrow> opti_world \<Rightarrow> (status \<times> optimizer \<times> opti_world) run" where
  "optimizer_run R Z w =
     (case oc_data_dir (op_config Z) of
        Valid dir \<Rightarrow>
          (let path = db_path dir;
               Z1 = reopen Z
           in case sql_helper_open (ru_open R) (ow_db w path) (op_sql Z1) of
                (res, h) \<Rightarrow>
                  if res \<noteq> SUCCESS then Done (res, Z1\<lparr>op_sql := h\<rparr>, w)
                  else if \<not> ru_schema R then Done (ERR_FATAL, Z1\<lparr>op_sql := h\<rparr>, w)
                  else if \<not> ru_pool R (oc_max_threads (op_config Z)) then Done (ERR_FATAL, Z1\<lparr>op_sql := h\<rparr>, w)
                  else then_run (cache_phase R dir (op_config Z) h) (\<lambda>(h1, confs).
                    if \<not> confs then Done (ERR_NO_MEMORY, Z1\<lparr>op_sql := h1\<rparr>, committed path h1 w)
                    else report_phase R path dir h1 Z1 w))
      | _ \<Rightarrow> Undefined)"

section \<open>Reloading\<close>

text \<open>The daemon reads its configuration again whenever it is told to and goes on whatever comes of it.\<close>

fun reloads :: "config_env list \<Rightarrow> optimizer_config \<Rightarrow> optimizer_config run" where
  "reloads [] C = Done C"
| "reloads (E # Es) C = then_run (optimizer_config_set E C) (\<lambda>(res, C1). reloads Es C1)"

definition all_live :: "optimizer_config \<Rightarrow> bool" where
  "all_live C \<longleftrightarrow> (\<exists>d c f. oc_data_dir C = Valid d \<and> oc_calcs_dir C = Valid c \<and> oc_facility_dir C = Valid f)"

definition some_dangling :: "optimizer_config \<Rightarrow> bool" where
  "some_dangling C \<longleftrightarrow> oc_data_dir C = Dangling \<or> oc_calcs_dir C = Dangling \<or> oc_facility_dir C = Dangling"

text \<open>The file could be read and has a value for each of the three directories.\<close>

definition complete_file :: "config_env \<Rightarrow> bool" where
  "complete_file E \<longleftrightarrow> (\<exists>v. oe_get E = Inr v \<and> cstr (v ''data.dir'') \<noteq> [] \<and> cstr (v ''data.calcs.dir'') \<noteq> [] \<and>
     cstr (v ''facility.conf.dir'') \<noteq> [])"

definition no_facility_dir :: "config_env \<Rightarrow> bool" where
  "no_facility_dir E \<longleftrightarrow> (\<exists>v. oe_get E = Inr v \<and> cstr (v ''facility.conf.dir'') = [])"

lemma all_live_not_dangling: "all_live C \<Longrightarrow> \<not> some_dangling C"
  by (auto simp: all_live_def some_dangling_def)

lemma free_ptr_undefined: "free_ptr p = Undefined \<longleftrightarrow> p = Dangling"
  by (cases p) simp_all

lemma free_ptr_not_blocks [simp]: "free_ptr p \<noteq> Blocks"
  by (cases p) simp_all

lemma reload_dangling: "some_dangling C \<Longrightarrow> optimizer_config_set E C = Undefined"
  unfolding some_dangling_def optimizer_config_set_def
  by (cases "oc_data_dir C"; cases "oc_calcs_dir C"; cases "oc_facility_dir C") simp_all

text \<open>A reload when all three strings are live: which outcome each kind of file has.\<close>

lemma reload_live:
  assumes "all_live C" and "\<forall>n. oe_mem E n"
  shows "complete_file E \<Longrightarrow> \<exists>res C1. optimizer_config_set E C = Done (res, C1) \<and> all_live C1"
    and "no_facility_dir E \<Longrightarrow> optimizer_config_set E C = Undefined"
    and "\<not> complete_file E \<Longrightarrow> \<not> no_facility_dir E \<Longrightarrow>
      \<exists>res C1. optimizer_config_set E C = Done (res, C1) \<and> some_dangling C1"
proof -
  let ?C = "C\<lparr>oc_facilities := None, oc_count := 0, oc_data_dir := Dangling, oc_calcs_dir := Dangling,
    oc_facility_dir := Dangling\<rparr>"
  have reload: "optimizer_config_set E C = (case oe_get E of Inl e \<Rightarrow> Done (e, ?C) | Inr v \<Rightarrow> load_values E v ?C)"
    using assms(1) by (auto simp: all_live_def optimizer_config_set_def Let_def)
  show "\<exists>res C1. optimizer_config_set E C = Done (res, C1) \<and> all_live C1" if "complete_file E"
    using that assms(2) unfolding reload
    by (auto simp: complete_file_def load_values_def set_string_def load_facilities_def all_live_def Let_def
        split: prod.split)
  show "optimizer_config_set E C = Undefined" if "no_facility_dir E"
    using that assms(2) unfolding reload
    by (auto simp: no_facility_dir_def load_values_def set_string_def load_facilities_def Let_def)
  show "\<exists>res C1. optimizer_config_set E C = Done (res, C1) \<and> some_dangling C1"
    if "\<not> complete_file E" "\<not> no_facility_dir E"
    using that assms(2) unfolding reload
    by (cases "oe_get E") (auto simp: complete_file_def no_facility_dir_def load_values_def set_string_def
        load_facilities_def some_dangling_def Let_def split: prod.split)
qed

text \<open>C17: Which reloads are safe. With memory, a sequence of reloads of a configuration whose strings are all
  there has defined behaviour exactly when every file but the last could be read and had a value for
  each directory, and the last did not lack the directory of the facilities: the strings are freed
  before the file is read, and what is not read again is freed or used once more. After a defined
  sequence the strings are all there exactly if the last file was complete as well.\<close>

theorem reloads_defined:
  assumes "all_live C" and "\<forall>E \<in> set Es. \<forall>n. oe_mem E n"
  shows "(reloads Es C = Undefined \<longleftrightarrow> (\<exists>i<length Es. \<not> complete_file (Es ! i) \<and>
      (i + 1 < length Es \<or> no_facility_dir (Es ! i)))) \<and>
    (\<forall>C1. reloads Es C = Done C1 \<longrightarrow> (all_live C1 \<longleftrightarrow> (\<forall>E \<in> set Es. complete_file E)))"
  using assms
proof (induction Es arbitrary: C)
  case (Cons E Es)
  have mem: "\<forall>n. oe_mem E n" using Cons.prems(2) by simp
  have not: "\<not> complete_file E" if "no_facility_dir E" using that by (auto simp: complete_file_def no_facility_dir_def)
  consider "complete_file E" | "no_facility_dir E" | "\<not> complete_file E" "\<not> no_facility_dir E" by blast
  then show ?case
  proof cases
    case 1
    then obtain res C1 where C1: "optimizer_config_set E C = Done (res, C1)" "all_live C1"
      using reload_live(1) [OF Cons.prems(1) mem] by blast
    from Cons.IH [OF C1(2)] Cons.prems(2) 1 not show ?thesis
      by (simp add: C1(1) Ex_less_Suc2)
  next
    case 2
    then have "optimizer_config_set E C = Undefined" using reload_live(2) [OF Cons.prems(1) mem] by blast
    with 2 not [OF 2] show ?thesis by (auto intro: exI [of _ 0])
  next
    case 3
    then obtain res C1 where C1: "optimizer_config_set E C = Done (res, C1)" "some_dangling C1"
      using reload_live(3) [OF Cons.prems(1) mem] by blast
    show ?thesis
    proof (cases Es)
      case Nil
      with C1 3 all_live_not_dangling show ?thesis by auto
    next
      case (Cons E2 Es2)
      with C1(1) reload_dangling [OF C1(2), of E2] 3 show ?thesis by (auto intro: exI [of _ 0])
    qed
  qed
qed simp

section \<open>The caches after a run\<close>

text \<open>The weather and the prices share tables only through the pruning.\<close>

lemma facility_step_spots:
  "\<exists>r t'. sql_helper_get_or_create_facility e scan W forecast \<lparr>sh_db = Some (sql_rest t), sh_locked = l\<rparr> =
     (r, \<lparr>sh_db = Some (sql_rest t'), sh_locked = l\<rparr>) \<and> ct_spots t' = ct_spots t"
proof (cases "ce_facility e \<and> ce_select e")
  case True
  then show ?thesis
    by (intro exI [of _ "case find_facility_id scan W forecast (insert_facility W forecast t) of
          None \<Rightarrow> Inl ERR_NOT_FOUND | Some fid \<Rightarrow> Inr fid"] exI [of _ "insert_facility W forecast t"])
      (simp add: sql_helper_get_or_create_facility_def tx_simps Let_def split: option.split)
next
  case False
  then show ?thesis
    by (intro exI [of _ "Inl ERR_FATAL"] exI [of _ "if ce_facility e then insert_facility W forecast t else t"])
      (simp add: sql_helper_get_or_create_facility_def tx_simps Let_def)
qed

text \<open>A facility that is not there any more refuses the values.\<close>

lemma values_step_ok:
  assumes "calls_ok e" and "fid \<in> facility_ids t"
  shows "insert_weather_values e fid W \<lparr>sh_db = Some (sql_rest t), sh_locked = l\<rparr> =
    (SUCCESS, \<lparr>sh_db = Some (sql_rest (prune_tables (cutoff_of e) (t\<lparr>ct_weather :=
       fold put_weather (map (\<lambda>v. \<lparr>wr_facility = fid, wr_values = v\<rparr>) (we_values W)) (ct_weather t)\<rparr>))), sh_locked = l\<rparr>)"
  using assms prune_ok [OF assms(1)]
  by (simp add: insert_weather_values_def calls_ok_def insert_weather_loop_ok tx_simps)

lemma values_step_refused:
  assumes "calls_ok e" and "fid \<notin> facility_ids t" and "we_values W \<noteq> []"
  shows "insert_weather_values e fid W \<lparr>sh_db = Some (sql_rest t), sh_locked = l\<rparr> =
    (ERR_FATAL, \<lparr>sh_db = Some (sql_rest t), sh_locked = l\<rparr>)"
  using assms by (cases "we_values W") (simp_all add: insert_weather_values_def calls_ok_def tx_simps)

lemma values_step_empty:
  assumes "calls_ok e" and "we_values W = []"
  shows "insert_weather_values e fid W \<lparr>sh_db = Some (sql_rest t), sh_locked = l\<rparr> =
    (SUCCESS, \<lparr>sh_db = Some (sql_rest (prune_tables (cutoff_of e) t)), sh_locked = l\<rparr>)"
  using assms prune_ok [OF assms(1)] by (simp add: insert_weather_values_def calls_ok_def tx_simps)

lemma values_step_spots:
  assumes "calls_ok e"
  shows "\<exists>t'. snd (insert_weather_values e fid W \<lparr>sh_db = Some (sql_rest t), sh_locked = l\<rparr>) =
      \<lparr>sh_db = Some (sql_rest t'), sh_locked = l\<rparr> \<and>
    (ct_spots t' = ct_spots t \<or> ct_spots t' = filter (\<lambda>r. cutoff_of e \<le> sp_time_start (sr_price r)) (ct_spots t))"
proof (cases "fid \<in> facility_ids t")
  case True
  then show ?thesis by (auto simp: values_step_ok [OF assms])
next
  case False
  then show ?thesis
    by (cases "we_values W = []") (auto simp: values_step_empty [OF assms] values_step_refused [OF assms])
qed

lemma pruned_map:
  assumes "keys_distinct spot_key (ct_spots t)" and "c \<le> time"
    and "ct_spots t' = ct_spots t \<or> ct_spots t' = filter (\<lambda>r. c \<le> sp_time_start (sr_price r)) (ct_spots t)"
  shows "spot_map t' cl cu time = spot_map t cl cu time"
proof -
  have "sp_time_start (sr_price r) = time" if "row_at spot_key (ct_spots t) (time, cl, cu) = Some r" for r
    using row_at_SomeD [OF that] by (simp add: spot_key_def)
  with assms show ?thesis
    by (auto simp: spot_map_def row_at_filter split: option.split)
qed

text \<open>What a weather task needs of its environment: a request with a defined outcome and a cache that
  works and keeps everything from the time \<open>B\<close> on.\<close>

definition weather_fine :: "'j meteo_env \<Rightarrow> int \<Rightarrow> wch_conf \<Rightarrow> bool" where
  "weather_fine E B conf \<longleftrightarrow> wch_request E conf (set_place conf no_weather) \<noteq> None \<and>
     calls_ok (me_cache E) \<and> cutoff_of (me_cache E) \<le> B"

lemma wch_begin_keeps:
  assumes "weather_fine E B conf"
  shows "\<exists>r t'. wch_begin E conf no_weather \<lparr>sh_db = Some (sql_rest t), sh_locked = l\<rparr> =
      Some (r, \<lparr>sh_db = Some (sql_rest t'), sh_locked = l\<rparr>) \<and> ct_spots t' = ct_spots t"
proof -
  obtain x where x: "wch_request E conf (set_place conf no_weather) = Some x"
    using assms by (auto simp: weather_fine_def)
  show ?thesis
  proof (cases x)
    case (Inr W1)
    let ?W = "set_place conf W1"
    obtain y t' where y: "sql_helper_get_or_create_facility (me_cache E) (me_scan E) ?W (wc_forecast conf)
        \<lparr>sh_db = Some (sql_rest t), sh_locked = l\<rparr> = (y, \<lparr>sh_db = Some (sql_rest t'), sh_locked = l\<rparr>)"
      and "ct_spots t' = ct_spots t" using facility_step_spots by metis
    then show ?thesis
      using x Inr by (cases "we_values ?W = []"; cases y) (simp_all add: wch_begin_def Let_def, blast+)
  qed (use x in \<open>simp add: wch_begin_def, blast\<close>)
qed

text \<open>What a price task makes of the prices of its class: a day of which something is there is left alone,
  otherwise what the service gave overrides.\<close>

definition day_filled :: "'j spot_env \<Rightarrow> epjn_spots \<Rightarrow> (int \<Rightarrow> spot_price option) \<Rightarrow> int \<Rightarrow> spot_price option" where
  "day_filled E P m time =
     (if \<exists>d. in_target E d \<and> m d \<noteq> None then m time
      else case row_at sp_time_start (rev (fetched_prices SPOT_SEK P)) time of
        Some p \<Rightarrow> Some p | None \<Rightarrow> m time)"

definition prices_fine :: "'j spot_env \<Rightarrow> int \<Rightarrow> spot_price_class \<Rightarrow> epjn_spots \<Rightarrow> bool" where
  "prices_fine E B pc P \<longleftrightarrow> calls_ok (se_read E) \<and> calls_ok (se_insert E) \<and> calls_ok (se_reread E) \<and>
     (\<forall>n. se_mem E n) \<and> epjn_update E pc (target_day E) = Some (Inr P) \<and> en_prices P \<noteq> [] \<and>
     cutoff_of (se_insert E) \<le> B \<and> B \<le> day_start E"

lemma ech_begin_cases:
  assumes "prices_fine E B pc P" and "keys_distinct spot_key (ct_spots t)"
  shows "ech_begin E (ech_init (Some dir) pc SPOT_SEK) \<lparr>sh_db = Some (sql_rest t), sh_locked = l\<rparr> =
    Some (if \<exists>d. in_target E d \<and> spot_map t pc SPOT_SEK d \<noteq> None then None
          else Some (no_spots\<lparr>es_price_class := pc, es_currency := SPOT_SEK,
                 es_interval := 1440 div length (en_prices P), es_prices := fetched_prices SPOT_SEK P\<rparr>))"
proof -
  note fine = assms(1) [unfolded prices_fine_def]
  have H: "eh_price_class (ech_init (Some dir) pc SPOT_SEK) = pc" "eh_currency (ech_init (Some dir) pc SPOT_SEK) = SPOT_SEK"
    "eh_spot (ech_init (Some dir) pc SPOT_SEK) = no_spots" by (simp_all add: ech_init_def)
  have "cached_day E t pc SPOT_SEK \<longleftrightarrow> select_spots pc SPOT_SEK (day_start E) (day_start E + 86400) t \<noteq> []"
    by (simp add: cached_day_def)
  then show ?thesis
    using fine cached_day_map [OF assms(2), of E pc SPOT_SEK]
    by (auto simp: ech_begin_def H read_spots_rows epjn_parse_def fetched_prices_def Let_def)
qed

definition class_index :: "spot_price_class \<Rightarrow> nat" where
  "class_index pc = nat (price_class_int pc)"

lemma day_filled_cong:
  assumes "\<And>x. B \<le> x \<Longrightarrow> m x = m' x" and "B \<le> day_start E" and "B \<le> time"
  shows "day_filled E P m time = day_filled E P m' time"
proof -
  have "m d = m' d" if "in_target E d" for d using that assms(1) [of d] assms(2) by (simp add: in_target_def)
  then have "(\<exists>d. in_target E d \<and> m d \<noteq> None) \<longleftrightarrow> (\<exists>d. in_target E d \<and> m' d \<noteq> None)" by auto
  then show ?thesis unfolding day_filled_def using assms(1) [OF assms(3)] by presburger
qed

text \<open>The contract of the tasks that share the cache. While a task is in phase \<open>p\<close> the prices in crowns of
  its class are \<open>content e p m\<close>, from the time \<open>B\<close> on, where \<open>m\<close> is what they were at first; \<open>ready\<close> says that
  what the task carries fits \<open>m\<close>. A step keeps this and changes nothing else. So the interleaving of the
  steps does not show.\<close>

locale cache_worker =
  fixes B :: int and fine :: "'e \<Rightarrow> bool"
    and work :: "'e \<Rightarrow> 'p \<Rightarrow> sql_helper \<Rightarrow> ('p \<times> sql_helper) run"
    and class_of :: "'e \<Rightarrow> spot_price_class option"
    and content :: "'e \<Rightarrow> 'p \<Rightarrow> (int \<Rightarrow> spot_price option) \<Rightarrow> int \<Rightarrow> spot_price option"
    and ready :: "'e \<Rightarrow> 'p \<Rightarrow> (int \<Rightarrow> spot_price option) \<Rightarrow> bool"
    and steps_left :: "'p \<Rightarrow> nat"
  assumes work_step: "fine e \<Longrightarrow> keys_distinct spot_key (ct_spots t) \<Longrightarrow> ready e p m \<Longrightarrow>
      \<forall>cl time. class_of e = Some cl \<longrightarrow> B \<le> time \<longrightarrow> spot_map t cl SPOT_SEK time = content e p m time \<Longrightarrow>
      \<exists>p' t'. work e p \<lparr>sh_db = Some (sql_rest t), sh_locked = l\<rparr> =
          Done (p', \<lparr>sh_db = Some (sql_rest t'), sh_locked = l\<rparr>) \<and>
        keys_distinct spot_key (ct_spots t') \<and> ready e p' m \<and> steps_left p' \<le> steps_left p - 1 \<and>
        (\<forall>cl cu time. B \<le> time \<longrightarrow> spot_map t' cl cu time =
          (if class_of e = Some cl \<and> cu = SPOT_SEK then content e p' m time else spot_map t cl cu time))"

text \<open>What the prices of a task's class were at first, and tables that agree with the phases \<open>ps\<close>.\<close>

definition origin :: "('e \<Rightarrow> spot_price_class option) \<Rightarrow> cache_tables \<Rightarrow> 'e \<Rightarrow> int \<Rightarrow> spot_price option" where
  "origin class_of t0 e = (\<lambda>time. Option.bind (class_of e) (\<lambda>cl. spot_map t0 cl SPOT_SEK time))"

definition agrees ::
  "int \<Rightarrow> ('e \<Rightarrow> spot_price_class option) \<Rightarrow> ('e \<Rightarrow> 'p \<Rightarrow> (int \<Rightarrow> spot_price option) \<Rightarrow> int \<Rightarrow> spot_price option)
   \<Rightarrow> ('e \<Rightarrow> 'p \<Rightarrow> (int \<Rightarrow> spot_price option) \<Rightarrow> bool) \<Rightarrow> cache_tables \<Rightarrow> 'e list \<Rightarrow> 'p list \<Rightarrow> cache_tables \<Rightarrow> bool" where
  "agrees B class_of content ready t0 es ps t \<longleftrightarrow> length ps = length es \<and> keys_distinct spot_key (ct_spots t) \<and>
     (\<forall>k<length es. ready (es ! k) (ps ! k) (origin class_of t0 (es ! k))) \<and>
     (\<forall>k<length es. \<forall>cl time. class_of (es ! k) = Some cl \<longrightarrow> B \<le> time \<longrightarrow>
        spot_map t cl SPOT_SEK time = content (es ! k) (ps ! k) (origin class_of t0 (es ! k)) time) \<and>
     (\<forall>cl cu time. B \<le> time \<longrightarrow> cu \<noteq> SPOT_SEK \<or> (\<forall>k<length es. class_of (es ! k) \<noteq> Some cl) \<longrightarrow>
        spot_map t cl cu time = spot_map t0 cl cu time)"

definition classes_distinct :: "('e \<Rightarrow> spot_price_class option) \<Rightarrow> 'e list \<Rightarrow> bool" where
  "classes_distinct class_of es \<longleftrightarrow> (\<forall>j<length es. \<forall>k<length es. \<forall>cl. class_of (es ! j) = Some cl \<longrightarrow>
     class_of (es ! k) = Some cl \<longrightarrow> j = k)"

context cache_worker
begin

lemma step_agrees:
  assumes "\<forall>e \<in> set es. fine e" and "classes_distinct class_of es" and "k < length es"
    and "agrees B class_of content ready t0 es ps t"
  shows "\<exists>p' t'. work (es ! k) (ps ! k) \<lparr>sh_db = Some (sql_rest t), sh_locked = l\<rparr> =
      Done (p', \<lparr>sh_db = Some (sql_rest t'), sh_locked = l\<rparr>) \<and> steps_left p' \<le> steps_left (ps ! k) - 1 \<and>
    agrees B class_of content ready t0 es (ps[k := p']) t'"
proof -
  let ?e = "es ! k" and ?m = "origin class_of t0 (es ! k)"
  note inv = assms(4) [unfolded agrees_def]
  have e: "fine ?e" using assms(1,3) by simp
  have now: "\<forall>cl time. class_of ?e = Some cl \<longrightarrow> B \<le> time \<longrightarrow> spot_map t cl SPOT_SEK time = content ?e (ps ! k) ?m time"
    using inv assms(3) by blast
  have "keys_distinct spot_key (ct_spots t)" "ready ?e (ps ! k) ?m" using inv assms(3) by blast+
  from work_step [OF e this now, of l] obtain p' t' where
    run: "work ?e (ps ! k) \<lparr>sh_db = Some (sql_rest t), sh_locked = l\<rparr> =
      Done (p', \<lparr>sh_db = Some (sql_rest t'), sh_locked = l\<rparr>)"
    and keys: "keys_distinct spot_key (ct_spots t')" and ready: "ready ?e p' ?m"
    and rank: "steps_left p' \<le> steps_left (ps ! k) - 1"
    and m: "\<And>cl cu time. B \<le> time \<Longrightarrow> spot_map t' cl cu time =
       (if class_of ?e = Some cl \<and> cu = SPOT_SEK then content ?e p' ?m time else spot_map t cl cu time)" by blast
  have same: "spot_map t' cl SPOT_SEK time = content (es ! j) (ps[k := p'] ! j) (origin class_of t0 (es ! j)) time"
    if "j < length es" "class_of (es ! j) = Some cl" "B \<le> time" for j cl time
  proof (cases "j = k")
    case True
    with that m inv show ?thesis by simp
  next
    case False
    then have "class_of ?e \<noteq> Some cl" using that assms(2,3) by (auto simp: classes_distinct_def)
    with False that m inv show ?thesis by simp
  qed
  have other: "spot_map t' cl cu time = spot_map t0 cl cu time"
    if "B \<le> time" "cu \<noteq> SPOT_SEK \<or> (\<forall>k<length es. class_of (es ! k) \<noteq> Some cl)" for cl cu time
    using that m [OF that(1), of cl cu] inv assms(3) by auto
  have "ready (es ! j) (ps[k := p'] ! j) (origin class_of t0 (es ! j))" if "j < length es" for j
    using that ready inv by (cases "j = k") simp_all
  with run rank keys same other inv show ?thesis
    by (intro exI [of _ p'] exI [of _ t']) (simp add: agrees_def)
qed

lemma schedule_agrees:
  assumes "\<forall>e \<in> set es. fine e" and "classes_distinct class_of es"
    and "agrees B class_of content ready t0 es ps t"
  shows "\<exists>ps' t'. run_schedule work es ks ps \<lparr>sh_db = Some (sql_rest t), sh_locked = l\<rparr> =
      Done (ps', \<lparr>sh_db = Some (sql_rest t'), sh_locked = l\<rparr>) \<and> agrees B class_of content ready t0 es ps' t' \<and>
    (\<forall>k<length es. steps_left (ps' ! k) \<le> steps_left (ps ! k) - count_list ks k)"
  using assms(3)
proof (induction ks arbitrary: ps t)
  case (Cons k ks)
  show ?case
  proof (cases "k < length es")
    case False
    with Cons.IH [OF Cons.prems] show ?thesis by (auto intro!: exI)
  next
    case True
    from step_agrees [OF assms(1,2) True Cons.prems, of l] obtain p' t1 where
      run: "work (es ! k) (ps ! k) \<lparr>sh_db = Some (sql_rest t), sh_locked = l\<rparr> =
        Done (p', \<lparr>sh_db = Some (sql_rest t1), sh_locked = l\<rparr>)"
      and rank: "steps_left p' \<le> steps_left (ps ! k) - 1"
      and inv: "agrees B class_of content ready t0 es (ps[k := p']) t1" by blast
    from Cons.IH [OF inv] obtain ps' t' where
      rest: "run_schedule work es ks (ps[k := p']) \<lparr>sh_db = Some (sql_rest t1), sh_locked = l\<rparr> =
        Done (ps', \<lparr>sh_db = Some (sql_rest t'), sh_locked = l\<rparr>)"
      and inv': "agrees B class_of content ready t0 es ps' t'"
      and left: "\<forall>j<length es. steps_left (ps' ! j) \<le> steps_left (ps[k := p'] ! j) - count_list ks j" by blast
    have len: "length ps = length es" using Cons.prems by (simp add: agrees_def)
    have "steps_left (ps' ! j) \<le> steps_left (ps ! j) - count_list (k # ks) j" if "j < length es" for j
    proof (cases "j = k")
      case True
      then have "steps_left (ps' ! k) \<le> steps_left p' - count_list ks k" using left that len by auto
      with rank True show ?thesis by simp
    next
      case False
      with left that len show ?thesis by force
    qed
    with run rest inv' True show ?thesis by auto
  qed
qed (auto intro!: exI)

end

text \<open>The tasks of the optimizer keep the contract.\<close>

definition task_fine :: "'j run_env \<Rightarrow> int \<Rightarrow> (spot_price_class \<Rightarrow> epjn_spots) \<Rightarrow> nat \<times> cache_task \<Rightarrow> bool" where
  "task_fine R B P task = (case task of
     (i, Ech_task pc) \<Rightarrow> i = class_index pc \<and> prices_fine (ru_ech R i) B pc (P pc)
   | (i, Wch_task conf) \<Rightarrow> weather_fine (ru_wch R i) B conf)"

fun task_class :: "nat \<times> cache_task \<Rightarrow> spot_price_class option" where
  "task_class (i, Ech_task pc) = Some pc"
| "task_class (i, Wch_task conf) = None"

text \<open>The prices change when the task comes to its end. What it carries before that are the prices the
  service gave, for a day of which nothing was there.\<close>

definition task_content :: "'j run_env \<Rightarrow> (spot_price_class \<Rightarrow> epjn_spots) \<Rightarrow> nat \<times> cache_task \<Rightarrow> task_phase \<Rightarrow>
    (int \<Rightarrow> spot_price option) \<Rightarrow> int \<Rightarrow> spot_price option" where
  "task_content R P task p m = (case task of
     (i, Ech_task pc) \<Rightarrow> if p = Stop then day_filled (ru_ech R i) (P pc) m else m
   | (i, Wch_task conf) \<Rightarrow> m)"

definition task_ready :: "'j run_env \<Rightarrow> (spot_price_class \<Rightarrow> epjn_spots) \<Rightarrow> nat \<times> cache_task \<Rightarrow> task_phase \<Rightarrow>
    (int \<Rightarrow> spot_price option) \<Rightarrow> bool" where
  "task_ready R P task p m = (case (task, p) of
     ((i, Ech_task pc), Store_spots S) \<Rightarrow> (\<forall>d. in_target (ru_ech R i) d \<longrightarrow> m d = None) \<and>
        es_price_class S = pc \<and> es_currency S = SPOT_SEK \<and> es_prices S = fetched_prices SPOT_SEK (P pc)
   | ((i, Ech_task pc), Store_weather fid W) \<Rightarrow> False
   | _ \<Rightarrow> True)"

fun task_left :: "task_phase \<Rightarrow> nat" where
  "task_left Start = 2"
| "task_left (Store_spots S) = 1"
| "task_left (Store_weather fid W) = 1"
| "task_left Stop = 0"

text \<open>The steps of the two kinds of tasks.\<close>

lemma price_step:
  assumes "prices_fine (ru_ech R i) B pc (P pc)" and "keys_distinct spot_key (ct_spots t)"
    and "task_ready R P (i, Ech_task pc) p m"
    and "\<forall>time\<ge>B. spot_map t pc SPOT_SEK time = task_content R P (i, Ech_task pc) p m time"
  shows "\<exists>p' t'. task_step R dir (i, Ech_task pc) p \<lparr>sh_db = Some (sql_rest t), sh_locked = l\<rparr> =
      Done (p', \<lparr>sh_db = Some (sql_rest t'), sh_locked = l\<rparr>) \<and> keys_distinct spot_key (ct_spots t') \<and>
    task_ready R P (i, Ech_task pc) p' m \<and> task_left p' \<le> task_left p - 1 \<and>
    (\<forall>cl cu time. B \<le> time \<longrightarrow> spot_map t' cl cu time =
      (if cl = pc \<and> cu = SPOT_SEK then task_content R P (i, Ech_task pc) p' m time else spot_map t cl cu time))"
proof -
  let ?E = "ru_ech R i"
  note fine = assms(1) [unfolded prices_fine_def]
  show ?thesis
  proof (cases p)
    case Start
    then have now: "\<forall>time\<ge>B. spot_map t pc SPOT_SEK time = m time" using assms(4) by (simp add: task_content_def)
    then have "(\<exists>d. in_target ?E d \<and> spot_map t pc SPOT_SEK d \<noteq> None) \<longleftrightarrow> (\<exists>d. in_target ?E d \<and> m d \<noteq> None)"
      using fine by (fastforce simp: in_target_def)
    note first = ech_begin_cases [OF assms(1,2), of dir l, unfolded this]
    show ?thesis
    proof (cases "\<exists>d. in_target ?E d \<and> m d \<noteq> None")
      case True
      with first Start assms(2) now show ?thesis
        by (intro exI [of _ Stop] exI [of _ t]) (auto simp: task_step_def task_ready_def task_content_def day_filled_def)
    next
      case False
      with first Start assms(2) now show ?thesis
        by (intro exI [of _ "Store_spots (no_spots\<lparr>es_price_class := pc, es_currency := SPOT_SEK,
            es_interval := 1440 div length (en_prices (P pc)), es_prices := fetched_prices SPOT_SEK (P pc)\<rparr>)"]
            exI [of _ t]) (auto simp: task_step_def task_ready_def task_content_def)
    qed
  next
    case (Store_spots S)
    then have S: "es_price_class S = pc" "es_currency S = SPOT_SEK" "es_prices S = fetched_prices SPOT_SEK (P pc)"
      and none: "\<not> (\<exists>d. in_target ?E d \<and> m d \<noteq> None)" using assms(3) by (auto simp: task_ready_def)
    have now: "\<forall>time\<ge>B. spot_map t pc SPOT_SEK time = m time"
      using assms(4) Store_spots by (simp add: task_content_def)
    from fine have "calls_ok (se_insert ?E)" by simp
    from insert_spots_filled [OF this assms(2), of S l] obtain t' where
      "sql_helper_insert_spots (se_insert ?E) False S \<lparr>sh_db = Some (sql_rest t), sh_locked = l\<rparr> =
        (SUCCESS, \<lparr>sh_db = Some (sql_rest t'), sh_locked = l\<rparr>)"
      and "keys_distinct spot_key (ct_spots t')"
      and m': "\<forall>cl cu time. spot_map t' cl cu time =
       (if time < ce_now (se_insert ?E) - 30 * 86400 then None
        else if cl = pc \<and> cu = SPOT_SEK
        then (case row_at sp_time_start (rev (fetched_prices SPOT_SEK (P pc))) time of
                Some p \<Rightarrow> Some p | None \<Rightarrow> spot_map t cl cu time)
        else spot_map t cl cu time)" unfolding S by blast
    moreover have "spot_map t' cl cu time = (if cl = pc \<and> cu = SPOT_SEK then day_filled ?E (P pc) m time
        else spot_map t cl cu time)" if "B \<le> time" for cl cu time
      using that fine none now m' by (auto simp: day_filled_def cutoff_of_def retention_days_def split: option.split)
    ultimately show ?thesis
      using Store_spots
      by (intro exI [of _ Stop] exI [of _ t']) (simp add: task_step_def task_ready_def task_content_def)
  next
    case Stop
    with assms(2,4) show ?thesis
      by (intro exI [of _ Stop] exI [of _ t]) (simp add: task_step_def task_ready_def)
  qed (use assms(3) in \<open>simp add: task_ready_def\<close>)
qed

lemma weather_step:
  assumes "weather_fine (ru_wch R i) B conf" and "keys_distinct spot_key (ct_spots t)"
  shows "\<exists>p' t'. task_step R dir (i, Wch_task conf) p \<lparr>sh_db = Some (sql_rest t), sh_locked = l\<rparr> =
      Done (p', \<lparr>sh_db = Some (sql_rest t'), sh_locked = l\<rparr>) \<and> keys_distinct spot_key (ct_spots t') \<and>
    task_left p' \<le> task_left p - 1 \<and>
    (\<forall>cl cu time. B \<le> time \<longrightarrow> spot_map t' cl cu time = spot_map t cl cu time)"
proof -
  let ?E = "ru_wch R i" and ?h = "\<lambda>t. \<lparr>sh_db = Some (sql_rest t), sh_locked = l\<rparr>"
  have same: "keys_distinct spot_key (ct_spots t') \<and> (\<forall>cl cu time. spot_map t' cl cu time = spot_map t cl cu time)"
    if "ct_spots t' = ct_spots t" for t' using that assms(2) by (simp add: spot_map_def)
  show ?thesis
  proof (cases p)
    case Start
    obtain r t' where r: "wch_begin ?E conf no_weather (?h t) = Some (r, ?h t')" and t': "ct_spots t' = ct_spots t"
      using wch_begin_keeps [OF assms(1)] by blast
    show ?thesis
    proof (cases r)
      case None
      with r same [OF t'] Start show ?thesis
        by (intro exI [of _ Stop] exI [of _ t']) (simp add: task_step_def wch_init_def)
    next
      case (Some x)
      with r same [OF t'] Start show ?thesis
        by (intro exI [of _ "Store_weather (fst x) (snd x)"] exI [of _ t'])
          (simp add: task_step_def wch_init_def split: prod.split)
    qed
  next
    case (Store_weather fid W)
    from assms(1) have e: "calls_ok (me_cache ?E)" "cutoff_of (me_cache ?E) \<le> B" by (simp_all add: weather_fine_def)
    obtain t' where run: "snd (insert_weather_values (me_cache ?E) fid W (?h t)) = ?h t'"
      and t': "ct_spots t' = ct_spots t \<or>
        ct_spots t' = filter (\<lambda>r. cutoff_of (me_cache ?E) \<le> sp_time_start (sr_price r)) (ct_spots t)"
      using values_step_spots [OF e(1)] by blast
    have "keys_distinct spot_key (ct_spots t')" using t' assms(2) keys_distinct_filter by metis
    moreover have "spot_map t' cl cu time = spot_map t cl cu time" if "B \<le> time" for cl cu time
      by (rule pruned_map [OF assms(2) _ t']) (use that e(2) in simp)
    ultimately show ?thesis
      using run Store_weather by (intro exI [of _ Stop] exI [of _ t']) (simp add: task_step_def)
  next
    case (Store_spots S)
    with assms(2) show ?thesis by (intro exI [of _ Stop] exI [of _ t]) (simp add: task_step_def)
  next
    case Stop
    with assms(2) show ?thesis by (intro exI [of _ Stop] exI [of _ t]) (simp add: task_step_def)
  qed
qed

interpretation cache_tasks: cache_worker B "task_fine R B P" "task_step R dir" task_class "task_content R P"
    "task_ready R P" task_left
  for B R P dir
proof
  fix e :: "nat \<times> cache_task" and t :: cache_tables and p m l
  assume e: "task_fine R B P e" "keys_distinct spot_key (ct_spots t)" "task_ready R P e p m"
    "\<forall>cl time. task_class e = Some cl \<longrightarrow> B \<le> time \<longrightarrow> spot_map t cl SPOT_SEK time = task_content R P e p m time"
  show "\<exists>p' t'. task_step R dir e p \<lparr>sh_db = Some (sql_rest t), sh_locked = l\<rparr> =
          Done (p', \<lparr>sh_db = Some (sql_rest t'), sh_locked = l\<rparr>) \<and>
        keys_distinct spot_key (ct_spots t') \<and> task_ready R P e p' m \<and> task_left p' \<le> task_left p - 1 \<and>
        (\<forall>cl cu time. B \<le> time \<longrightarrow> spot_map t' cl cu time =
          (if task_class e = Some cl \<and> cu = SPOT_SEK then task_content R P e p' m time else spot_map t cl cu time))"
  proof (cases e rule: task_class.cases)
    case (1 i pc)
    then have "prices_fine (ru_ech R i) B pc (P pc)" using e(1) by (auto simp: task_fine_def)
    moreover have "task_class e = Some cl \<longleftrightarrow> cl = pc" for cl by (auto simp: 1)
    ultimately show ?thesis
      using price_step [of R i B pc P t p m dir l] e(2,3,4) by (simp only: 1) blast
  next
    case (2 i conf)
    then have "weather_fine (ru_wch R i) B conf" using e(1) by (simp add: task_fine_def)
    from weather_step [OF this e(2), of dir p l] show ?thesis by (simp add: 2 task_ready_def)
  qed
qed

lemma tasks_distinct:
  assumes "\<forall>x \<in> set ts. task_fine R B P x" and "distinct (map fst ts)"
  shows "classes_distinct task_class ts"
  unfolding classes_distinct_def
proof (intro allI impI)
  fix j k cl
  assume jk: "j < length ts" "k < length ts" "task_class (ts ! j) = Some cl" "task_class (ts ! k) = Some cl"
  have "fst x = class_index cl" if "x \<in> set ts" "task_class x = Some cl" for x
    using that assms(1) by (cases x rule: task_class.cases) (force simp: task_fine_def)+
  with jk have "map fst ts ! j = map fst ts ! k" by simp
  with jk(1,2) assms(2) show "j = k" by (simp add: nth_eq_iff_index_eq del: nth_map)
qed

text \<open>All tasks together. A schedule that names each task twice lets each come to its end.\<close>

lemma pool_fills:
  assumes "\<forall>x \<in> set added. task_fine R B P x" and "distinct (map fst added)"
    and "keys_distinct spot_key (ct_spots t)" and "\<forall>k<length added. 2 \<le> count_list ks k"
  shows "\<exists>ps t'. run_schedule (task_step R dir) added ks (map (\<lambda>_. Start) added)
        \<lparr>sh_db = Some (sql_rest t), sh_locked = l\<rparr> = Done (ps, \<lparr>sh_db = Some (sql_rest t'), sh_locked = l\<rparr>) \<and>
    list_all (\<lambda>p. p = Stop) ps \<and> keys_distinct spot_key (ct_spots t') \<and>
    (\<forall>cl cu time. B \<le> time \<longrightarrow> spot_map t' cl cu time =
       (if cu = SPOT_SEK \<and> (class_index cl, Ech_task cl) \<in> set added
        then day_filled (ru_ech R (class_index cl)) (P cl) (spot_map t cl SPOT_SEK) time
        else spot_map t cl cu time))"
proof -
  let ?agrees = "agrees B task_class (task_content R P) (task_ready R P) t added"
  have "task_content R P x Start m = m" "task_ready R P x Start m" for x m
    by (cases x rule: task_class.cases; simp add: task_content_def task_ready_def)+
  then have start: "?agrees (map (\<lambda>_. Start) added) t" using assms(3) by (simp add: agrees_def origin_def)
  from cache_tasks.schedule_agrees [OF assms(1) tasks_distinct [OF assms(1,2)] start, of dir ks l] obtain ps t' where
    run: "run_schedule (task_step R dir) added ks (map (\<lambda>_. Start) added) \<lparr>sh_db = Some (sql_rest t), sh_locked = l\<rparr> =
      Done (ps, \<lparr>sh_db = Some (sql_rest t'), sh_locked = l\<rparr>)"
    and inv: "?agrees ps t'"
    and left: "\<forall>k<length added. task_left (ps ! k) \<le> task_left (map (\<lambda>_. Start) added ! k) - count_list ks k" by blast
  have stop: "ps ! k = Stop" if "k < length added" for k
  proof -
    have "task_left (ps ! k) = 0" using left assms(4) that by fastforce
    then show ?thesis by (cases "ps ! k") simp_all
  qed
  have len: "length ps = length added" using inv by (simp add: agrees_def)
  have own: "k = (class_index cl, Ech_task cl)" if "k \<in> set added" "task_class k = Some cl" for k cl
    using that assms(1) by (cases k rule: task_class.cases) (force simp: task_fine_def)+
  have "spot_map t' cl cu time =
       (if cu = SPOT_SEK \<and> (class_index cl, Ech_task cl) \<in> set added
        then day_filled (ru_ech R (class_index cl)) (P cl) (spot_map t cl SPOT_SEK) time
        else spot_map t cl cu time)" if "B \<le> time" for cl cu time
  proof (cases "cu = SPOT_SEK \<and> (class_index cl, Ech_task cl) \<in> set added")
    case True
    then obtain k where k: "k < length added" "added ! k = (class_index cl, Ech_task cl)" by (auto simp: in_set_conv_nth)
    with inv that have "spot_map t' cl SPOT_SEK time =
        task_content R P (added ! k) (ps ! k) (origin task_class t (added ! k)) time"
      unfolding agrees_def by (metis task_class.simps(1))
    with True k stop [OF k(1)] show ?thesis by (simp add: task_content_def origin_def)
  next
    case False
    then have "cu \<noteq> SPOT_SEK \<or> (\<forall>k<length added. task_class (added ! k) \<noteq> Some cl)" using own nth_mem by metis
    with False that inv show ?thesis by (auto simp: agrees_def)
  qed
  with run len stop inv show ?thesis by (auto simp: agrees_def list_all_length)
qed

text \<open>The numbers of the tasks.\<close>

lemma ech_tasks_eq: "ech_tasks = [Ech_task SE1, Ech_task SE2, Ech_task SE3, Ech_task SE4]"
  by (simp add: ech_tasks_def upt_rec price_class_of_def)

lemma enumerate_elem: "(i, y) \<in> set (enumerate n xs) \<Longrightarrow> y \<in> set xs"
  by (auto simp: enumerate_eq_zip dest: set_zip_rightD)

lemma numbered_tasks:
  "set (enumerate 0 (ech_tasks @ wch_tasks fs)) \<subseteq>
     {(class_index pc, Ech_task pc) | pc. True} \<union> {(i, Wch_task (wch_conf_for F b)) | i F b. F \<in> set fs}"
proof -
  have w: "set (enumerate 4 (wch_tasks fs)) \<subseteq> {(i, Wch_task (wch_conf_for F b)) | i F b. F \<in> set fs}"
  proof (rule subrelI)
    fix i y
    assume "(i, y) \<in> set (enumerate 4 (wch_tasks fs))"
    then have "y \<in> set (wch_tasks fs)" by (rule enumerate_elem)
    then show "(i, y) \<in> {(i, Wch_task (wch_conf_for F b)) | i F b. F \<in> set fs}"
      by (auto simp: wch_tasks_def)
  qed
  have "set (enumerate 0 (ech_tasks @ wch_tasks fs)) =
      {(0, Ech_task SE1), (1, Ech_task SE2), (2, Ech_task SE3), (3, Ech_task SE4)} \<union> set (enumerate 4 (wch_tasks fs))"
    by (simp add: ech_tasks_eq numeral_eq_Suc)
  also have "\<dots> = {(class_index SE1, Ech_task SE1), (class_index SE2, Ech_task SE2),
      (class_index SE3, Ech_task SE3), (class_index SE4, Ech_task SE4)} \<union> set (enumerate 4 (wch_tasks fs))"
    by (simp add: class_index_def)
  finally show ?thesis using w by blast
qed

lemma class_task: "(class_index pc, Ech_task pc) \<in> set (enumerate 0 (ech_tasks @ wch_tasks fs))"
  by (cases pc) (simp_all add: ech_tasks_eq class_index_def)

lemma report_phase_commits:
  assumes "report_phase R path dir \<lparr>sh_db = Some (sql_rest t), sh_locked = l\<rparr> Z w = Done (res, Z', w')"
  shows "ow_db w' path = t"
proof -
  let ?h = "\<lparr>sh_db = Some (sql_rest t), sh_locked = l\<rparr>"
  have "ow_db (committed path ?h w) path = t" by (simp add: committed_def tx_simps)
  with report_phase_make [OF assms] make_reports_Done show ?thesis by metis
qed

lemma wch_tasks_length: "length (wch_tasks fs) = 2 * length fs"
  by (induction fs) (simp_all add: wch_tasks_def)

lemma run_fills:
  assumes "oc_data_dir (op_config Z) = Valid dir" and "oc_facilities (op_config Z) = Some fs"
    and "ru_open R" and "ru_schema R" and "ru_pool R (oc_max_threads (op_config Z))"
    and "\<forall>n. ru_mem R n" and "\<forall>i. ru_add R i" and "\<forall>k < 4 + 2 * length fs. 2 \<le> count_list (ru_schedule R) k"
    and "\<forall>pc. prices_fine (ru_ech R (class_index pc)) B pc (P pc)"
    and "\<forall>F \<in> set fs. \<forall>b i. weather_fine (ru_wch R i) B (wch_conf_for F b)"
    and "keys_distinct spot_key (ct_spots (ow_db w (db_path dir)))"
  shows "\<exists>t'. optimizer_run R Z w = report_phase R (db_path dir) dir
        \<lparr>sh_db = Some (sql_rest t'), sh_locked = sh_locked (op_sql Z)\<rparr>
        (reopen Z) w \<and> keys_distinct spot_key (ct_spots t') \<and>
    (\<forall>cl cu time. B \<le> time \<longrightarrow> spot_map t' cl cu time =
       (if cu = SPOT_SEK
        then day_filled (ru_ech R (class_index cl)) (P cl) (spot_map (ow_db w (db_path dir)) cl SPOT_SEK) time
        else spot_map (ow_db w (db_path dir)) cl cu time)) \<and>
    (\<forall>res Z' w'. optimizer_run R Z w = Done (res, Z', w') \<longrightarrow> ow_db w' (db_path dir) = t')"
proof -
  let ?t = "ow_db w (db_path dir)" and ?l = "sh_locked (op_sql Z)"
  let ?all = "enumerate 0 (ech_tasks @ wch_tasks fs)"
  let ?h = "\<lambda>t. \<lparr>sh_db = Some (sql_rest t), sh_locked = ?l\<rparr>"
  have fine: "\<forall>x \<in> set ?all. task_fine R B P x"
    using numbered_tasks [of fs] assms(9,10) by (fastforce simp: task_fine_def)
  have named: "\<forall>k<length ?all. 2 \<le> count_list (ru_schedule R) k"
    using assms(8) by (simp add: ech_tasks_eq wch_tasks_length)
  have "distinct (map fst ?all)" by simp
  from pool_fills [OF fine this assms(11) named, of dir ?l] obtain ps t' where
    run: "run_schedule (task_step R dir) ?all (ru_schedule R) (map (\<lambda>_. Start) ?all) (?h ?t) = Done (ps, ?h t')"
    and stop: "list_all (\<lambda>p. p = Stop) ps" and keys: "keys_distinct spot_key (ct_spots t')"
    and m: "\<And>cl cu time. B \<le> time \<Longrightarrow> spot_map t' cl cu time =
       (if cu = SPOT_SEK \<and> (class_index cl, Ech_task cl) \<in> set ?all
        then day_filled (ru_ech R (class_index cl)) (P cl) (spot_map ?t cl SPOT_SEK) time
        else spot_map ?t cl cu time)" by blast
  have all_added: "filter (\<lambda>(i, t). ru_add R i) ts = ts" for ts using assms(7) by (simp add: filter_id_conv)
  have "pool_run R dir (ech_tasks @ wch_tasks fs) (?h ?t) = Done (?h t')"
    unfolding pool_run_def all_added Let_def run using stop by simp
  then have phase: "cache_phase R dir (op_config Z) (?h ?t) = Done (?h t', True)"
    using assms(2,6) by (simp add: cache_phase_def)
  have "sql_helper_open True ?t (op_sql Z) = (SUCCESS, ?h ?t)" by (simp add: sql_helper_open_def)
  then have whole: "optimizer_run R Z w = report_phase R (db_path dir) dir (?h t') (reopen Z) w"
    using assms(1,3,4,5) phase
    by (simp add: optimizer_run_def Let_def)
  moreover have "spot_map t' cl cu time =
       (if cu = SPOT_SEK
        then day_filled (ru_ech R (class_index cl)) (P cl) (spot_map ?t cl SPOT_SEK) time
        else spot_map ?t cl cu time)" if "B \<le> time" for cl cu time
    using m [OF that] class_task by simp
  moreover have "ow_db w' (db_path dir) = t'" if "optimizer_run R Z w = Done (res, Z', w')" for res Z' w'
    using that unfolding whole by (rule report_phase_commits)
  ultimately show ?thesis using keys by blast
qed

text \<open>C16: A run fills the caches, however the threads of the pool interleave the database operations of the
  tasks, when they let each task come to its end. When every call works, and all caches keep what is younger
  than some time \<open>B\<close> before the days that are asked for, the run goes on to its reports with tables in
  which, from \<open>B\<close> on, the prices of every class in crowns are those the service gave for a day of which
  nothing was there, over the old ones, and all other prices are as before. These are the tables in the
  database file when the run returns.\<close>

theorem run_fills_caches:
  assumes "oc_data_dir (op_config Z) = Valid dir" and "oc_facilities (op_config Z) = Some fs"
    and "ru_open R" and "ru_schema R" and "ru_pool R (oc_max_threads (op_config Z))"
    and "\<forall>n. ru_mem R n" and "\<forall>i. ru_add R i" and "\<forall>k < 4 + 2 * length fs. 2 \<le> count_list (ru_schedule R) k"
    and "\<forall>pc. prices_fine (ru_ech R (class_index pc)) B pc (P pc)"
    and "\<forall>F \<in> set fs. \<forall>b i. weather_fine (ru_wch R i) B (wch_conf_for F b)"
    and "keys_distinct spot_key (ct_spots (ow_db w (db_path dir)))"
  shows "\<exists>t'. optimizer_run R Z w = report_phase R (db_path dir) dir
        \<lparr>sh_db = Some (sql_rest t'), sh_locked = sh_locked (op_sql Z)\<rparr>
        (reopen Z) w \<and>
    (\<forall>cl cu time. B \<le> time \<longrightarrow> spot_map t' cl cu time =
       (if cu = SPOT_SEK
        then day_filled (ru_ech R (class_index cl)) (P cl) (spot_map (ow_db w (db_path dir)) cl SPOT_SEK) time
        else spot_map (ow_db w (db_path dir)) cl cu time)) \<and>
    (\<forall>res Z' w'. optimizer_run R Z w = Done (res, Z', w') \<longrightarrow> ow_db w' (db_path dir) = t')"
  using run_fills [OF assms] by blast

section \<open>What a run leaves open\<close>

lemma insert_spots_open:
  "sql_helper_insert_spots e b S h = (res, h') \<Longrightarrow> sh_db h \<noteq> None \<Longrightarrow> sh_db h' \<noteq> None"
  by (auto simp: sql_helper_insert_spots_def split: option.splits prod.splits bool.splits if_splits)

lemma values_open:
  "insert_weather_values e fid W h = (res, h') \<Longrightarrow> sh_db h \<noteq> None \<Longrightarrow> sh_db h' \<noteq> None"
  by (auto simp: insert_weather_values_def split: option.splits prod.splits bool.splits if_splits)

lemma wch_begin_open:
  "wch_begin E C W h = Some (r, h') \<Longrightarrow> sh_db h \<noteq> None \<Longrightarrow> sh_db h' \<noteq> None"
  by (auto simp: wch_begin_def sql_helper_get_or_create_facility_def Let_def
      split: sum.splits bind_splits option.splits prod.splits if_splits)

lemma task_step_open:
  "task_step R dir x p h = Done (p', h') \<Longrightarrow> sh_db h \<noteq> None \<Longrightarrow> sh_db h' \<noteq> None"
  using insert_spots_open [OF surjective_pairing] values_open [OF surjective_pairing] wch_begin_open
  by (fastforce simp: task_step_def split: prod.splits cache_task.splits task_phase.splits option.splits)

lemma run_schedule_open:
  "run_schedule (task_step R dir) es ks ps h = Done (ps', h') \<Longrightarrow> sh_db h \<noteq> None \<Longrightarrow> sh_db h' \<noteq> None"
proof (induction ks arbitrary: ps h)
  case (Cons k ks)
  show ?case
  proof (cases "k < length es")
    case True
    with Cons.prems obtain p h1 where "task_step R dir (es ! k) (ps ! k) h = Done (p, h1)"
      and "run_schedule (task_step R dir) es ks (ps[k := p]) h1 = Done (ps', h')"
      by (auto simp: then_run_iff)
    with Cons.IH task_step_open Cons.prems(2) show ?thesis by metis
  qed (use Cons in simp)
qed simp

lemma cache_phase_open:
  "cache_phase R dir C h = Done (h', ok) \<Longrightarrow> sh_db h \<noteq> None \<Longrightarrow> sh_db h' \<noteq> None"
  by (auto simp: cache_phase_def pool_run_def Let_def then_run_iff split: if_splits option.splits
      dest: run_schedule_open)

lemma report_phase_closes:
  assumes "report_phase R path dir h Z w = Done (res, Z', w')" and "sh_db h \<noteq> None"
  shows "(sh_db (op_sql Z') = None \<longleftrightarrow> res = SUCCESS) \<and> op_lost Z' = op_lost Z \<and> op_config Z' = op_config Z"
proof -
  obtain calcs fs where "make_reports R path dir calcs fs h Z w = Done (res, Z', w')"
    using report_phase_make [OF assms(1)] .
  from make_reports_Done [OF this] assms(2) show ?thesis by (simp add: sql_helper_close_def)
qed

text \<open>C21: A run that returns has closed its connection exactly when it was successful: every error leaves it
  open, and the next run overwrites the handle, after which nothing can close it.\<close>

theorem run_leaves_connection:
  assumes "optimizer_run R Z w = Done (res, Z', w')"
  shows "(sh_db (op_sql Z') = None \<longleftrightarrow> res = SUCCESS) \<and>
    op_lost Z' = op_lost Z + (if sh_db (op_sql Z) = None then 0 else 1) \<and> op_config Z' = op_config Z"
proof -
  obtain dir where dir: "oc_data_dir (op_config Z) = Valid dir"
    using assms by (auto simp: optimizer_run_def split: cptr.splits)
  let ?path = "db_path dir" and ?Z = "reopen Z"
  obtain r h where h: "sql_helper_open (ru_open R) (ow_db w ?path) (op_sql Z) = (r, h)" by force
  then have opened: "sh_db h \<noteq> None" by (auto simp: sql_helper_open_def split: if_splits)
  show ?thesis
  proof (cases "r = SUCCESS \<and> ru_schema R \<and> ru_pool R (oc_max_threads (op_config Z))")
    case False
    then show ?thesis using assms opened by (auto simp: optimizer_run_def dir h Let_def reopen_lost split: if_splits)
  next
    case True
    with assms obtain h1 ok where phase: "cache_phase R dir (op_config Z) h = Done (h1, ok)"
      and rest: "(if \<not> ok then Done (ERR_NO_MEMORY, ?Z\<lparr>op_sql := h1\<rparr>, committed ?path h1 w)
        else report_phase R ?path dir h1 ?Z w) = Done (res, Z', w')"
      by (auto simp: optimizer_run_def dir h Let_def then_run_iff)
    have "sh_db h1 \<noteq> None" using cache_phase_open [OF phase opened] .
    then show ?thesis
      using rest report_phase_closes [of R ?path dir h1 ?Z w] by (cases ok) (auto simp: reopen_lost)
  qed
qed

section \<open>A panel that faces east\<close>

lemma find_is_first: "List.find P xs = (case filter P xs of [] \<Rightarrow> None | x # ys \<Rightarrow> Some x)"
  by (induction xs) simp_all

text \<open>C25: The azimuth of a panel that faces east is negative. The configuration of the weather
  handler has it increased by 2 to the 32; as the \<open>float\<close> of the request this is 2 to the 32 itself for up to
  128 degrees, so all these panels ask for the same. The values are stored under the azimuth increased by 2
  to the 16, and the calculation looks for the azimuth itself. In a table whose azimuths are those the program stores it never finds its
  panel, and takes the first place nearby in the order of the table.\<close>

theorem east_panel_not_found:
  assumes "fc_panel F = Some p" and "sint (pn_azimuth p) < 0"
  shows "uint (wc_panel_azimuth (wch_conf_for F b)) = 2 ^ 32 + sint (pn_azimuth p) \<and>
    (- 128 \<le> sint (pn_azimuth p) \<longrightarrow> float_of_uint (wc_panel_azimuth (wch_conf_for F b)) = 2 ^ 32) \<and>
    fr_panel_azimuth (facility_row_of i (set_place (wch_conf_for F b) W) b) = 2 ^ 16 + sint (pn_azimuth p) \<and>
    ((\<forall>f \<in> set (scan (ct_facilities t)). 0 \<le> fr_panel_azimuth f) \<longrightarrow>
      pick_facility scan (fc_lat F) (fc_lon F) tilt (sint (pn_azimuth p)) b t =
        List.find (\<lambda>f. same_place (fc_lat F) (fc_lon F) f \<and> fr_forecast f = b) (scan (ct_facilities t)))"
proof -
  let ?z = "sint (pn_azimuth p)"
  have low: "- (2 ^ 15) \<le> ?z" using sint_ge [of "pn_azimuth p"] by simp
  have "uint (scast (pn_azimuth p) :: 32 word) = ?z mod 2 ^ 32"
    by (simp only: scast_eq unsigned_of_int take_bit_eq_mod len_num1 len_bit0) simp
  also have "\<dots> = (2 ^ 32 + ?z) mod 2 ^ 32" by simp
  also have "\<dots> = 2 ^ 32 + ?z" using low assms(2) by (intro mod_pos_pos_trivial) simp_all
  finally have request: "uint (wc_panel_azimuth (wch_conf_for F b)) = 2 ^ 32 + ?z"
    by (simp add: wch_conf_for_def assms(1))
  have "uint (ucast (wc_panel_azimuth (wch_conf_for F b)) :: 16 word) = (2 ^ 32 + ?z) mod 2 ^ 16"
    by (simp only: ucast_eq unsigned_of_int take_bit_eq_mod request len_num1 len_bit0) simp
  also have "\<dots> = (2 ^ 16 + ?z + 65535 * 2 ^ 16) mod 2 ^ 16" by simp
  also have "\<dots> = (2 ^ 16 + ?z) mod 2 ^ 16" by (rule mod_mult_self1)
  also have "\<dots> = 2 ^ 16 + ?z" using low assms(2) by (intro mod_pos_pos_trivial) simp_all
  finally have stored: "fr_panel_azimuth (facility_row_of i (set_place (wch_conf_for F b) W) b) = 2 ^ 16 + ?z"
    by (simp add: facility_row_of_def set_place_def)
  have "pick_facility scan (fc_lat F) (fc_lon F) tilt ?z b t =
      List.find (\<lambda>f. same_place (fc_lat F) (fc_lon F) f \<and> fr_forecast f = b) (scan (ct_facilities t))"
    if "\<forall>f \<in> set (scan (ct_facilities t)). 0 \<le> fr_panel_azimuth f"
  proof -
    let ?near = "\<lambda>f. same_place (fc_lat F) (fc_lon F) f \<and> fr_forecast f = b"
    let ?fs = "filter ?near (scan (ct_facilities t))"
    let ?k = "\<lambda>f. if fr_panel_tilt f = tilt \<and> fr_panel_azimuth f = ?z then 0 else 1 :: int"
    have "map ?k ?fs = map (\<lambda>f. 1) ?fs" by (rule map_cong [OF refl]) (use that assms(2) in force)
    also have "sorted \<dots>" by (simp add: sorted_wrt_iff_nth_less)
    finally have "sort_key ?k ?fs = ?fs" by (rule sort_key_id_if_sorted)
    then show ?thesis by (simp add: pick_facility_def find_is_first split: list.split)
  qed
  moreover have "- 128 \<le> ?z \<Longrightarrow> float_of_uint (wc_panel_azimuth (wch_conf_for F b)) = 2 ^ 32"
    by (rule float_of_negative [OF request _ assms(2)])
  ultimately show ?thesis using request stored by blast
qed

section \<open>Instances\<close>

definition live_config :: optimizer_config where
  "live_config = \<lparr>oc_data_dir = Valid ''d'', oc_calcs_dir = Valid ''c'', oc_facility_dir = Valid ''f'',
     oc_facilities = Some [plain_facility], oc_count = 1, oc_max_threads = 2\<rparr>"

definition unreadable_file :: config_env where
  "unreadable_file = \<lparr>oe_get = Inl ERR_IO, oe_mem = mem_unlimited, oe_config = (\<lambda>path key. None),
     oe_list = (\<lambda>dir. None)\<rparr>"

text \<open>The second reload of a file that cannot be read frees everything twice.\<close>

theorem reloads_defined_witness:
  "reloads [unreadable_file, unreadable_file] live_config = Undefined"
proof -
  let ?Es = "[unreadable_file, unreadable_file]"
  have "all_live live_config" "\<forall>E \<in> set ?Es. \<forall>n. oe_mem E n" "\<not> complete_file unreadable_file"
    by (simp_all add: all_live_def live_config_def unreadable_file_def mem_unlimited_def complete_file_def)
  with reloads_defined [of live_config ?Es] show ?thesis by (auto intro: exI [of _ 0])
qed

definition plain_optimizer :: optimizer where
  "plain_optimizer = \<lparr>op_config = live_config, op_sql = \<lparr>sh_db = None, sh_locked = False\<rparr>, op_lost = 0\<rparr>"

definition empty_world :: opti_world where
  "empty_world = \<lparr>ow_db = (\<lambda>path. no_tables), ow_calc = no_world, ow_meter = broken_db, ow_reports = []\<rparr>"

definition plain_report_env :: report_env where
  "plain_report_env = \<lparr>re_mem = mem_unlimited, re_print = (\<lambda>j. None), re_write = (\<lambda>s f. True),
     re_open_txt = (\<lambda>f. True), re_spots = (\<lambda>t0 t1. Inl ERR_NOT_FOUND), re_weather = (\<lambda>t. Inl ERR_NOT_FOUND),
     re_now = 0, re_today = 0, re_date = ''1970-01-01'', re_calcs_dir = ''c''\<rparr>"

definition plain_rows_env :: rows_env where
  "plain_rows_env = \<lparr>lr_mutex = True, lr_open = False, lr_mem = mem_unlimited, lr_columns = ok_columns,
     lr_prepare = True, lr_fail = None\<rparr>"

definition plain_run_env :: "bool \<Rightarrow> json_doc run_env" where
  "plain_run_env open_ok = \<lparr>ru_open = open_ok, ru_schema = True, ru_pool = (\<lambda>n. True), ru_mem = mem_unlimited,
     ru_add = (\<lambda>i. True), ru_schedule = rev [0..<6] @ [0..<6], ru_ech = (\<lambda>i. plain_spot_env one_price_reply),
     ru_wch = (\<lambda>i. plain_meteo_env (J_obj [])), ru_calc = plain_tasks (\<lambda>path. True), ru_local = sample_local,
     ru_today = 0, ru_rows = plain_rows_env, ru_report = (\<lambda>F. plain_report_env), ru_reads = (\<lambda>t0 t1. calls_fine 0)\<rparr>"

theorem run_leaves_connection_witness:
  "\<exists>Z'. optimizer_run (plain_run_env False) plain_optimizer empty_world = Done (ERR_FATAL, Z', empty_world) \<and>
     sh_db (op_sql Z') \<noteq> None"
proof -
  obtain Z' where run: "optimizer_run (plain_run_env False) plain_optimizer empty_world =
      Done (ERR_FATAL, Z', empty_world)"
    by (simp add: optimizer_run_def plain_optimizer_def live_config_def plain_run_env_def sql_helper_open_def Let_def)
  from run_leaves_connection [OF this] run show ?thesis by simp
qed

lemma plain_weather_fine: "weather_fine (plain_meteo_env (J_obj [])) 0 conf"
proof -
  let ?E = "plain_meteo_env (J_obj [])"
  have get: "cj_get (me_json ?E) (J_obj []) key = None" for key
    by (simp add: plain_meteo_env_def doc_tree_def)
  have "wch_request ?E conf W \<noteq> None" for W
    by (simp add: wch_request_def meteo_get_15_minutely_def meteo_get_current_def meteo_reply_def
        meteo_get_response_json_def meteo_parse_forecast_def meteo_parse_current_def plain_meteo_simps get Let_def)
  then show ?thesis by (simp add: weather_fine_def plain_meteo_simps cutoff_of_def retention_days_def)
qed

text \<open>The reply does not depend on the request.\<close>

lemma one_price_fetched:
  assumes "se_http E = (\<lambda>url. Some ''x'')" and "se_mem E = mem_unlimited"
    and "se_json E = doc_tree (\<lambda>s. Some one_price_reply)" and "se_epoch E ''a'' = t0" and "se_epoch E ''b'' = t1"
    and "t0 \<noteq> - 1" and "t1 \<noteq> - 1"
  shows "epjn_update E pc date = Some (Inr \<lparr>en_prices = [\<lparr>ep_time_start = t0, ep_time_end = t1, ep_sek = 1,
    ep_eur = 1 / 10, ep_exr = 10\<rparr>], en_price_class = pc\<rparr>)"
  using assms by (simp add: epjn_update_def epjn_get_response_json_def mem_unlimited_def epjn_item_def
      doc_tree_def one_price_reply_def number_at_def Let_def)

lemma plain_prices_fine:
  "prices_fine (plain_spot_env one_price_reply) 0 pc
     \<lparr>en_prices = [\<lparr>ep_time_start = 864000, ep_time_end = 864900, ep_sek = 1, ep_eur = 1 / 10, ep_exr = 10\<rparr>],
      en_price_class = pc\<rparr>"
proof -
  have "epjn_update (plain_spot_env one_price_reply) pc date =
    Some (Inr \<lparr>en_prices = [\<lparr>ep_time_start = 864000, ep_time_end = 864900, ep_sek = 1, ep_eur = 1 / 10,
      ep_exr = 10\<rparr>], en_price_class = pc\<rparr>)" for date
    by (rule one_price_fetched) (simp_all add: plain_spot_env_def)
  then show ?thesis
    by (simp add: prices_fine_def cutoff_of_def retention_days_def day_start_def)
      (simp add: plain_spot_env_def mem_unlimited_def target_day_def)
qed

lemma all_twice: "k < 6 \<Longrightarrow> 2 \<le> count_list (rev [0..<6] @ [0..<6]) k"
  by (auto simp: upt_rec less_Suc_eq numeral_eq_Suc)

theorem run_fills_caches_witness:
  "\<exists>t'. optimizer_run (plain_run_env True) plain_optimizer empty_world =
      report_phase (plain_run_env True) (db_path ''d'') ''d'' \<lparr>sh_db = Some (sql_rest t'), sh_locked = False\<rparr>
        (reopen plain_optimizer) empty_world \<and>
    (\<forall>cl. spot_map t' cl SPOT_SEK 864000 = Some \<lparr>sp_time_start = 864000, sp_time_end = 864900, sp_price = 1\<rparr>)"
proof -
  let ?P = "\<lambda>pc. \<lparr>en_prices = [\<lparr>ep_time_start = 864000, ep_time_end = 864900, ep_sek = 1, ep_eur = 1 / 10,
    ep_exr = 10\<rparr>], en_price_class = pc\<rparr>"
  let ?R = "plain_run_env True" and ?E = "plain_spot_env one_price_reply"
  have R: "ru_open ?R" "ru_schema ?R" "ru_pool ?R n" "\<forall>n. ru_mem ?R n" "\<forall>i. ru_add ?R i"
    "\<forall>k < 4 + 2 * length [plain_facility]. 2 \<le> count_list (ru_schedule ?R) k" "ru_ech ?R i = ?E" "ru_wch ?R i = plain_meteo_env (J_obj [])" for n i
    using all_twice by (simp_all add: plain_run_env_def mem_unlimited_def)
  have Z: "oc_data_dir (op_config plain_optimizer) = Valid ''d''"
    "oc_facilities (op_config plain_optimizer) = Some [plain_facility]"
    "sh_locked (op_sql plain_optimizer) = False" "ow_db empty_world path = no_tables" for path
    by (simp_all add: plain_optimizer_def live_config_def empty_world_def)
  have fine: "\<forall>pc. prices_fine (ru_ech ?R (class_index pc)) 0 pc (?P pc)"
    "\<forall>F \<in> set [plain_facility]. \<forall>b i. weather_fine (ru_wch ?R i) 0 (wch_conf_for F b)"
    "keys_distinct spot_key (ct_spots (ow_db empty_world (db_path ''d'')))"
    unfolding R Z using plain_prices_fine plain_weather_fine by (simp_all add: no_tables_def keys_distinct_def)
  from run_fills_caches [OF Z(1,2) R(1,2,3) R(4,5,6) fine, unfolded Z] obtain t' where
    t': "optimizer_run ?R plain_optimizer empty_world = report_phase ?R (db_path ''d'') ''d''
      \<lparr>sh_db = Some (sql_rest t'), sh_locked = False\<rparr> (reopen plain_optimizer) empty_world"
    and m: "\<And>cl cu time. 0 \<le> time \<Longrightarrow> spot_map t' cl cu time =
       (if cu = SPOT_SEK then day_filled (ru_ech ?R (class_index cl)) (?P cl) (spot_map no_tables cl SPOT_SEK) time
        else spot_map no_tables cl cu time)" by blast
  have "spot_map no_tables cl cu time = None" for cl cu time by (simp add: spot_map_def no_tables_def)
  then have "spot_map t' cl SPOT_SEK 864000 = Some \<lparr>sp_time_start = 864000, sp_time_end = 864900, sp_price = 1\<rparr>" for cl
    by (simp add: m day_filled_def fetched_prices_def)
  with t' show ?thesis by blast
qed

definition east_facility :: facility_config where
  "east_facility = plain_facility\<lparr>fc_panel := Some \<lparr>pn_size = 20, pn_tilt = 30, pn_azimuth = - 90\<rparr>\<rparr>"

theorem east_panel_not_found_witness:
  "uint (wc_panel_azimuth (wch_conf_for east_facility True)) = 4294967206 \<and>
   float_of_uint (wc_panel_azimuth (wch_conf_for east_facility True)) = 4294967296 \<and>
   fr_panel_azimuth (facility_row_of 1 (set_place (wch_conf_for east_facility True) no_weather) True) = 65446"
proof -
  have F: "fc_panel east_facility = Some \<lparr>pn_size = 20, pn_tilt = 30, pn_azimuth = - 90\<rparr>"
    "sint (pn_azimuth \<lparr>pn_size = 20, pn_tilt = 30, pn_azimuth = - 90\<rparr>) = - 90"
    by (simp_all add: east_facility_def)
  with east_panel_not_found [OF F(1), of True 1 no_weather id no_tables 0] show ?thesis by simp
qed

end
