(* ===== verification/Daemon.thy ===== *)
theory Daemon
  imports Optimizer
begin

text \<open>
  The daemon around the optimizer (\<open>optimizer/src/main.c\<close>): its signals, its timer, and the socket on
  which the server tells it what to do (\<open>common/src/unix_domain_socket.c\<close>). One iteration of the main
  loop is a function of what the iteration sees: the time, the outcome of the system calls, the
  environments of the run or reload, and the signals that arrive before the flags are looked at, while
  the chosen branch is working, while the socket is served, and after it. A history variable records which operations were done and
  who asked for them. The theorems say which signals are lost, that an exit is prompt, how often the
  timer runs the optimizer, and that an error of the socket is final.
\<close>

section \<open>The socket\<close>

text \<open>What \<open>uds_client_send\<close> does when \<open>socket\<close>, \<open>connect\<close> and \<open>write\<close> have these outcomes: its result, the
  bytes that were sent, and the number of sockets it leaves open.\<close>

definition uds_client_send :: "bool \<Rightarrow> bool \<Rightarrow> nat \<Rightarrow> string \<Rightarrow> status \<times> string \<times> nat" where
  "uds_client_send socket_ok connect_ok written command =
     (if \<not> socket_ok then (ERR_FATAL, [], 0)
      else if \<not> connect_ok then (ERR_FATAL, [], 1)
      else (SUCCESS, take written command, 0))"

text \<open>The result, whether the descriptor is delivered, and the number of sockets left open besides.\<close>

definition uds_server_start :: "bool \<Rightarrow> bool \<Rightarrow> bool \<Rightarrow> status \<times> bool \<times> nat" where
  "uds_server_start socket_ok bind_ok listen_ok =
     (if \<not> socket_ok then (ERR_FATAL, False, 0)
      else if \<not> bind_ok then (ERR_FATAL, False, 0)
      else if \<not> listen_ok then (ERR_FATAL, False, 0)
      else (SUCCESS, True, 0))"

definition uds_run :: string where "uds_run = ''run''"
definition uds_reload :: string where "uds_reload = ''reload''"
definition uds_kill :: string where "uds_kill = ''kill''"

section \<open>Signals\<close>

datatype signal = SIGINT | SIGTERM | SIGUSR1 | SIGUSR2

record signal_flags =
  sig_ignore :: bool
  sig_exit :: bool
  sig_new_data :: bool
  sig_update_config :: bool

fun handle_signal :: "signal \<Rightarrow> signal_flags \<Rightarrow> signal_flags" where
  "handle_signal SIGINT fl = fl\<lparr>sig_ignore := True\<rparr>"
| "handle_signal SIGTERM fl = fl\<lparr>sig_exit := True\<rparr>"
| "handle_signal SIGUSR1 fl = fl\<lparr>sig_new_data := True\<rparr>"
| "handle_signal SIGUSR2 fl = fl\<lparr>sig_update_config := True\<rparr>"

section \<open>The daemon\<close>

datatype cause = By_signal | By_timer | By_socket
datatype action = Ran cause | Reloaded cause

record daemon =
  dm_flags :: signal_flags
  dm_next_run :: int
  dm_socket :: bool
  dm_opti :: optimizer
  dm_world :: opti_world
  dm_log :: "action list"

text \<open>What \<open>accept\<close> and \<open>read\<close> give: no client, or a failure; then nothing to read yet, a failure, the end, or
  bytes.\<close>

datatype uds_event = No_client | Accept_failed | Read_again | Read_failed | Read_end | Bytes string

text \<open>\<open>st_run\<close> and \<open>st_config\<close> are the environments of the branch, \<open>st_uds_run\<close> and \<open>st_uds_config\<close> those of a
  command of the socket. The signals come before the flags are read, during the branch, during the step of
  the socket (with a run or reload that it asks for), and after it.\<close>

record 'j step_env =
  st_now :: int
  st_run :: "'j run_env"
  st_config :: config_env
  st_event :: uds_event
  st_uds_run :: "'j run_env"
  st_uds_config :: config_env
  st_before :: "signal list"
  st_during :: "signal list"
  st_uds_during :: "signal list"
  st_after :: "signal list"

definition deliver :: "signal list \<Rightarrow> daemon \<Rightarrow> daemon" where
  "deliver sigs d = d\<lparr>dm_flags := fold handle_signal sigs (dm_flags d)\<rparr>"

definition run_optimizer :: "cause \<Rightarrow> 'j run_env \<Rightarrow> daemon \<Rightarrow> daemon run" where
  "run_optimizer c R d =
     then_run (optimizer_run R (dm_opti d) (dm_world d)) (\<lambda>(res, Z, w).
       Done (d\<lparr>dm_opti := Z, dm_world := w, dm_log := dm_log d @ [Ran c]\<rparr>))"

definition reload_config :: "cause \<Rightarrow> config_env \<Rightarrow> daemon \<Rightarrow> daemon run" where
  "reload_config c E d =
     then_run (optimizer_config_set E (op_config (dm_opti d))) (\<lambda>(res, C).
       Done (d\<lparr>dm_opti := (dm_opti d)\<lparr>op_config := C\<rparr>, dm_log := dm_log d @ [Reloaded c]\<rparr>))"

text \<open>The exits of the daemon dispose of the optimizer; \<open>None\<close> is the end of the process.\<close>

definition shut_down :: "daemon \<Rightarrow> daemon option run" where
  "shut_down d = then_run (optimizer_dispose (dm_opti d)) (\<lambda>_. Done None)"

definition set_flags :: "(signal_flags \<Rightarrow> signal_flags) \<Rightarrow> daemon \<Rightarrow> daemon" where
  "set_flags f d = d\<lparr>dm_flags := f (dm_flags d)\<rparr>"

text \<open>The chain of branches of the loop. A flag is reset when its branch has done its work.\<close>

definition main_branch :: "'j step_env \<Rightarrow> daemon \<Rightarrow> daemon option run" where
  "main_branch E d =
     (let fl = dm_flags d; during = deliver (st_during E)
      in if sig_exit fl then shut_down d
         else if sig_ignore fl then Done (Some (set_flags (sig_ignore_update (\<lambda>_. False)) (during d)))
         else if sig_new_data fl then then_run (run_optimizer By_signal (st_run E) d) (\<lambda>d1.
           Done (Some (set_flags (sig_new_data_update (\<lambda>_. False)) (during d1))))
         else if sig_update_config fl then then_run (reload_config By_signal (st_config E) d) (\<lambda>d1.
           Done (Some (set_flags (sig_update_config_update (\<lambda>_. False)) (during d1))))
         else if dm_next_run d \<le> st_now E then then_run (run_optimizer By_timer (st_run E) d) (\<lambda>d1.
           Done (Some ((set_flags (sig_new_data_update (\<lambda>_. False)) (during d1))
             \<lparr>dm_next_run := dm_next_run d1 + 900\<rparr>)))
         else Done (Some (during d)))"

text \<open>At most 7 bytes are read; the status and the daemon.\<close>

definition uds_command :: "'j step_env \<Rightarrow> string \<Rightarrow> daemon \<Rightarrow> (status \<times> daemon) option run" where
  "uds_command E bytes d =
     (let buf = cstr (take 7 bytes)
      in if buf = uds_run then then_run (run_optimizer By_socket (st_uds_run E) d) (\<lambda>d1. Done (Some (SUCCESS, d1)))
         else if buf = uds_reload
         then then_run (reload_config By_socket (st_uds_config E) d) (\<lambda>d1. Done (Some (SUCCESS, d1)))
         else if buf = uds_kill then then_run (shut_down d) (\<lambda>_. Done None)
         else Done (Some (SUCCESS, d)))"

definition uds_server_step :: "'j step_env \<Rightarrow> daemon \<Rightarrow> (status \<times> daemon) option run" where
  "uds_server_step E d =
     (case st_event E of
        No_client \<Rightarrow> Done (Some (SUCCESS, d))
      | Accept_failed \<Rightarrow> Done (Some (ERR_FATAL, d))
      | Read_again \<Rightarrow> Done (Some (SUCCESS, d))
      | Read_failed \<Rightarrow> Done (Some (ERR_FATAL, d))
      | Read_end \<Rightarrow> Done (Some (SUCCESS, d))
      | Bytes bytes \<Rightarrow> if bytes = [] then Done (Some (SUCCESS, d)) else uds_command E bytes d)"

text \<open>A failing step of the socket closes it.\<close>

definition poll_socket :: "'j step_env \<Rightarrow> daemon \<Rightarrow> daemon option run" where
  "poll_socket E d =
     (if \<not> dm_socket d then Done (Some d)
      else then_run (uds_server_step E d) (\<lambda>r. Done (map_option (\<lambda>(res, d1).
        if res \<noteq> SUCCESS then d1\<lparr>dm_socket := False\<rparr> else d1) r)))"

definition and_then :: "daemon option run \<Rightarrow> (daemon \<Rightarrow> daemon option run) \<Rightarrow> daemon option run" where
  "and_then r f = then_run r (\<lambda>x. case x of None \<Rightarrow> Done None | Some d \<Rightarrow> f d)"

definition daemon_step :: "'j step_env \<Rightarrow> daemon \<Rightarrow> daemon option run" where
  "daemon_step E d =
     and_then (main_branch E (deliver (st_before E) d)) (\<lambda>d1.
       and_then (poll_socket E d1) (\<lambda>d2. Done (Some (deliver (st_after E) (deliver (st_uds_during E) d2)))))"

fun daemon_steps :: "'j step_env list \<Rightarrow> daemon \<Rightarrow> daemon option run" where
  "daemon_steps [] d = Done (Some d)"
| "daemon_steps (E # Es) d = and_then (daemon_step E d) (daemon_steps Es)"

text \<open>The start. \<open>now\<close> is not negative; the first run of the timer is at the next quarter of an hour.\<close>

definition no_flags :: signal_flags where
  "no_flags = \<lparr>sig_ignore = False, sig_exit = False, sig_new_data = False, sig_update_config = False\<rparr>"

definition daemon_start ::
  "bool \<Rightarrow> bool \<Rightarrow> config_env \<Rightarrow> bool \<Rightarrow> int \<Rightarrow> status \<times> bool \<times> nat \<Rightarrow> opti_world \<Rightarrow> daemon option run" where
  "daemon_start log_ok tls_ok E mutex_ok now uds w =
     (if \<not> log_ok \<or> \<not> tls_ok then Done None
      else then_run (optimizer_init E mutex_ok) (\<lambda>(res, Z).
        if res \<noteq> SUCCESS \<or> fst uds \<noteq> SUCCESS then Done None
        else Done (Some \<lparr>dm_flags = no_flags, dm_next_run = (now div 900 + 1) * 900, dm_socket = fst (snd uds),
               dm_opti = Z, dm_world = w, dm_log = []\<rparr>)))"

section \<open>Flags\<close>

lemma and_then_simps [simp]:
  "and_then (Done None) f = Done None" "and_then (Done (Some d)) f = f d"
  "and_then Blocks f = Blocks" "and_then Undefined f = Undefined"
  by (simp_all add: and_then_def)

lemma and_then_Some:
  "and_then r f = Done (Some d) \<longleftrightarrow> (\<exists>d1. r = Done (Some d1) \<and> f d1 = Done (Some d))"
  by (auto simp: and_then_def then_run_iff split: option.splits)

lemma handled:
  "sig_exit (fold handle_signal sigs fl) \<longleftrightarrow> sig_exit fl \<or> SIGTERM \<in> set sigs"
  "sig_ignore (fold handle_signal sigs fl) \<longleftrightarrow> sig_ignore fl \<or> SIGINT \<in> set sigs"
  "sig_new_data (fold handle_signal sigs fl) \<longleftrightarrow> sig_new_data fl \<or> SIGUSR1 \<in> set sigs"
  "sig_update_config (fold handle_signal sigs fl) \<longleftrightarrow> sig_update_config fl \<or> SIGUSR2 \<in> set sigs"
proof -
  have "sig_exit (fold handle_signal sigs fl) = (sig_exit fl \<or> SIGTERM \<in> set sigs) \<and>
    sig_ignore (fold handle_signal sigs fl) = (sig_ignore fl \<or> SIGINT \<in> set sigs) \<and>
    sig_new_data (fold handle_signal sigs fl) = (sig_new_data fl \<or> SIGUSR1 \<in> set sigs) \<and>
    sig_update_config (fold handle_signal sigs fl) = (sig_update_config fl \<or> SIGUSR2 \<in> set sigs)"
  proof (induction sigs arbitrary: fl)
    case (Cons x sigs)
    then show ?case by (cases x) auto
  qed simp
  then show "sig_exit (fold handle_signal sigs fl) \<longleftrightarrow> sig_exit fl \<or> SIGTERM \<in> set sigs"
    "sig_ignore (fold handle_signal sigs fl) \<longleftrightarrow> sig_ignore fl \<or> SIGINT \<in> set sigs"
    "sig_new_data (fold handle_signal sigs fl) \<longleftrightarrow> sig_new_data fl \<or> SIGUSR1 \<in> set sigs"
    "sig_update_config (fold handle_signal sigs fl) \<longleftrightarrow> sig_update_config fl \<or> SIGUSR2 \<in> set sigs"
    by blast+
qed

lemma deliver_simps [simp]:
  "dm_flags (deliver sigs d) = fold handle_signal sigs (dm_flags d)"
  "dm_next_run (deliver sigs d) = dm_next_run d" "dm_socket (deliver sigs d) = dm_socket d"
  "dm_opti (deliver sigs d) = dm_opti d" "dm_world (deliver sigs d) = dm_world d"
  "dm_log (deliver sigs d) = dm_log d"
  by (simp_all add: deliver_def)

lemma set_flags_simps [simp]:
  "dm_flags (set_flags f d) = f (dm_flags d)"
  "dm_next_run (set_flags f d) = dm_next_run d" "dm_socket (set_flags f d) = dm_socket d"
  "dm_opti (set_flags f d) = dm_opti d" "dm_world (set_flags f d) = dm_world d"
  "dm_log (set_flags f d) = dm_log d"
  by (simp_all add: set_flags_def)

lemma new_data_reset:
  "(fold handle_signal sigs (fl\<lparr>sig_new_data := x\<rparr>))\<lparr>sig_new_data := y\<rparr> =
   (fold handle_signal sigs fl)\<lparr>sig_new_data := y\<rparr>"
proof (induction sigs arbitrary: fl x)
  case (Cons s sigs)
  show ?case
  proof (cases s)
    case SIGINT
    with Cons.IH [of x "fl\<lparr>sig_ignore := True\<rparr>"] show ?thesis by (cases fl) simp
  next
    case SIGTERM
    with Cons.IH [of x "fl\<lparr>sig_exit := True\<rparr>"] show ?thesis by (cases fl) simp
  next
    case SIGUSR1
    then show ?thesis by simp
  next
    case SIGUSR2
    with Cons.IH [of x "fl\<lparr>sig_update_config := True\<rparr>"] show ?thesis by (cases fl) simp
  qed
qed simp

lemma reset_after_run:
  "set_flags (sig_new_data_update (\<lambda>_. False)) (deliver (SIGUSR1 # sigs) d) =
   set_flags (sig_new_data_update (\<lambda>_. False)) (deliver sigs d)"
  using new_data_reset [of False sigs True "dm_flags d"] by (simp add: set_flags_def deliver_def)

text \<open>What a run or a reload leaves alone.\<close>

lemma run_optimizer_Done:
  assumes "run_optimizer c R d = Done d'"
  shows "dm_flags d' = dm_flags d \<and> dm_next_run d' = dm_next_run d \<and> dm_socket d' = dm_socket d \<and>
    dm_log d' = dm_log d @ [Ran c]"
  using assms by (auto simp: run_optimizer_def then_run_iff)

lemma reload_config_Done:
  assumes "reload_config c E d = Done d'"
  shows "dm_flags d' = dm_flags d \<and> dm_next_run d' = dm_next_run d \<and> dm_socket d' = dm_socket d \<and>
    dm_log d' = dm_log d @ [Reloaded c]"
  using assms by (auto simp: reload_config_def then_run_iff)

lemma shut_down_ends: "shut_down d \<noteq> Done (Some d')"
  by (simp add: shut_down_def then_run_iff)

text \<open>The socket never touches the flags or the timer.\<close>

lemma poll_socket_Done:
  assumes "poll_socket E d = Done (Some d')"
  shows "dm_flags d' = dm_flags d \<and> dm_next_run d' = dm_next_run d \<and>
    (dm_log d' = dm_log d \<or> dm_log d' = dm_log d @ [Ran By_socket] \<or> dm_log d' = dm_log d @ [Reloaded By_socket]) \<and>
    (dm_socket d' \<longrightarrow> dm_socket d)"
proof (cases "dm_socket d")
  case True
  with assms obtain res d1 where d1: "uds_server_step E d = Done (Some (res, d1))"
    and d': "d' = (if res \<noteq> SUCCESS then d1\<lparr>dm_socket := False\<rparr> else d1)"
    by (auto simp: poll_socket_def then_run_iff)
  have "dm_flags d1 = dm_flags d \<and> dm_next_run d1 = dm_next_run d \<and> dm_socket d1 = dm_socket d \<and>
      (dm_log d1 = dm_log d \<or> dm_log d1 = dm_log d @ [Ran By_socket] \<or> dm_log d1 = dm_log d @ [Reloaded By_socket])"
    using d1 by (auto simp: uds_server_step_def uds_command_def Let_def then_run_iff
        split: uds_event.splits if_splits dest: run_optimizer_Done reload_config_Done)
  then show ?thesis unfolding d' by simp
qed (use assms in \<open>simp add: poll_socket_def\<close>)

section \<open>Signals that are lost, and signals that are not\<close>

text \<open>A run was made by the chain of branches, for a signal or for the timer, and not by the socket.\<close>

definition main_ran :: "daemon \<Rightarrow> daemon \<Rightarrow> bool" where
  "main_ran d d' \<longleftrightarrow> (\<exists>c as. dm_log d' = dm_log d @ Ran c # as \<and> c \<noteq> By_socket)"

lemma main_branch_new_data:
  assumes "main_branch E d = Done (Some d')"
  shows "(\<exists>c. c \<noteq> By_socket \<and> dm_log d' = dm_log d @ [Ran c] \<and> \<not> sig_new_data (dm_flags d')) \<or>
    (\<exists>as. dm_log d' = dm_log d @ as \<and> (\<forall>c. Ran c \<notin> set as) \<and> (as = [] \<or> (\<exists>c. as = [Reloaded c])) \<and>
      (sig_new_data (dm_flags d') \<longleftrightarrow> sig_new_data (dm_flags d) \<or> SIGUSR1 \<in> set (st_during E)) \<and>
      (sig_new_data (dm_flags d) \<longrightarrow> sig_ignore (dm_flags d)))"
  using assms shut_down_ends
  by (auto simp: main_branch_def Let_def handled then_run_iff split: if_splits
      dest!: run_optimizer_Done reload_config_Done)

lemma daemon_step_new_data:
  assumes "daemon_step E d = Done (Some d')"
  shows "(\<exists>as. dm_log d' = dm_log d @ as) \<and>
    (sig_new_data (dm_flags d') \<longleftrightarrow> SIGUSR1 \<in> set (st_uds_during E @ st_after E) \<or>
      \<not> main_ran d d' \<and> (sig_new_data (dm_flags d) \<or> SIGUSR1 \<in> set (st_before E @ st_during E))) \<and>
    ((sig_new_data (dm_flags d) \<or> SIGUSR1 \<in> set (st_before E)) \<and>
      \<not> sig_ignore (dm_flags d) \<and> SIGINT \<notin> set (st_before E) \<longrightarrow> main_ran d d')"
proof -
  from assms obtain d3 d4 where d3: "main_branch E (deliver (st_before E) d) = Done (Some d3)"
    and d4: "poll_socket E d3 = Done (Some d4)" and d': "d' = deliver (st_after E) (deliver (st_uds_during E) d4)"
    by (auto simp: daemon_step_def and_then_Some)
  from poll_socket_Done [OF d4] obtain bs where bs: "dm_log d4 = dm_log d3 @ bs"
    "bs = [] \<or> bs = [Ran By_socket] \<or> bs = [Reloaded By_socket]" "dm_flags d4 = dm_flags d3" by auto
  from main_branch_new_data [OF d3] show ?thesis
  proof
    assume "\<exists>c. c \<noteq> By_socket \<and> dm_log d3 = dm_log (deliver (st_before E) d) @ [Ran c] \<and>
      \<not> sig_new_data (dm_flags d3)"
    then obtain c where "c \<noteq> By_socket" "dm_log d3 = dm_log (deliver (st_before E) d) @ [Ran c]" "\<not> sig_new_data (dm_flags d3)"
      by blast
    moreover from this bs have "main_ran d d'" by (auto simp: main_ran_def d')
    ultimately show ?thesis using bs by (auto simp: d' handled)
  next
    assume "\<exists>as. dm_log d3 = dm_log (deliver (st_before E) d) @ as \<and> (\<forall>c. Ran c \<notin> set as) \<and>
      (as = [] \<or> (\<exists>c. as = [Reloaded c])) \<and>
      (sig_new_data (dm_flags d3) \<longleftrightarrow>
        sig_new_data (dm_flags (deliver (st_before E) d)) \<or> SIGUSR1 \<in> set (st_during E)) \<and>
      (sig_new_data (dm_flags (deliver (st_before E) d)) \<longrightarrow> sig_ignore (dm_flags (deliver (st_before E) d)))"
    then obtain as where as: "dm_log d3 = dm_log (deliver (st_before E) d) @ as" "\<forall>c. Ran c \<notin> set as"
      "as = [] \<or> (\<exists>c. as = [Reloaded c])"
      "sig_new_data (dm_flags d3) \<longleftrightarrow> sig_new_data (dm_flags (deliver (st_before E) d)) \<or> SIGUSR1 \<in> set (st_during E)"
      "sig_new_data (dm_flags (deliver (st_before E) d)) \<longrightarrow> sig_ignore (dm_flags (deliver (st_before E) d))" by blast
    with bs have "\<not> main_ran d d'" by (auto simp: main_ran_def d')
    with as bs show ?thesis by (auto simp: d' handled)
  qed
qed

text \<open>A request that is pending stays pending until a run for a signal or for the timer.\<close>

lemma pending_until_run:
  assumes "daemon_steps Es d = Done (Some d')"
  shows "\<exists>as. dm_log d' = dm_log d @ as \<and>
    (sig_new_data (dm_flags d) \<longrightarrow> sig_new_data (dm_flags d') \<or> Ran By_signal \<in> set as \<or> Ran By_timer \<in> set as)"
  using assms
proof (induction Es arbitrary: d)
  case (Cons E Es)
  from Cons.prems obtain d1 where d1: "daemon_step E d = Done (Some d1)" "daemon_steps Es d1 = Done (Some d')"
    by (auto simp: and_then_Some)
  from Cons.IH [OF d1(2)] obtain as where as: "dm_log d' = dm_log d1 @ as" "sig_new_data (dm_flags d1) \<longrightarrow>
      sig_new_data (dm_flags d') \<or> Ran By_signal \<in> set as \<or> Ran By_timer \<in> set as" by blast
  note step = daemon_step_new_data [OF d1(1)]
  then obtain bs where bs: "dm_log d1 = dm_log d @ bs" by blast
  have "Ran By_signal \<in> set bs \<or> Ran By_timer \<in> set bs" if ran: "main_ran d d1"
  proof -
    from ran bs obtain c cs where "bs = Ran c # cs" "c \<noteq> By_socket" by (auto simp: main_ran_def)
    then show ?thesis by (cases c) auto
  qed
  with as bs step show ?case by (intro exI [of _ "bs @ as"]) auto
qed simp

text \<open>A request that arrives while a branch runs the optimizer makes no difference.\<close>

lemma run_ignores_new_data:
  assumes "daemon_step E d = Done (Some d')" and "main_ran d d'"
  shows "daemon_step (E\<lparr>st_during := SIGUSR1 # st_during E\<rparr>) d = daemon_step E d"
proof -
  let ?d = "deliver (st_before E) d" and ?E = "E\<lparr>st_during := SIGUSR1 # st_during E\<rparr>"
  from assms(1) obtain d3 d4 where d3: "main_branch E ?d = Done (Some d3)"
    and d4: "poll_socket E d3 = Done (Some d4)" and d': "d' = deliver (st_after E) (deliver (st_uds_during E) d4)"
    by (auto simp: daemon_step_def and_then_Some)
  have "dm_log d3 \<noteq> dm_log d \<and> (\<nexists>c. dm_log d3 = dm_log d @ [Reloaded c])"
    using assms(2) poll_socket_Done [OF d4] by (auto simp: main_ran_def d')
  then have branch: "main_branch ?E ?d = main_branch E ?d"
    using d3 by (auto simp: main_branch_def Let_def reset_after_run then_run_iff split: if_splits
        dest!: reload_config_Done)
  have "poll_socket ?E = poll_socket E"
    by (rule ext) (simp add: poll_socket_def uds_server_step_def uds_command_def Let_def split: uds_event.split)
  with branch show ?thesis by (simp add: daemon_step_def)
qed

text \<open>C20: Which requests for a run (\<open>SIGUSR1\<close>) are lost. After an iteration a request is pending exactly if
  one arrived during or after the step of the socket, or if the branches of the loop made no run and one was
  pending or arrived before or during the branch: a reload, an ignored signal and a run for the socket leave
  it pending. One that arrives while the branch runs the optimizer, for a signal or for the timer, is lost:
  the iteration is the same without it, because the flag is reset after the run. A request that is pending
  when the flags are read is answered by a run in that iteration unless a \<open>SIGINT\<close> is pending as well, and
  over all later iterations a pending request stays so until a run for a signal or for the timer.\<close>

theorem new_data_signals:
  assumes "daemon_step E d = Done (Some d')"
  shows "(sig_new_data (dm_flags d') \<longleftrightarrow> SIGUSR1 \<in> set (st_uds_during E @ st_after E) \<or>
      \<not> main_ran d d' \<and> (sig_new_data (dm_flags d) \<or> SIGUSR1 \<in> set (st_before E @ st_during E))) \<and>
    (main_ran d d' \<longrightarrow> daemon_step (E\<lparr>st_during := SIGUSR1 # st_during E\<rparr>) d = daemon_step E d) \<and>
    ((sig_new_data (dm_flags d) \<or> SIGUSR1 \<in> set (st_before E)) \<and>
      \<not> sig_ignore (dm_flags d) \<and> SIGINT \<notin> set (st_before E) \<longrightarrow> main_ran d d') \<and>
    (\<forall>Es d2. daemon_steps Es d' = Done (Some d2) \<longrightarrow> (\<exists>as. dm_log d2 = dm_log d' @ as \<and>
      (sig_new_data (dm_flags d') \<longrightarrow>
        sig_new_data (dm_flags d2) \<or> Ran By_signal \<in> set as \<or> Ran By_timer \<in> set as)))"
proof -
  have "daemon_step (E\<lparr>st_during := SIGUSR1 # st_during E\<rparr>) d = daemon_step E d" if ran: "main_ran d d'"
    by (rule run_ignores_new_data [OF assms ran])
  with daemon_step_new_data [OF assms] pending_until_run show ?thesis by blast
qed

section \<open>The exit\<close>

lemma optimizer_dispose_eq:
  "optimizer_dispose Z = (if some_dangling (op_config Z) then Undefined else Done ())"
  unfolding optimizer_dispose_def some_dangling_def
  by (cases "oc_data_dir (op_config Z)"; cases "oc_calcs_dir (op_config Z)"; cases "oc_facility_dir (op_config Z)")
    simp_all

text \<open>What every branch but the exit does with the signals that arrive meanwhile.\<close>

lemma main_branch_Done:
  assumes "main_branch E d = Done (Some d')"
  shows "\<not> sig_exit (dm_flags d) \<and> (sig_exit (dm_flags d') \<longleftrightarrow> SIGTERM \<in> set (st_during E)) \<and>
    dm_socket d' = dm_socket d \<and>
    (\<exists>as. dm_log d' = dm_log d @ as \<and> Ran By_socket \<notin> set as \<and> Reloaded By_socket \<notin> set as)"
proof -
  have "\<not> sig_exit (dm_flags d)" using assms shut_down_ends by (auto simp: main_branch_def Let_def)
  then show ?thesis using assms
    by (auto simp: main_branch_def Let_def handled then_run_iff split: if_splits
        dest!: run_optimizer_Done reload_config_Done)
qed

text \<open>C18: A request to end is never lost: in whatever part of an iteration it arrives, the next iteration
  ends the daemon, whatever else is pending. The end has defined behaviour unless a reload of the
  configuration has left freed strings behind.\<close>

theorem exit_signal:
  assumes "daemon_step E d = Done (Some d1)" and "SIGTERM \<in> set (st_before E @ st_during E @ st_uds_during E @ st_after E)"
  shows "daemon_step E2 d1 = (if some_dangling (op_config (dm_opti d1)) then Undefined else Done None)"
proof -
  from assms(1) obtain d3 d4 where d3: "main_branch E (deliver (st_before E) d) = Done (Some d3)"
    and d4: "poll_socket E d3 = Done (Some d4)" and d1: "d1 = deliver (st_after E) (deliver (st_uds_during E) d4)"
    by (auto simp: daemon_step_def and_then_Some)
  have "SIGTERM \<notin> set (st_before E)" using main_branch_Done [OF d3] by (simp add: handled)
  then have "sig_exit (dm_flags d1)"
    using assms(2) main_branch_Done [OF d3] poll_socket_Done [OF d4] by (auto simp: d1 handled)
  then show ?thesis
    by (simp add: daemon_step_def main_branch_def handled shut_down_def optimizer_dispose_eq)
qed

section \<open>The timer\<close>

text \<open>An iteration in which nothing happens but time.\<close>

definition quiet :: "'j step_env \<Rightarrow> bool" where
  "quiet E \<longleftrightarrow> st_before E = [] \<and> st_during E = [] \<and> st_uds_during E = [] \<and> st_after E = [] \<and> st_event E = No_client"

text \<open>The runs that are due at a time, one for each quarter of an hour since the next run was due.\<close>

definition quarters_due :: "int \<Rightarrow> int \<Rightarrow> nat" where
  "quarters_due next now = (if next \<le> now then nat ((now - next) div 900 + 1) else 0)"

lemma quarters_due_step: "next \<le> now \<Longrightarrow> quarters_due next now = Suc (quarters_due (next + 900) now)"
proof -
  assume *: "next \<le> now"
  have "(now - next) div 900 = (now - (next + 900)) div 900 + 1"
    using div_add_self2 [of 900 "now - (next + 900)"] by simp
  moreover have "(now - (next + 900)) div 900 = - 1" if "now < next + 900"
    using int_div_pos_eq [of "now - (next + 900)" 900 "- 1" "now - next"] that * by simp
  moreover have "0 \<le> (now - (next + 900)) div 900" if "next + 900 \<le> now"
    using that by (simp add: pos_imp_zdiv_nonneg_iff)
  ultimately show ?thesis using * by (auto simp: quarters_due_def Suc_nat_eq_nat_zadd1)
qed

lemma quarters_due_mono: "T \<le> U \<Longrightarrow> quarters_due next T \<le> quarters_due next U"
  by (auto simp: quarters_due_def intro!: nat_mono zdiv_mono1)

lemma quiet_step:
  assumes "quiet E" and "dm_flags d = no_flags" and "daemon_step E d = Done (Some d1)"
  shows "dm_flags d1 = no_flags \<and>
    (if dm_next_run d \<le> st_now E
     then dm_next_run d1 = dm_next_run d + 900 \<and> dm_log d1 = dm_log d @ [Ran By_timer]
     else dm_next_run d1 = dm_next_run d \<and> dm_log d1 = dm_log d)"
proof -
  have none: "deliver [] x = x" for x by (simp add: deliver_def)
  have sock: "poll_socket E x = Done (Some x)" for x
    using assms(1) by (simp add: poll_socket_def uds_server_step_def quiet_def)
  have "main_branch E d = Done (Some d1)"
    using assms(1,3) by (simp add: daemon_step_def and_then_Some quiet_def none sock [unfolded quiet_def])
  then show ?thesis
    using assms(1,2) by (auto simp: main_branch_def Let_def no_flags_def quiet_def none then_run_iff
        split: if_splits dest!: run_optimizer_Done)
qed

text \<open>C19: While nothing else happens, the timer catches up: if all iterations see times between \<open>T\<close> and
  \<open>U\<close>, then the number of runs is the number of iterations or that of the quarters of an hour that were
  due, whichever is less, where those due at \<open>T\<close> are not missed and those not due at \<open>U\<close> are not made.
  Each run moves the next one by a quarter of an hour, so after enough iterations it lies behind \<open>T\<close>.\<close>

theorem timer_runs:
  assumes "daemon_steps Es d = Done (Some d')" and "dm_flags d = no_flags"
    and "\<forall>E \<in> set Es. quiet E \<and> T \<le> st_now E \<and> st_now E \<le> U"
  shows "\<exists>r. dm_log d' = dm_log d @ replicate r (Ran By_timer) \<and> dm_next_run d' = dm_next_run d + 900 * int r \<and>
    min (length Es) (quarters_due (dm_next_run d) T) \<le> r \<and> r \<le> min (length Es) (quarters_due (dm_next_run d) U)"
  using assms
proof (induction Es arbitrary: d)
  case (Cons E Es)
  from Cons.prems(1) obtain d1 where d1: "daemon_step E d = Done (Some d1)" "daemon_steps Es d1 = Done (Some d')"
    by (auto simp: and_then_Some)
  have E: "quiet E" "T \<le> st_now E" "st_now E \<le> U" using Cons.prems(3) by simp_all
  note step = quiet_step [OF E(1) Cons.prems(2) d1(1)]
  have "dm_flags d1 = no_flags" using step by blast
  from Cons.IH [OF d1(2) this] Cons.prems(3) obtain r where r:
    "dm_log d' = dm_log d1 @ replicate r (Ran By_timer)" "dm_next_run d' = dm_next_run d1 + 900 * int r"
    "min (length Es) (quarters_due (dm_next_run d1) T) \<le> r" "r \<le> min (length Es) (quarters_due (dm_next_run d1) U)"
    by auto
  show ?case
  proof (cases "dm_next_run d \<le> st_now E")
    case True
    with E(3) have "dm_next_run d \<le> U" by simp
    then have U: "quarters_due (dm_next_run d) U = Suc (quarters_due (dm_next_run d1) U)"
      using step True by (simp add: quarters_due_step)
    have T: "quarters_due (dm_next_run d) T \<le> Suc (quarters_due (dm_next_run d1) T)"
      using step True quarters_due_step [of "dm_next_run d" T] by (cases "dm_next_run d \<le> T") (simp_all add: quarters_due_def)
    show ?thesis using r step True U T by (intro exI [of _ "Suc r"]) auto
  next
    case False
    with E(2) have "quarters_due (dm_next_run d) T = 0" by (simp add: quarters_due_def)
    then show ?thesis using r step False by (intro exI [of _ r]) auto
  qed
qed simp

section \<open>An error of the socket\<close>

lemma closed_step:
  assumes "\<not> dm_socket d"
  shows "daemon_step (E\<lparr>st_event := ev\<rparr>) d = daemon_step E d"
    and "daemon_step E d = Done (Some d1) \<Longrightarrow> \<not> dm_socket d1 \<and>
      (\<exists>as. dm_log d1 = dm_log d @ as \<and> Ran By_socket \<notin> set as \<and> Reloaded By_socket \<notin> set as)"
proof -
  have closed: "poll_socket E' x = Done (Some x)" if "\<not> dm_socket x" for E' :: "'a step_env" and x
    using that by (simp add: poll_socket_def)
  have branch: "main_branch (E\<lparr>st_event := ev\<rparr>) x = main_branch E x" for x
    by (simp add: main_branch_def Let_def)
  have socket: "\<not> dm_socket d3" if "main_branch E (deliver (st_before E) d) = Done (Some d3)" for d3
    using main_branch_Done [OF that] assms by simp
  show "daemon_step E d = Done (Some d1) \<Longrightarrow> \<not> dm_socket d1 \<and>
      (\<exists>as. dm_log d1 = dm_log d @ as \<and> Ran By_socket \<notin> set as \<and> Reloaded By_socket \<notin> set as)"
    using socket closed main_branch_Done by (fastforce simp: daemon_step_def and_then_Some)
  show "daemon_step (E\<lparr>st_event := ev\<rparr>) d = daemon_step E d"
  proof (cases "main_branch E (deliver (st_before E) d)")
    case (Done x)
    then show ?thesis using socket closed by (cases x) (simp_all add: daemon_step_def branch)
  qed (simp_all add: daemon_step_def branch)
qed

text \<open>C26: An error of the socket is final. After an iteration in which \<open>accept\<close> or \<open>read\<close> failed, the socket is
  closed in every later state, no later command is carried out, and what arrives on the socket makes no
  difference any more.\<close>

theorem socket_error_final:
  assumes "st_event E = Accept_failed \<or> st_event E = Read_failed" and "daemon_step E d = Done (Some d1)"
  shows "daemon_steps (map (\<lambda>E. E\<lparr>st_event := ev E\<rparr>) Es) d1 = daemon_steps Es d1 \<and>
    (\<forall>d2. daemon_steps Es d1 = Done (Some d2) \<longrightarrow> \<not> dm_socket d2 \<and>
      (\<exists>as. dm_log d2 = dm_log d1 @ as \<and> Ran By_socket \<notin> set as \<and> Reloaded By_socket \<notin> set as))"
proof -
  from assms(2) obtain d3 d4 where "poll_socket E d3 = Done (Some d4)" and d1: "d1 = deliver (st_after E) (deliver (st_uds_during E) d4)"
    by (auto simp: daemon_step_def and_then_Some)
  with assms(1) have "\<not> dm_socket d1" by (auto simp: poll_socket_def uds_server_step_def split: if_splits)
  then show ?thesis
  proof (induction Es arbitrary: d1)
    case (Cons E Es)
    show ?case
    proof (cases "daemon_step E d1")
      case (Done x)
      show ?thesis
      proof (cases x)
        case (Some d2)
        with Done have step: "daemon_step E d1 = Done (Some d2)" by simp
        from closed_step(2) [OF Cons.prems step] obtain as where "\<not> dm_socket d2" and
          as: "dm_log d2 = dm_log d1 @ as" "Ran By_socket \<notin> set as" "Reloaded By_socket \<notin> set as" by blast
        note rest = Cons.IH [OF this(1)]
        have "\<exists>bs. dm_log d3 = dm_log d1 @ bs \<and> Ran By_socket \<notin> set bs \<and> Reloaded By_socket \<notin> set bs"
          if "daemon_steps Es d2 = Done (Some d3)" for d3
        proof -
          from rest that obtain bs where "dm_log d3 = dm_log d2 @ bs" "Ran By_socket \<notin> set bs"
            "Reloaded By_socket \<notin> set bs" by blast
          with as show ?thesis by (intro exI [of _ "as @ bs"]) simp
        qed
        with rest show ?thesis by (simp add: closed_step(1) [OF Cons.prems] step)
      qed (simp add: closed_step(1) [OF Cons.prems] Done)
    qed (simp_all add: closed_step(1) [OF Cons.prems])
  qed simp
qed

section \<open>Instances\<close>

text \<open>A daemon whose runs fail to open the database, and its iterations.\<close>

definition plain_daemon :: "optimizer \<Rightarrow> daemon" where
  "plain_daemon Z = \<lparr>dm_flags = no_flags, dm_next_run = 900, dm_socket = True, dm_opti = Z,
     dm_world = empty_world, dm_log = []\<rparr>"

definition plain_step :: "int \<Rightarrow> uds_event \<Rightarrow> json_doc step_env" where
  "plain_step now ev = \<lparr>st_now = now, st_run = plain_run_env False, st_config = unreadable_file, st_event = ev,
     st_uds_run = plain_run_env False, st_uds_config = unreadable_file, st_before = [], st_during = [],
     st_uds_during = [], st_after = []\<rparr>"

lemma plain_step_simps [simp]:
  "st_now (plain_step now ev) = now" "st_event (plain_step now ev) = ev" "st_before (plain_step now ev) = []"
  "st_during (plain_step now ev) = []" "st_uds_during (plain_step now ev) = []" "st_after (plain_step now ev) = []"
  "st_run (plain_step now ev) = plain_run_env False"
  by (simp_all add: plain_step_def)

lemma plain_runs:
  assumes "oc_data_dir (op_config (dm_opti d)) = Valid dir"
  shows "\<exists>Z. run_optimizer c (plain_run_env False) d = Done (d\<lparr>dm_opti := Z, dm_log := dm_log d @ [Ran c]\<rparr>) \<and>
    op_config Z = op_config (dm_opti d)"
  using assms
  by (auto simp: run_optimizer_def optimizer_run_def plain_run_env_def sql_helper_open_def Let_def)

text \<open>A step with nothing on the socket: a run for the timer, or for a request.\<close>

lemma plain_timer_step:
  assumes "oc_data_dir (op_config (dm_opti d)) = Valid dir" and "dm_flags d = no_flags"
  shows "\<exists>Z. op_config Z = op_config (dm_opti d) \<and> daemon_step (plain_step now No_client) d = Done (Some
    (if dm_next_run d \<le> now
     then d\<lparr>dm_opti := Z, dm_log := dm_log d @ [Ran By_timer], dm_next_run := dm_next_run d + 900\<rparr> else d))"
proof -
  obtain Z where Z: "run_optimizer By_timer (plain_run_env False) d =
      Done (d\<lparr>dm_opti := Z, dm_log := dm_log d @ [Ran By_timer]\<rparr>)" "op_config Z = op_config (dm_opti d)"
    using plain_runs [OF assms(1)] by blast
  have same: "set_flags f x = x\<lparr>dm_flags := f (dm_flags x)\<rparr>" "deliver [] x = x" for f x
    by (simp_all add: set_flags_def deliver_def)
  have "d\<lparr>dm_flags := no_flags\<rparr> = d" using assms(2) by simp
  then show ?thesis using Z assms(2)
    by (intro exI [of _ Z]) (simp add: daemon_step_def main_branch_def poll_socket_def uds_server_step_def same
        no_flags_def Let_def)
qed

theorem timer_runs_witness:
  "\<exists>d. daemon_steps (replicate 3 (plain_step 2000 No_client)) (plain_daemon plain_optimizer) = Done (Some d) \<and>
     dm_log d = [Ran By_timer, Ran By_timer] \<and> dm_next_run d = 2700"
proof -
  have live: "oc_data_dir (op_config plain_optimizer) = Valid ''d''"
    by (simp add: plain_optimizer_def live_config_def)
  have "\<exists>d'. daemon_steps (replicate k (plain_step 2000 No_client)) d = Done (Some d')"
    if "oc_data_dir (op_config (dm_opti d)) = Valid ''d''" "dm_flags d = no_flags" for k d
    using that
  proof (induction k arbitrary: d)
    case (Suc k)
    from plain_timer_step [OF Suc.prems, of 2000] obtain d1 where
      "daemon_step (plain_step 2000 No_client) d = Done (Some d1)"
      "oc_data_dir (op_config (dm_opti d1)) = Valid ''d''" "dm_flags d1 = no_flags"
      using Suc.prems by (auto split: if_splits)
    with Suc.IH [of d1] show ?case by simp
  qed simp
  from this [of "plain_daemon plain_optimizer" 3] obtain d where
    d: "daemon_steps (replicate 3 (plain_step 2000 No_client)) (plain_daemon plain_optimizer) = Done (Some d)"
    by (auto simp: plain_daemon_def live)
  have start: "dm_flags (plain_daemon plain_optimizer) = no_flags" by (simp add: plain_daemon_def)
  have quiet: "\<forall>E \<in> set (replicate 3 (plain_step 2000 No_client)). quiet E \<and> 2000 \<le> st_now E \<and> st_now E \<le> 2000"
    by (simp add: quiet_def)
  from timer_runs [OF d start quiet] obtain r where
    "dm_log d = replicate r (Ran By_timer)" "dm_next_run d = 900 + 900 * int r" "r = 2"
    by (auto simp: plain_daemon_def quarters_due_def)
  with d show ?thesis by (auto simp: numeral_2_eq_2)
qed

theorem new_data_signals_witness:
  "\<exists>d d2. daemon_step ((plain_step 1000 No_client)\<lparr>st_during := [SIGUSR1]\<rparr>) (plain_daemon plain_optimizer) =
       Done (Some d) \<and> dm_log d = [Ran By_timer] \<and> \<not> sig_new_data (dm_flags d) \<and>
     daemon_step ((plain_step 0 No_client)\<lparr>st_before := [SIGINT], st_during := [SIGUSR1]\<rparr>)
       (plain_daemon plain_optimizer) = Done (Some d2) \<and> sig_new_data (dm_flags d2)"
proof -
  let ?d = "plain_daemon plain_optimizer" and ?E = "plain_step 1000 No_client"
  let ?F = "(plain_step 0 No_client)\<lparr>st_before := [SIGINT], st_during := [SIGUSR1]\<rparr>"
  have start: "dm_flags ?d = no_flags" "oc_data_dir (op_config (dm_opti ?d)) = Valid ''d''"
    by (simp_all add: plain_daemon_def plain_optimizer_def live_config_def)
  from plain_timer_step [OF start(2,1), of 1000] obtain d where
    d: "daemon_step ?E ?d = Done (Some d)" "dm_flags d = no_flags" "dm_log d = [Ran By_timer]"
    by (auto simp: plain_daemon_def)
  have "main_ran ?d d" using d by (simp add: main_ran_def plain_daemon_def)
  with new_data_signals [OF d(1)] have lost: "daemon_step (?E\<lparr>st_during := [SIGUSR1]\<rparr>) ?d = daemon_step ?E ?d"
    by auto
  have "\<exists>d2. daemon_step ?F ?d = Done (Some d2) \<and> dm_log d2 = []"
    by (simp add: daemon_step_def main_branch_def poll_socket_def uds_server_step_def plain_daemon_def no_flags_def)
  then obtain d2 where d2: "daemon_step ?F ?d = Done (Some d2)" "dm_log d2 = []" by blast
  then have "\<not> main_ran ?d d2" by (simp add: main_ran_def)
  with new_data_signals [OF d2(1)] have "sig_new_data (dm_flags d2)" by auto
  with d d2 lost show ?thesis by (auto simp: no_flags_def)
qed

theorem exit_signal_witness:
  "\<exists>d. daemon_step ((plain_step 0 No_client)\<lparr>st_after := [SIGTERM]\<rparr>) (plain_daemon plain_optimizer) = Done (Some d) \<and>
     daemon_step (plain_step 0 (Bytes uds_run)) d = Done None"
proof -
  let ?d = "plain_daemon plain_optimizer" and ?E = "(plain_step 0 No_client)\<lparr>st_after := [SIGTERM]\<rparr>"
  have step: "daemon_step ?E ?d = Done (Some (deliver [SIGTERM] ?d))"
    by (simp add: daemon_step_def main_branch_def poll_socket_def uds_server_step_def plain_daemon_def no_flags_def
        deliver_def)
  have "\<not> some_dangling (op_config (dm_opti (deliver [SIGTERM] ?d)))"
    by (simp add: plain_daemon_def plain_optimizer_def live_config_def some_dangling_def)
  with exit_signal [OF step, of "plain_step 0 (Bytes uds_run)"] step show ?thesis by auto
qed

text \<open>After a failing \<open>accept\<close> not even the command to end is carried out.\<close>

theorem socket_error_final_witness:
  "\<exists>d. daemon_steps [plain_step 0 Accept_failed, plain_step 0 (Bytes uds_kill)] (plain_daemon plain_optimizer) =
       Done (Some d) \<and> \<not> dm_socket d"
proof -
  let ?d = "plain_daemon plain_optimizer"
  have step: "daemon_step (plain_step 0 Accept_failed) ?d = Done (Some (?d\<lparr>dm_socket := False\<rparr>))"
    by (simp add: daemon_step_def main_branch_def poll_socket_def uds_server_step_def plain_daemon_def no_flags_def
        deliver_def)
  have next_step: "daemon_steps [plain_step 0 (Bytes uds_kill)] (?d\<lparr>dm_socket := False\<rparr>) = Done (Some (?d\<lparr>dm_socket := False\<rparr>))"
    by (simp add: daemon_step_def main_branch_def poll_socket_def plain_daemon_def no_flags_def deliver_def)
  have "st_event (plain_step 0 Accept_failed) = Accept_failed \<or> st_event (plain_step 0 Accept_failed) = Read_failed" by simp
  from socket_error_final [OF this step, of _ "[plain_step 0 (Bytes uds_kill)]"] next_step step
  show ?thesis by auto
qed

end
