(* ===== verification/Cache_Files.thy ===== *)
theory Cache_Files
  imports Optimizer
begin

text \<open>
  The JSON files of the cache handlers (\<open>optimizer/src/electricity_cache_handler.c\<close> and
  \<open>weather_cache_handler.c\<close>), the form of the cache before it became a database: what is written, what is
  read back, and what a read leaves in the struct when it fails. The struct of the prices is kept as memory:
  a pointer and cells whose fields may not have been written yet. The theorems say that the files of
  prices and weather are read back as they were written, that a file that is not there is no error, and
  that a second read after a file without prices, or the disposal, frees
  the old prices again.
\<close>

text \<open>\<open>fe_object\<close> is the success of the first \<open>cJSON_CreateObject\<close>. \<open>fe_iso\<close> and \<open>fe_epoch\<close> are the functions
  \<open>parse_epoch_to_iso_full_datetime_string\<close> and \<open>parse_iso_full_datetime_string_to_epoch\<close>, \<open>fe_date\<close> is
  \<open>parse_epoch_to_iso_datetime_string\<close>.\<close>

record 'j file_env =
  fe_json :: "'j json_tree"
  fe_mem :: allocator
  fe_object :: bool
  fe_iso :: "int \<Rightarrow> string option"
  fe_epoch :: "string \<Rightarrow> int"
  fe_date :: "int \<Rightarrow> string option"
  fe_print :: "json_doc \<Rightarrow> string option"
  fe_write :: "string \<Rightarrow> bool"
  fe_place :: nat

text \<open>\<open>write_string_to_file\<close>, whose failure is only logged.\<close>

definition write_cache_file :: "'j file_env \<Rightarrow> json_doc \<Rightarrow> string \<Rightarrow> file_sys \<Rightarrow> file_sys" where
  "write_cache_file E d path fs =
     (case fe_print E d of
        None \<Rightarrow> fs
      | Some js \<Rightarrow> if fe_write E path then fs_write (fe_place E) path js fs else fs)"

section \<open>Prices\<close>

definition ech_validate_cache :: "string option \<Rightarrow> file_sys \<Rightarrow> status" where
  "ech_validate_cache path fs =
     (case path of
        None \<Rightarrow> ERR_INVALID_ARG
      | Some p \<Rightarrow> if fs_read fs p \<noteq> None then SUCCESS else ERR_NOT_FOUND)"

definition price_file_doc :: "(int \<Rightarrow> string option) \<Rightarrow> spot_price list \<Rightarrow> json_doc" where
  "price_file_doc date ps = J_obj [(''spots'', J_list (map (\<lambda>p. J_obj
     (opt_str ''time_start'' (date (sp_time_start p)) @ opt_str ''time_end'' (date (sp_time_end p)) @
      [(''spot_price'', J_num (sp_price p))])) ps))]"

definition ech_write_cache_json ::
  "'j file_env \<Rightarrow> electricity_spots \<Rightarrow> string option \<Rightarrow> file_sys \<Rightarrow> status \<times> file_sys" where
  "ech_write_cache_json E S path fs =
     (case path of
        None \<Rightarrow> (ERR_INVALID_ARG, fs)
      | Some p \<Rightarrow>
          if \<not> fe_object E then (ERR_JSON_PARSE, fs)
          else (SUCCESS, write_cache_file E (price_file_doc (fe_iso E) (es_prices S)) p fs))"

text \<open>A cell of the array of prices; a field that was not written yet is \<open>None\<close>.\<close>

record price_cell =
  pl_start :: "int option"
  pl_end :: "int option"
  pl_price :: "flt option"

record price_memory =
  pm_prices :: "price_cell list cptr"
  pm_count :: nat

definition blank_cell :: price_cell where
  "blank_cell = \<lparr>pl_start = None, pl_end = None, pl_price = None\<rparr>"

definition cell_of :: "spot_price \<Rightarrow> price_cell" where
  "cell_of p = \<lparr>pl_start = Some (sp_time_start p), pl_end = Some (sp_time_end p), pl_price = Some (sp_price p)\<rparr>"

text \<open>The loop. An item with a text missing has its price only; one with a time that cannot be read is
  complete, with -1 for that time.\<close>

fun ech_parse_cells :: "'j json_tree \<Rightarrow> (string \<Rightarrow> int) \<Rightarrow> 'j list \<Rightarrow> status \<times> price_cell list" where
  "ech_parse_cells J epoch [] = (SUCCESS, [])"
| "ech_parse_cells J epoch (item # rest) =
     (let price = jt_double J item ''spot_price'';
          stop = (\<lambda>c. (ERR_JSON_PARSE, c # map (\<lambda>_. blank_cell) rest))
      in case (jt_text J item ''time_start'', jt_text J item ''time_end'') of
           (Some s, Some e) \<Rightarrow>
             (let c = \<lparr>pl_start = Some (epoch s), pl_end = Some (epoch e), pl_price = Some price\<rparr>
              in if epoch s = - 1 \<or> epoch e = - 1 then stop c
                 else case ech_parse_cells J epoch rest of (res, cs) \<Rightarrow> (res, c # cs))
         | _ \<Rightarrow> stop (blank_cell\<lparr>pl_price := Some price\<rparr>))"

text \<open>The old prices are freed first.\<close>

definition ech_parse_json :: "'j file_env \<Rightarrow> price_memory \<Rightarrow> string \<Rightarrow> (status \<times> price_memory) run" where
  "ech_parse_json E M json =
     then_run (free_ptr (pm_prices M)) (\<lambda>p.
       let M1 = M\<lparr>pm_prices := p\<rparr>; J = fe_json E
       in Done (case cj_parse J (cstr json) of
            None \<Rightarrow> (ERR_JSON_PARSE, M1)
          | Some jroot \<Rightarrow>
              (case jt_get_ci J jroot ''spots'' of
                 None \<Rightarrow> (ERR_JSON_PARSE, M1)
               | Some spots \<Rightarrow>
                   if \<not> jt_is_array J spots then (ERR_JSON_PARSE, M1)
                   else let items = jt_items J spots
                        in if \<not> fe_mem E (length items * sizeof_spot_price) then (ERR_NO_MEMORY, M1\<lparr>pm_prices := Null\<rparr>)
                           else case ech_parse_cells J (fe_epoch E) items of
                             (res, cs) \<Rightarrow> (res, \<lparr>pm_prices = Valid cs, pm_count = length items\<rparr>))))"

text \<open>A file that cannot be read gives \<open>false\<close>, which is the code of success.\<close>

definition ech_read_cache ::
  "'j file_env \<Rightarrow> file_sys \<Rightarrow> string option \<Rightarrow> price_memory \<Rightarrow> (status \<times> price_memory) run" where
  "ech_read_cache E fs path M =
     (case path of
        None \<Rightarrow> Done (ERR_INVALID_ARG, M)
      | Some p \<Rightarrow>
          (case fs_read fs p of
             None \<Rightarrow> Done (SUCCESS, M)
           | Some json \<Rightarrow> then_run (ech_parse_json E M json) (\<lambda>(res, M1).
               Done (if res \<noteq> SUCCESS then ERR_INTERNAL else SUCCESS, M1))))"

section \<open>Weather\<close>

text \<open>The name is made in 512 bytes, and as many bytes are copied as the whole name has.\<close>

definition wch_get_cache_json_filepath :: "'j file_env \<Rightarrow> string \<Rightarrow> int \<Rightarrow> bool \<Rightarrow> string option run" where
  "wch_get_cache_json_filepath E base start forecast =
     (case fe_date E start of
        None \<Rightarrow> Done None
      | Some date \<Rightarrow>
          (let name = base @ (if forecast then ''/forecast-'' @ date @ ''.json'' else ''/current.json'')
           in if \<not> fe_mem E (length name + 1) then Done None
              else if 512 < length name then Undefined
              else Done (Some (snprintf_trunc 512 name))))"

definition wch_validate_cache :: "string option \<Rightarrow> file_sys \<Rightarrow> status" where
  "wch_validate_cache path fs =
     (case path of
        None \<Rightarrow> ERR_INVALID_ARG
      | Some p \<Rightarrow> if fs_read fs p \<noteq> None then SUCCESS else ERR_NOT_FOUND)"

definition weather_meta_doc :: "weather \<Rightarrow> json_doc" where
  "weather_meta_doc W = J_obj
     ([(''interval_minutes'', J_num (of_int (we_update_interval W))), (''latitude'', J_num (we_latitude W)),
       (''longitude'', J_num (we_longitude W)),
       (''solar_panel_azimuth'', J_num (of_int (uint (we_panel_azimuth W)))),
       (''solar_panel_tilt'', J_num (of_int (uint (we_panel_tilt W))))] @
      opt_str ''temperature_unit'' (we_temperature_unit W) @ opt_str ''windspeed_unit'' (we_windspeed_unit W) @
      opt_str ''precipitation_unit'' (we_precipitation_unit W) @
      opt_str ''winddirection_unit'' (we_winddirection_unit W) @ opt_str ''radiation_unit'' (we_radiation_unit W))"

definition weather_value_doc :: "(int \<Rightarrow> string option) \<Rightarrow> weather_values \<Rightarrow> json_doc" where
  "weather_value_doc date v = J_obj
     (opt_str ''timestamp'' (date (wv_timestamp v)) @
      [(''temperature'', J_num (wv_temperature v)), (''windspeed'', J_num (wv_windspeed v)),
       (''winddirection'', J_num (of_int (uint (wv_winddirection_azimuth v)))),
       (''precipitation'', J_num (wv_precipitation v)), (''radiation_direct'', J_num (wv_radiation_direct v)),
       (''radiation_direct_n'', J_num (wv_radiation_direct_n v)),
       (''radiation_diffuse'', J_num (wv_radiation_diffuse v)),
       (''radiation_shortwave'', J_num (wv_radiation_shortwave v)),
       (''radiation_tilted'', J_num (wv_radiation_tilted v)),
       (''sun_duration'', J_num (of_int (wv_sun_duration v)))])"

definition weather_file_doc :: "(int \<Rightarrow> string option) \<Rightarrow> weather \<Rightarrow> json_doc" where
  "weather_file_doc date W = J_obj [(''meta'', weather_meta_doc W),
     (''values'', J_list (map (weather_value_doc date) (we_values W)))]"

definition wch_write_cache_json ::
  "'j file_env \<Rightarrow> weather \<Rightarrow> string option \<Rightarrow> file_sys \<Rightarrow> status \<times> file_sys" where
  "wch_write_cache_json E W path fs =
     (case path of
        None \<Rightarrow> (ERR_INVALID_ARG, fs)
      | Some p \<Rightarrow>
          if \<not> fe_object E then (ERR_JSON_PARSE, fs)
          else (SUCCESS, write_cache_file E (weather_file_doc (fe_iso E) W) p fs))"

text \<open>A number that becomes an \<open>unsigned short\<close> or an \<open>int\<close> has to be in its range.\<close>

definition to_ushort :: "dbl \<Rightarrow> 16 word run" where
  "to_ushort x = (if 0 \<le> c_trunc x \<and> c_trunc x < 2 ^ 16 then Done (word_of_int (c_trunc x)) else Undefined)"

definition to_int :: "dbl \<Rightarrow> int run" where
  "to_int x = (if - (2 ^ 31) \<le> c_trunc x \<and> c_trunc x < 2 ^ 31 then Done (c_trunc x) else Undefined)"

text \<open>The copy of a unit that is not there is not defined.\<close>

definition unit_copy :: "'j file_env \<Rightarrow> 'j \<Rightarrow> string \<Rightarrow> string option run" where
  "unit_copy E meta key =
     (case dup_text (fe_mem E) (jt_text (fe_json E) meta key) of None \<Rightarrow> Undefined | Some u \<Rightarrow> Done u)"

definition wch_read_meta :: "'j file_env \<Rightarrow> 'j \<Rightarrow> weather \<Rightarrow> weather run" where
  "wch_read_meta E meta W =
     (let J = fe_json E
      in then_run (to_ushort (jt_double J meta ''solar_panel_azimuth'')) (\<lambda>azimuth.
         then_run (to_ushort (jt_double J meta ''solar_panel_tilt'')) (\<lambda>tilt.
         then_run (unit_copy E meta ''temperature_unit'') (\<lambda>temperature.
         then_run (unit_copy E meta ''windspeed_unit'') (\<lambda>windspeed.
         then_run (unit_copy E meta ''precipitation_unit'') (\<lambda>precipitation.
         then_run (unit_copy E meta ''winddirection_unit'') (\<lambda>winddirection.
         then_run (unit_copy E meta ''radiation_unit'') (\<lambda>radiation.
           Done (W\<lparr>we_update_interval := jt_int J meta ''interval_minutes'' mod 2 ^ 32,
             we_latitude := jt_double J meta ''latitude'',
             we_longitude := jt_double J meta ''longitude'', we_panel_azimuth := azimuth, we_panel_tilt := tilt,
             we_temperature_unit := temperature, we_windspeed_unit := windspeed,
             we_precipitation_unit := precipitation, we_winddirection_unit := winddirection,
             we_radiation_unit := radiation\<rparr>)))))))))"

definition zero_values :: weather_values where
  "zero_values = \<lparr>wv_timestamp = 0, wv_temperature = 0, wv_precipitation = 0, wv_windspeed = 0,
     wv_radiation_direct_n = 0, wv_radiation_tilted = 0, wv_radiation_direct = 0, wv_radiation_diffuse = 0,
     wv_radiation_shortwave = 0, wv_sun_duration = 0, wv_winddirection_azimuth = 0\<rparr>"

text \<open>An item that is no object leaves its place as it was allocated.\<close>

definition wch_read_value :: "'j file_env \<Rightarrow> 'j \<Rightarrow> weather_values run" where
  "wch_read_value E item =
     (let J = fe_json E
      in if \<not> jt_is_object J item then Done zero_values
         else then_run (to_ushort (jt_double J item ''winddirection'')) (\<lambda>direction.
           then_run (to_int (jt_double J item ''sun_duration'')) (\<lambda>sun.
           Done \<lparr>wv_timestamp = (case jt_text J item ''timestamp'' of
                     Some s \<Rightarrow> if s = ''Unknown'' then 0 else fe_epoch E s | None \<Rightarrow> 0),
             wv_temperature = jt_double J item ''temperature'', wv_precipitation = jt_double J item ''precipitation'',
             wv_windspeed = jt_double J item ''windspeed'',
             wv_radiation_direct_n = jt_double J item ''radiation_direct_n'',
             wv_radiation_tilted = jt_double J item ''radiation_tilted'',
             wv_radiation_direct = jt_double J item ''radiation_direct'',
             wv_radiation_diffuse = jt_double J item ''radiation_diffuse'',
             wv_radiation_shortwave = jt_double J item ''radiation_shortwave'',
             wv_sun_duration = sun,
             wv_winddirection_azimuth = direction\<rparr>)))"

fun wch_read_values :: "'j file_env \<Rightarrow> 'j list \<Rightarrow> weather_values list run" where
  "wch_read_values E [] = Done []"
| "wch_read_values E (item # rest) =
     then_run (wch_read_value E item) (\<lambda>v. then_run (wch_read_values E rest) (\<lambda>vs. Done (v # vs)))"

text \<open>The third component is the count, which is not that of the values when their memory is missing or the
  file has none.\<close>

definition wch_read_cache_json ::
  "'j file_env \<Rightarrow> file_sys \<Rightarrow> string option \<Rightarrow> weather \<times> nat \<Rightarrow> (status \<times> weather \<times> nat) run" where
  "wch_read_cache_json E fs path Wn =
     (let J = fe_json E
      in case path of
        None \<Rightarrow> Done (ERR_INVALID_ARG, Wn)
      | Some p \<Rightarrow>
          (case fs_read fs p of
             None \<Rightarrow> Done (ERR_FATAL, Wn)
           | Some json \<Rightarrow>
               (case cj_parse J (cstr json) of
                  None \<Rightarrow> Done (ERR_JSON_PARSE, Wn)
                | Some jroot \<Rightarrow>
                    if \<not> jt_is_object J jroot then Done (ERR_JSON_PARSE, Wn)
                    else then_run (case cj_get J jroot ''meta'' of
                                     Some meta \<Rightarrow> if jt_is_object J meta then wch_read_meta E meta (fst Wn) else Done (fst Wn)
                                   | None \<Rightarrow> Done (fst Wn)) (\<lambda>W1.
                      case cj_get J jroot ''values'' of
                        None \<Rightarrow> Done (SUCCESS, W1, snd Wn)
                      | Some vals \<Rightarrow>
                          if \<not> jt_is_array J vals then Done (SUCCESS, W1, snd Wn)
                          else let items = jt_items J vals; n = length items
                               in if \<not> fe_mem E (sizeof_weather_values * n)
                                  then Done (ERR_NO_MEMORY, W1\<lparr>we_values := []\<rparr>, n)
                                  else then_run (wch_read_values E items) (\<lambda>vs.
                                    Done (SUCCESS, W1\<lparr>we_values := vs\<rparr>, n))))))"

section \<open>Disposal\<close>

text \<open>The path of the cache is never set. The units and values of weather are set to NULL.\<close>

definition ech_dispose :: "price_memory \<Rightarrow> price_memory run" where
  "ech_dispose M = then_run (free_ptr (pm_prices M)) (\<lambda>p. Done \<lparr>pm_prices = Null, pm_count = 0\<rparr>)"

definition wch_weather_dispose :: "weather \<Rightarrow> weather" where
  "wch_weather_dispose W = W\<lparr>we_values := [], we_temperature_unit := None, we_windspeed_unit := None,
     we_precipitation_unit := None, we_winddirection_unit := None, we_radiation_unit := None\<rparr>"

definition wch_dispose :: "wch_conf \<times> weather \<Rightarrow> wch_conf \<times> weather" where
  "wch_dispose CW = (\<lparr>wc_latitude = 0, wc_longitude = 0, wc_panel_tilt = 0, wc_panel_azimuth = 0, wc_forecast = False\<rparr>,
     no_weather)"

section \<open>What is written is read\<close>

text \<open>What the files need of the libraries: what is printed of \<open>d\<close> is parsed again, the calendar functions are
  inverse on the times that are used, and nothing runs out of memory.\<close>

definition files_fine :: "json_doc file_env \<Rightarrow> (string \<Rightarrow> json_doc option) \<Rightarrow> int set \<Rightarrow> string \<Rightarrow> json_doc \<Rightarrow> bool" where
  "files_fine E parse T path d \<longleftrightarrow> fe_json E = doc_tree parse \<and> (\<forall>n. fe_mem E n) \<and> fe_object E \<and> fe_write E path \<and>
     (\<exists>js. fe_print E d = Some js \<and> parse (cstr js) = Some d) \<and>
     (\<forall>t \<in> T. \<exists>s. fe_iso E t = Some s \<and> fe_epoch E s = t \<and> s \<noteq> ''Unknown'')"

lemma written:
  assumes "files_fine E parse T path d"
  obtains js where "write_cache_file E d path fs = fs_write (fe_place E) path js fs" and "parse (cstr js) = Some d"
proof -
  obtain js where "fe_print E d = Some js" "parse (cstr js) = Some d" using assms unfolding files_fine_def by blast
  moreover have "fe_write E path" using assms by (simp add: files_fine_def)
  ultimately show thesis using that by (simp add: write_cache_file_def)
qed

lemma iso_of:
  assumes "files_fine E parse T path d" and "t \<in> T"
  obtains s where "fe_iso E t = Some s" and "fe_epoch E s = t" and "s \<noteq> ''Unknown''"
  using assms by (auto simp: files_fine_def)

lemma parse_price_cells:
  assumes "files_fine E parse T path d" and "\<forall>p \<in> set ps. sp_time_start p \<in> T \<and> sp_time_end p \<in> T" and "- 1 \<notin> T"
  shows "ech_parse_cells (fe_json E) (fe_epoch E) (map (\<lambda>p. J_obj
     (opt_str ''time_start'' (fe_iso E (sp_time_start p)) @ opt_str ''time_end'' (fe_iso E (sp_time_end p)) @
      [(''spot_price'', J_num (sp_price p))])) ps) = (SUCCESS, map cell_of ps)"
  using assms(2)
proof (induction ps)
  case (Cons p ps)
  from Cons.prems obtain s where s: "fe_iso E (sp_time_start p) = Some s" "fe_epoch E s = sp_time_start p"
    using iso_of [OF assms(1), of "sp_time_start p"] by auto
  from Cons.prems obtain e where e: "fe_iso E (sp_time_end p) = Some e" "fe_epoch E e = sp_time_end p"
    using iso_of [OF assms(1), of "sp_time_end p"] by auto
  have J: "fe_json E = doc_tree parse" using assms(1) by (simp add: files_fine_def)
  have "sp_time_start p \<noteq> - 1" "sp_time_end p \<noteq> - 1" using Cons.prems assms(3) by auto
  with Cons s e show ?case
    by (simp add: J) (simp add: doc_tree_def opt_str_def number_at_def cell_of_def Let_def)
qed simp

text \<open>A file of prices is read back as it was written, into a struct that held prices or none. A price in
  the file has the fields of the struct that was written; nothing else is kept, not the unit, not the
  currency and not the price class.\<close>

theorem price_file_round_trip:
  assumes "files_fine E parse T path (price_file_doc (fe_iso E) (es_prices S))" and "\<forall>p \<in> set (es_prices S). sp_time_start p \<in> T \<and> sp_time_end p \<in> T"
    and "- 1 \<notin> T" and "pm_prices M \<noteq> Dangling"
  shows "\<exists>fs'. ech_write_cache_json E S (Some path) fs = (SUCCESS, fs') \<and>
    ech_read_cache E fs' (Some path) M =
      Done (SUCCESS, \<lparr>pm_prices = Valid (map cell_of (es_prices S)), pm_count = length (es_prices S)\<rparr>)"
proof -
  obtain js where js: "write_cache_file E (price_file_doc (fe_iso E) (es_prices S)) path fs =
      fs_write (fe_place E) path js fs" "parse (cstr js) = Some (price_file_doc (fe_iso E) (es_prices S))"
    using written [OF assms(1)] .
  have J: "fe_json E = doc_tree parse" "\<forall>n. fe_mem E n" "fe_object E" using assms(1) by (simp_all add: files_fine_def)
  note cells = parse_price_cells [OF assms(1,2,3), unfolded J]
  obtain p where p: "free_ptr (pm_prices M) = Done p" using assms(4) by (cases "pm_prices M") simp_all
  have tree: "cj_parse (doc_tree parse) = parse" "jt_get_ci (doc_tree parse) (J_obj kvs) k = map_of kvs k"
    "jt_is_array (doc_tree parse) (J_list ds)" "jt_items (doc_tree parse) (J_list ds) = ds" for kvs k ds
    by (simp_all add: doc_tree_def)
  have "ech_parse_json E M js =
      Done (SUCCESS, \<lparr>pm_prices = Valid (map cell_of (es_prices S)), pm_count = length (es_prices S)\<rparr>)"
    using J(2) cells by (simp add: ech_parse_json_def p J(1) js(2) price_file_doc_def tree Let_def)
  then show ?thesis using js(1) J(3) by (simp add: ech_write_cache_json_def ech_read_cache_def)
qed

definition has_prices :: "'j json_tree \<Rightarrow> string \<Rightarrow> bool" where
  "has_prices J json = (case cj_parse J (cstr json) of
      None \<Rightarrow> False
    | Some j \<Rightarrow> (case jt_get_ci J j ''spots'' of None \<Rightarrow> False | Some spots \<Rightarrow> jt_is_array J spots))"

lemma parse_prices_live:
  assumes "pm_prices M = Valid cs" and "\<forall>n. fe_mem E n"
  shows "has_prices (fe_json E) json \<Longrightarrow>
      \<exists>res cs' n. ech_parse_json E M json = Done (res, \<lparr>pm_prices = Valid cs', pm_count = n\<rparr>)"
    and "\<not> has_prices (fe_json E) json \<Longrightarrow>
      ech_parse_json E M json = Done (ERR_JSON_PARSE, M\<lparr>pm_prices := Dangling\<rparr>)"
  using assms by (auto simp: has_prices_def ech_parse_json_def Let_def split: option.splits prod.splits if_splits)

text \<open>What a read of prices leaves behind, in a struct that held prices. Reading the file a second time, or
  disposing of the struct, frees the prices twice exactly when the file is there but is no JSON or has no
  array of prices. A file that is not there is a success and changes nothing.\<close>

theorem second_read_undefined:
  assumes "pm_prices M = Valid cs" and "\<forall>n. fe_mem E n"
  shows "(then_run (ech_read_cache E fs (Some path) M) (\<lambda>(res, M1). ech_read_cache E fs (Some path) M1) = Undefined \<longleftrightarrow>
      (\<exists>json. fs_read fs path = Some json \<and> \<not> has_prices (fe_json E) json)) \<and>
    (then_run (ech_read_cache E fs (Some path) M) (\<lambda>(res, M1). ech_dispose M1) = Undefined \<longleftrightarrow>
      (\<exists>json. fs_read fs path = Some json \<and> \<not> has_prices (fe_json E) json)) \<and>
    (fs_read fs path = None \<longrightarrow> ech_read_cache E fs (Some path) M = Done (SUCCESS, M))"
proof (cases "fs_read fs path")
  case None
  then show ?thesis using assms(1) by (simp add: ech_read_cache_def ech_dispose_def)
next
  case (Some json)
  show ?thesis
  proof (cases "has_prices (fe_json E) json")
    case True
    obtain res cs1 n where first: "ech_parse_json E M json = Done (res, \<lparr>pm_prices = Valid cs1, pm_count = n\<rparr>)"
      using parse_prices_live(1) [OF assms True] by blast
    have "pm_prices \<lparr>pm_prices = Valid cs1, pm_count = n\<rparr> = Valid cs1" by simp
    from parse_prices_live(1) [OF this assms(2) True] first Some True show ?thesis
      by (auto simp: ech_read_cache_def ech_dispose_def)
  next
    case False
    with parse_prices_live(2) [OF assms False] Some show ?thesis
      by (simp add: ech_read_cache_def ech_parse_json_def ech_dispose_def)
  qed
qed

section \<open>Weather comes back\<close>

lemma to_ushort_word [simp]: "to_ushort (unsigned w) = Done w"
proof -
  have "c_trunc (of_int i) = i" for i by (simp add: c_trunc_def)
  from this [of "uint w"] have "c_trunc (unsigned w) = uint w" by simp
  moreover have "uint w < 2 ^ 16" using uint_lt2p [of w] by simp
  ultimately show ?thesis by (simp add: to_ushort_def)
qed

lemma to_int_small [simp]: "- (2 ^ 31) \<le> i \<Longrightarrow> i < 2 ^ 31 \<Longrightarrow> to_int (of_int i) = Done i"
  by (simp add: to_int_def c_trunc_def)

definition int_range :: "int \<Rightarrow> bool" where
  "int_range i \<longleftrightarrow> - (2 ^ 31) \<le> i \<and> i < 2 ^ 31"

lemma file_weather_values:
  assumes "files_fine E parse T path d" and "\<forall>v \<in> set vs. wv_timestamp v \<in> T \<and> int_range (wv_sun_duration v)"
  shows "wch_read_values E (map (weather_value_doc (fe_iso E)) vs) = Done vs"
  using assms(2)
proof (induction vs)
  case (Cons v vs)
  from Cons.prems obtain s where s: "fe_iso E (wv_timestamp v) = Some s" "fe_epoch E s = wv_timestamp v" "s \<noteq> ''Unknown''"
    using iso_of [OF assms(1), of "wv_timestamp v"] by auto
  have J: "fe_json E = doc_tree parse" using assms(1) by (simp add: files_fine_def)
  have "to_int (of_int (wv_sun_duration v)) = Done (wv_sun_duration v)" using Cons.prems by (simp add: int_range_def)
  then have "wch_read_value E (weather_value_doc (fe_iso E) v) = Done v"
    using s by (simp add: wch_read_value_def weather_value_doc_def J doc_tree_def opt_str_def number_at_def Let_def)
  with Cons show ?case by simp
qed simp

text \<open>A file of weather is read back as it was written: with all units there, an interval that fits and
  durations that are integers of the machine, the struct that is read is the struct that was written,
  whatever the other one held before.\<close>

theorem weather_file_round_trip:
  assumes "files_fine E parse T path (weather_file_doc (fe_iso E) W)"
    and "\<forall>v \<in> set (we_values W). wv_timestamp v \<in> T \<and> int_range (wv_sun_duration v)"
    and "we_temperature_unit W = Some u1" "we_windspeed_unit W = Some u2" "we_precipitation_unit W = Some u3"
      "we_winddirection_unit W = Some u4" "we_radiation_unit W = Some u5"
    and "0 \<le> we_update_interval W" "we_update_interval W < 2 ^ 32"
  shows "\<exists>fs'. wch_write_cache_json E W (Some path) fs = (SUCCESS, fs') \<and>
    wch_read_cache_json E fs' (Some path) (W0, n) = Done (SUCCESS, W, length (we_values W))"
proof -
  obtain js where js: "write_cache_file E (weather_file_doc (fe_iso E) W) path fs =
      fs_write (fe_place E) path js fs" "parse (cstr js) = Some (weather_file_doc (fe_iso E) W)"
    using written [OF assms(1)] .
  have J: "fe_json E = doc_tree parse" "\<forall>n. fe_mem E n" "fe_object E" using assms(1) by (simp_all add: files_fine_def)
  have "W\<lparr>we_values := we_values W0\<rparr> = W0\<lparr>we_update_interval := we_update_interval W, we_latitude := we_latitude W,
      we_longitude := we_longitude W, we_panel_azimuth := we_panel_azimuth W, we_panel_tilt := we_panel_tilt W,
      we_temperature_unit := Some u1, we_windspeed_unit := Some u2, we_precipitation_unit := Some u3,
      we_winddirection_unit := Some u4, we_radiation_unit := Some u5\<rparr>"
    using assms(3-7) by (cases W; cases W0) simp
  then have meta: "wch_read_meta E (weather_meta_doc W) W0 = Done (W\<lparr>we_values := we_values W0\<rparr>)"
    using assms(3-9) J(2) by (simp add: wch_read_meta_def weather_meta_doc_def unit_copy_def dup_text_def J
        doc_tree_def opt_str_def number_at_def c_trunc_def Let_def)
  have tree: "cj_parse (doc_tree parse) = parse" "jt_is_object (doc_tree parse) (weather_file_doc (fe_iso E) W)"
    "cj_get (doc_tree parse) (weather_file_doc (fe_iso E) W) ''meta'' = Some (weather_meta_doc W)"
    "cj_get (doc_tree parse) (weather_file_doc (fe_iso E) W) ''values'' =
      Some (J_list (map (weather_value_doc (fe_iso E)) (we_values W)))"
    "jt_is_object (doc_tree parse) (weather_meta_doc W)" "jt_is_array (doc_tree parse) (J_list ds)"
    "jt_items (doc_tree parse) (J_list ds) = ds" for ds
    by (simp_all add: doc_tree_def weather_file_doc_def weather_meta_doc_def)
  have "wch_read_cache_json E (fs_write (fe_place E) path js fs) (Some path) (W0, n) =
      Done (SUCCESS, W, length (we_values W))"
    using file_weather_values [OF assms(1,2)] meta J(2) js(2) by (simp add: wch_read_cache_json_def J tree)
  then show ?thesis using js(1) J(3) by (simp add: wch_write_cache_json_def)
qed

section \<open>Instances\<close>

definition quarter_name :: "int \<Rightarrow> string option" where
  "quarter_name t = Some (if t = 0 then ''a'' else ''b'')"

definition one_file :: "json_doc \<Rightarrow> json_doc file_env" where
  "one_file d = \<lparr>fe_json = doc_tree (\<lambda>s. if s = ''x'' then Some d else None), fe_mem = mem_unlimited, fe_object = True,
     fe_iso = quarter_name, fe_epoch = (\<lambda>s. if s = ''a'' then 0 else 900),
     fe_date = (\<lambda>t. None), fe_print = (\<lambda>d. Some ''x''), fe_write = (\<lambda>p. True), fe_place = 0\<rparr>"

definition no_files :: file_sys where
  "no_files = \<lparr>fs_read = (\<lambda>p. None), fs_dir = (\<lambda>p. None)\<rparr>"

lemma one_file_fine: "files_fine (one_file d) (\<lambda>s. if s = ''x'' then Some d else None) {0, 900} path d"
  by (simp add: files_fine_def one_file_def mem_unlimited_def quarter_name_def)

definition one_quarter :: "spot_price list" where
  "one_quarter = [\<lparr>sp_time_start = 0, sp_time_end = 900, sp_price = 1 / 2\<rparr>]"

theorem price_file_round_trip_witness:
  "\<exists>fs'. ech_write_cache_json (one_file (price_file_doc quarter_name one_quarter))
       (no_spots\<lparr>es_prices := one_quarter\<rparr>) (Some ''f'') no_files = (SUCCESS, fs') \<and>
     ech_read_cache (one_file (price_file_doc quarter_name one_quarter)) fs' (Some ''f'') \<lparr>pm_prices = Null, pm_count = 0\<rparr> =
       Done (SUCCESS, \<lparr>pm_prices = Valid [\<lparr>pl_start = Some 0, pl_end = Some 900, pl_price = Some (1 / 2)\<rparr>], pm_count = 1\<rparr>)"
proof -
  let ?S = "no_spots\<lparr>es_prices := one_quarter\<rparr>" and ?M = "\<lparr>pm_prices = Null, pm_count = 0\<rparr>"
  let ?d = "price_file_doc quarter_name one_quarter"
  have iso: "fe_iso (one_file d) = quarter_name" for d by (simp add: one_file_def)
  have fine: "files_fine (one_file ?d) (\<lambda>s. if s = ''x'' then Some ?d else None) {0, 900} ''f''
      (price_file_doc (fe_iso (one_file ?d)) (es_prices ?S))" using one_file_fine by (simp add: iso)
  have "\<forall>p \<in> set (es_prices ?S). sp_time_start p \<in> {0, 900} \<and> sp_time_end p \<in> {0, 900}" "- 1 \<notin> {0, 900 :: int}"
    "pm_prices ?M \<noteq> Dangling" by (simp_all add: one_quarter_def)
  from price_file_round_trip [OF fine this, of no_files] show ?thesis by (auto simp: one_quarter_def cell_of_def)
qed

theorem second_read_undefined_witness:
  "then_run (ech_read_cache (one_file (J_obj [])) (no_files\<lparr>fs_read := (\<lambda>p. Some ''y'')\<rparr>) (Some ''f'')
       \<lparr>pm_prices = Valid [], pm_count = 0\<rparr>)
     (\<lambda>(res, M1). ech_read_cache (one_file (J_obj [])) (no_files\<lparr>fs_read := (\<lambda>p. Some ''y'')\<rparr>) (Some ''f'') M1) = Undefined"
proof -
  let ?E = "one_file (J_obj [])" and ?M = "\<lparr>pm_prices = Valid [], pm_count = 0\<rparr>"
  have M: "pm_prices ?M = Valid []" "\<forall>n. fe_mem ?E n" by (simp_all add: one_file_def mem_unlimited_def)
  have "\<not> has_prices (fe_json ?E) ''y''" by (simp add: has_prices_def one_file_def doc_tree_def)
  with second_read_undefined [OF M, of "no_files\<lparr>fs_read := (\<lambda>p. Some ''y'')\<rparr>" "''f''"] show ?thesis by simp
qed

definition still_air :: weather where
  "still_air = no_weather\<lparr>we_values := [zero_values], we_temperature_unit := Some ''C'', we_windspeed_unit := Some ''m/s'',
     we_precipitation_unit := Some ''mm'', we_winddirection_unit := Some ''deg'', we_radiation_unit := Some ''W/m2'',
     we_update_interval := 15, we_panel_azimuth := 180\<rparr>"

theorem weather_file_round_trip_witness:
  "\<exists>fs'. wch_write_cache_json (one_file (weather_file_doc quarter_name still_air)) still_air (Some ''f'') no_files = (SUCCESS, fs') \<and>
     wch_read_cache_json (one_file (weather_file_doc quarter_name still_air)) fs' (Some ''f'')
       (no_weather, 7) = Done (SUCCESS, still_air, 1)"
proof -
  let ?d = "weather_file_doc quarter_name still_air"
  have iso: "fe_iso (one_file d) = quarter_name" for d by (simp add: one_file_def)
  have fine: "files_fine (one_file ?d) (\<lambda>s. if s = ''x'' then Some ?d else None) {0, 900} ''f''
      (weather_file_doc (fe_iso (one_file ?d)) still_air)" unfolding iso by (rule one_file_fine)
  have W: "\<forall>v \<in> set (we_values still_air). wv_timestamp v \<in> {0, 900} \<and> int_range (wv_sun_duration v)"
    "we_temperature_unit still_air = Some ''C''" "we_windspeed_unit still_air = Some ''m/s''"
    "we_precipitation_unit still_air = Some ''mm''" "we_winddirection_unit still_air = Some ''deg''"
    "we_radiation_unit still_air = Some ''W/m2''" "0 \<le> we_update_interval still_air"
    "we_update_interval still_air < 2 ^ 32" "length (we_values still_air) = 1"
    by (simp_all add: still_air_def zero_values_def int_range_def)
  from weather_file_round_trip [OF fine W(1-8), of no_files no_weather 7] W(9) show ?thesis by auto
qed

end
