(* ===== verification/Cache_Races.thy ===== *)
theory Cache_Races
  imports Optimizer
begin

text \<open>
  A race between the tasks of a run. A weather task gives the mutex of the database back between the
  insert of its place and the insert of the values, and every other insert ends with a prune that removes
  the places without values. The theorem says that the weather of a new place is lost when a price task
  stores its prices in between, and is there when it stores them afterwards.
\<close>

definition nowhere_near :: "flt \<Rightarrow> flt \<Rightarrow> cache_tables \<Rightarrow> bool" where
  "nowhere_near lat lon t \<longleftrightarrow> (\<forall>f \<in> set (ct_facilities t). \<not> same_place lat lon f)"

definition weather_near :: "flt \<Rightarrow> flt \<Rightarrow> cache_tables \<Rightarrow> bool" where
  "weather_near lat lon t \<longleftrightarrow> (\<exists>f \<in> set (ct_facilities t). same_place lat lon f \<and>
     (\<exists>r \<in> set (ct_weather t). wr_facility r = fr_id f))"

lemma set_place_simps [simp]:
  "we_latitude (set_place C W) = wc_latitude C" "we_longitude (set_place C W) = wc_longitude C"
  "we_values (set_place C W) = we_values W"
  by (simp_all add: set_place_def)

section \<open>The steps\<close>

lemma new_place_begun:
  assumes "wch_request E conf (set_place conf no_weather) = Some (Inr W1)" and "calls_ok (me_cache E)"
    and "\<And>xs. set (me_scan E xs) = set xs" and "we_values W1 \<noteq> []"
    and "nowhere_near (wc_latitude conf) (wc_longitude conf) t"
  shows "wch_begin E conf no_weather \<lparr>sh_db = Some (sql_rest t), sh_locked = l\<rparr> =
    Some (Some (ct_next_id t, set_place conf W1),
      \<lparr>sh_db = Some (sql_rest (insert_facility (set_place conf W1) (wc_forecast conf) t)), sh_locked = l\<rparr>)"
proof -
  have "\<forall>f \<in> set (ct_facilities t). \<not> same_place (we_latitude (set_place conf W1)) (we_longitude (set_place conf W1)) f"
    using assms(5) by (simp add: nowhere_near_def)
  from find_facility_new [OF assms(3) this] show ?thesis
    using assms(1,2,4)
    by (simp add: wch_begin_def sql_helper_get_or_create_facility_def calls_ok_def tx_simps Let_def)
qed

lemma new_place_rows:
  assumes "nowhere_near (wc_latitude conf) (wc_longitude conf) t"
  shows "ct_facilities (insert_facility (set_place conf W1) forecast t) =
    ct_facilities t @ [facility_row_of (ct_next_id t) (set_place conf W1) forecast]"
  using assms by (intro new_place_facilities) (simp add: nowhere_near_def)

lemma place_row [simp]: "same_place (wc_latitude conf) (wc_longitude conf) (facility_row_of i (set_place conf W1) forecast)"
  using same_place_self [of "set_place conf W1" i forecast] by simp

lemma no_values_yet: "cache_ok t \<Longrightarrow> ct_next_id t \<notin> wr_facility ` set (ct_weather t)"
  by (fastforce simp: cache_ok_def facility_ids_def)

text \<open>After a prune the new place is gone.\<close>

lemma prune_removes:
  assumes "cache_ok t" and "nowhere_near (wc_latitude conf) (wc_longitude conf) t"
    and "t1 = insert_facility (set_place conf W1) forecast t"
  shows "ct_next_id t \<notin> facility_ids (prune_tables c (t1\<lparr>ct_spots := rs\<rparr>)) \<and>
    nowhere_near (wc_latitude conf) (wc_longitude conf) (prune_tables c (t1\<lparr>ct_spots := rs\<rparr>))"
  using no_values_yet [OF assms(1)] assms(2)
  by (auto simp: assms(3) facility_ids_def nowhere_near_def new_place_rows [OF assms(2)] facility_row_of_def)

lemma pruned_facility:
  assumes "f \<in> set (ct_facilities t)" and "r \<in> set (ct_weather (prune_tables c t))" and "wr_facility r = fr_id f"
  shows "f \<in> set (ct_facilities (prune_tables c t))"
proof -
  have "fr_id f \<in> wr_facility ` set (ct_weather (prune_tables c t))" using assms(2,3) by (metis imageI)
  with assms(1) show ?thesis by (simp only: prune_tables_simps(3) set_filter) blast
qed

text \<open>A value that is young enough keeps the place.\<close>

lemma prune_keeps:
  assumes "nowhere_near (wc_latitude conf) (wc_longitude conf) t"
    and "t1 = insert_facility (set_place conf W1) forecast t" and "v \<in> set (we_values W1)"
    and "c1 \<le> wv_timestamp v" and "c2 \<le> wv_timestamp v"
    and "t2 = prune_tables c1 (t1\<lparr>ct_weather := fold put_weather
      (map (\<lambda>v. \<lparr>wr_facility = ct_next_id t, wr_values = v\<rparr>) (we_values W1)) (ct_weather t1)\<rparr>)"
  shows "weather_near (wc_latitude conf) (wc_longitude conf) (prune_tables c2 (t2\<lparr>ct_spots := rs\<rparr>))"
proof -
  let ?rows = "map (\<lambda>v. \<lparr>wr_facility = ct_next_id t, wr_values = v\<rparr>) (we_values W1)"
  let ?k = "(ct_next_id t, wv_timestamp v)" and ?all = "fold put_weather ?rows (ct_weather t)"
  have "?k \<in> weather_key ` set (rev ?rows)" using assms(3) by (force simp: weather_key_def)
  then have "row_at weather_key ?all ?k \<noteq> None"
    using row_at_None [of weather_key "rev ?rows" ?k] by (auto simp: weather_rows.row_at_batch split: option.split)
  then obtain r where "row_at weather_key ?all ?k = Some r" by blast
  from row_at_SomeD [OF this] have "r \<in> set ?all" "wr_facility r = ct_next_id t" "wv_timestamp (wr_values r) = wv_timestamp v"
    by (simp_all add: weather_key_def)
  then have r: "r \<in> set (ct_weather (prune_tables c2 (t2\<lparr>ct_spots := rs\<rparr>)))" "wr_facility r = ct_next_id t"
    and r2: "r \<in> set (ct_weather t2)" using assms(4,5) by (simp_all add: assms(2,6))
  let ?f = "facility_row_of (ct_next_id t) (set_place conf W1) forecast"
  have f: "?f \<in> set (ct_facilities t1)" by (simp add: assms(2) new_place_rows [OF assms(1)])
  have id: "fr_id ?f = ct_next_id t" by (simp add: facility_row_of_def)
  have "?f \<in> set (ct_facilities t2)"
    unfolding assms(6) by (rule pruned_facility) (use f r2 r(2) id in \<open>simp_all add: assms(6)\<close>)
  then have "?f \<in> set (ct_facilities (prune_tables c2 (t2\<lparr>ct_spots := rs\<rparr>)))"
    by (intro pruned_facility [OF _ r(1)]) (use r(2) id in simp_all)
  with r id show ?thesis unfolding weather_near_def by (metis place_row)
qed

section \<open>The race\<close>

lemma insert_facility_map [simp]: "spot_map (insert_facility W forecast t) cl cu time = spot_map t cl cu time"
  by (simp add: spot_map_def)

text \<open>C28: The weather of a place that the cache does not know, and prices of a day it does not have. When the
  price task stores its prices between the two steps of the weather task, the prune that ends the insert
  of the prices removes the new place, the insert of the values is refused by the foreign key, and
  nothing of the place is left. When it stores them afterwards, place and values are there.\<close>

theorem weather_lost_between:
  assumes "wch_request (ru_wch R i) conf (set_place conf no_weather) = Some (Inr W1)"
    and "calls_ok (me_cache (ru_wch R i))" and "\<And>xs. set (me_scan (ru_wch R i) xs) = set xs"
    and "prices_fine (ru_ech R j) B pc P" and "cache_ok t"
    and "nowhere_near (wc_latitude conf) (wc_longitude conf) t"
    and "\<forall>d. in_target (ru_ech R j) d \<longrightarrow> spot_map t pc SPOT_SEK d = None"
    and "v \<in> set (we_values W1)" and "cutoff_of (me_cache (ru_wch R i)) \<le> wv_timestamp v"
    and "cutoff_of (se_insert (ru_ech R j)) \<le> wv_timestamp v"
  shows "\<exists>t1 t2.
    run_schedule (task_step R dir) [(i, Wch_task conf), (j, Ech_task pc)] [0, 1, 1, 0] [Start, Start]
      \<lparr>sh_db = Some (sql_rest t), sh_locked = l\<rparr> =
        Done ([Stop, Stop], \<lparr>sh_db = Some (sql_rest t1), sh_locked = l\<rparr>) \<and>
    nowhere_near (wc_latitude conf) (wc_longitude conf) t1 \<and>
    run_schedule (task_step R dir) [(i, Wch_task conf), (j, Ech_task pc)] [0, 0, 1, 1] [Start, Start]
      \<lparr>sh_db = Some (sql_rest t), sh_locked = l\<rparr> =
        Done ([Stop, Stop], \<lparr>sh_db = Some (sql_rest t2), sh_locked = l\<rparr>) \<and>
    weather_near (wc_latitude conf) (wc_longitude conf) t2"
proof -
  let ?E = "ru_wch R i" and ?S = "ru_ech R j" and ?W = "set_place conf W1"
  let ?h = "\<lambda>t. \<lparr>sh_db = Some (sql_rest t), sh_locked = l\<rparr>"
  define new where "new = insert_facility ?W (wc_forecast conf) t"
  define prices where "prices = no_spots\<lparr>es_price_class := pc, es_currency := SPOT_SEK,
    es_interval := 1440 div length (en_prices P), es_prices := fetched_prices SPOT_SEK P\<rparr>"
  define stored where "stored = (\<lambda>t. prune_tables (cutoff_of (se_insert ?S)) (t\<lparr>ct_spots :=
    fold put_spot (map (spot_row_of prices) (es_prices prices)) (ct_spots t)\<rparr>))"
  define valued where "valued = prune_tables (cutoff_of (me_cache ?E)) (new\<lparr>ct_weather := fold put_weather
    (map (\<lambda>v. \<lparr>wr_facility = ct_next_id t, wr_values = v\<rparr>) (we_values W1)) (ct_weather new)\<rparr>)"
  have vals: "we_values W1 \<noteq> []" using assms(8) by auto
  have ok: "calls_ok (se_insert ?S)" using assms(4) by (simp add: prices_fine_def)
  have keys: "keys_distinct spot_key (ct_spots t)" using assms(5) by (simp add: cache_ok_def)
  have weather_start: "task_step R dir (i, Wch_task conf) Start (?h t) = Done (Store_weather (ct_next_id t) ?W, ?h new)"
    using new_place_begun [OF assms(1,2,3) vals assms(6), of l] by (simp add: task_step_def wch_init_def new_def)
  have price_start: "task_step R dir (j, Ech_task pc) Start (?h u) = Done (Store_spots prices, ?h u)"
    if "keys_distinct spot_key (ct_spots u)" "\<forall>d. in_target ?S d \<longrightarrow> spot_map u pc SPOT_SEK d = None" for u
    using ech_begin_cases [OF assms(4) that(1), of dir l] that(2) by (auto simp: task_step_def prices_def)
  have price_store: "task_step R dir (j, Ech_task pc) (Store_spots prices) (?h u) = Done (Stop, ?h (stored u))" for u
    by (simp add: task_step_def insert_spots_tables [OF ok] stored_def)
  have gone: "ct_next_id t \<notin> facility_ids (stored new)" "nowhere_near (wc_latitude conf) (wc_longitude conf) (stored new)"
    unfolding stored_def using prune_removes [OF assms(5,6) new_def] by blast+
  have refused: "task_step R dir (i, Wch_task conf) (Store_weather (ct_next_id t) ?W) (?h (stored new)) =
      Done (Stop, ?h (stored new))"
    using values_step_refused [OF assms(2) gone(1), of ?W l] vals by (simp add: task_step_def)
  have "ct_next_id t \<in> facility_ids new" by (simp add: new_def facility_ids_def new_place_rows [OF assms(6)] facility_row_of_def)
  from values_step_ok [OF assms(2) this, of ?W l]
  have valued: "task_step R dir (i, Wch_task conf) (Store_weather (ct_next_id t) ?W) (?h new) = Done (Stop, ?h valued)"
    by (simp add: task_step_def valued_def)
  have spots: "ct_spots valued = filter (\<lambda>r. cutoff_of (me_cache ?E) \<le> sp_time_start (sr_price r)) (ct_spots t)"
    by (simp add: valued_def new_def)
  have keys_later: "keys_distinct spot_key (ct_spots valued)" unfolding spots by (rule keys_distinct_filter [OF keys])
  have "spot_map valued pc SPOT_SEK d = None" if "in_target ?S d" for d
    using assms(7) that unfolding spot_map_def spots by (simp add: row_at_filter [OF keys])
  then have later: "task_step R dir (j, Ech_task pc) Start (?h valued) = Done (Store_spots prices, ?h valued)"
    using price_start [OF keys_later] by blast
  have first: "task_step R dir (j, Ech_task pc) Start (?h new) = Done (Store_spots prices, ?h new)"
    using price_start [of new] keys assms(7) by (simp add: new_def)
  have near: "weather_near (wc_latitude conf) (wc_longitude conf) (stored valued)"
    unfolding stored_def by (rule prune_keeps [OF assms(6) new_def assms(8,9,10) valued_def])
  show ?thesis
    by (intro exI [of _ "stored new"] exI [of _ "stored valued"])
      (simp add: weather_start first price_store refused valued later gone(2) near)
qed

section \<open>An instance\<close>

definition race_run :: "json_doc run_env" where
  "race_run = (plain_run_env True)\<lparr>ru_wch := (\<lambda>i. plain_meteo_env (sample_forecast sample_units))\<rparr>"

lemma race_request:
  obtains W1 where "wch_request (plain_meteo_env (sample_forecast sample_units)) plain_wch (set_place plain_wch no_weather) =
      Some (Inr W1)" and "map wv_timestamp (we_values W1) = [900, 1800]"
proof -
  let ?E = "plain_meteo_env (sample_forecast sample_units)"
  have get: "cj_get (me_json ?E) (sample_forecast sample_units) ''minutely_15'' = Some sample_series"
    "cj_get (me_json ?E) (sample_forecast sample_units) ''minutely_15_units'' = Some sample_units"
    "\<forall>k \<in> set unit_keys. jt_text (me_json ?E) sample_units k \<noteq> None"
    "map wv_timestamp (map (forecast_value (me_json ?E) (me_epoch ?E) sample_series)
       [0..<series_count (me_json ?E) sample_series]) = [900, 1800]" by code_simp+
  from forecast_parsed [OF plain_meteo_simps(2,6,1,3) get(1,2,3)] get(4) that show thesis by auto
qed

theorem weather_lost_between_witness:
  "\<exists>t1 t2.
    run_schedule (task_step race_run ''d'') [(4, Wch_task plain_wch), (2, Ech_task SE3)] [0, 1, 1, 0] [Start, Start]
      \<lparr>sh_db = Some (sql_rest no_tables), sh_locked = False\<rparr> =
        Done ([Stop, Stop], \<lparr>sh_db = Some (sql_rest t1), sh_locked = False\<rparr>) \<and>
    nowhere_near 59 18 t1 \<and>
    run_schedule (task_step race_run ''d'') [(4, Wch_task plain_wch), (2, Ech_task SE3)] [0, 0, 1, 1] [Start, Start]
      \<lparr>sh_db = Some (sql_rest no_tables), sh_locked = False\<rparr> =
        Done ([Stop, Stop], \<lparr>sh_db = Some (sql_rest t2), sh_locked = False\<rparr>) \<and>
    weather_near 59 18 t2"
proof -
  obtain W1 where W1: "wch_request (plain_meteo_env (sample_forecast sample_units)) plain_wch (set_place plain_wch no_weather) =
      Some (Inr W1)" and times: "map wv_timestamp (we_values W1) = [900, 1800]" by (rule race_request)
  obtain v where v: "v \<in> set (we_values W1)" "wv_timestamp v = 900" using times by (cases "we_values W1") auto
  have R: "ru_wch race_run i = plain_meteo_env (sample_forecast sample_units)"
    "ru_ech race_run i = plain_spot_env one_price_reply" for i by (simp_all add: race_run_def plain_run_env_def)
  have env: "calls_ok (me_cache (ru_wch race_run 4))" "\<And>xs. set (me_scan (ru_wch race_run 4) xs) = set xs"
    by (simp_all add: R plain_meteo_simps)
  have state: "nowhere_near (wc_latitude plain_wch) (wc_longitude plain_wch) no_tables"
    "\<forall>d. in_target (ru_ech race_run 2) d \<longrightarrow> spot_map no_tables SE3 SPOT_SEK d = None"
    "cutoff_of (me_cache (ru_wch race_run 4)) \<le> wv_timestamp v" "cutoff_of (se_insert (ru_ech race_run 2)) \<le> wv_timestamp v"
    by (simp_all add: nowhere_near_def no_tables_def spot_map_def R plain_meteo_simps v(2) cutoff_of_def
        retention_days_def plain_spot_env_def)
  have conf: "wc_latitude plain_wch = 59" "wc_longitude plain_wch = 18" by (simp_all add: plain_wch_def)
  have request: "wch_request (ru_wch race_run 4) plain_wch (set_place plain_wch no_weather) = Some (Inr W1)"
    using W1 by (simp only: R)
  note fine = plain_prices_fine [of SE3, folded R(2) [of 2]]
  from weather_lost_between [OF request env fine no_tables_ok state(1,2) v(1) state(3,4), of "''d''" False]
  show ?thesis by (simp only: conf)
qed

end
