(* ===== verification/Server_Main.thy ===== *)
theory Server_Main
  imports Server_Pipeline Opti_Request Daemon
begin

text \<open>
  The start and the end of the server (\<open>server/src/main.c\<close>, the first part of \<open>opti_server.c\<close>): the
  databases it opens, the path of the cache, the main loop and its signal. The three servers and their
  scheduler rounds are those of \<open>Server_Pipeline\<close>. The theorems say that server and optimizer use the
  same cache file, and that a SIGINT ends the server with the round it arrives in, after it has disposed of
  everything twice.
\<close>

section \<open>The databases\<close>

text \<open>\<open>sv_config n key\<close> is \<open>config_get_value\<close> on the configuration of the optimizer with a buffer of \<open>n\<close> bytes:
  a failure or the text in the buffer. The other fields are the results of the calls.\<close>

record start_env =
  sv_config :: "nat \<Rightarrow> string \<Rightarrow> string result"
  sv_store_mutex :: bool
  sv_store_open :: bool
  sv_store_wal :: bool
  sv_store_schema :: bool
  sv_cache_mutex :: bool
  sv_cache_open :: bool
  sv_cache_schema :: bool
  sv_uds_socket :: "nat \<Rightarrow> bool"
  sv_uds_connect :: "nat \<Rightarrow> bool"
  sv_uds_written :: "nat \<Rightarrow> nat"

definition optimizer_cache_default_data_dir :: string where
  "optimizer_cache_default_data_dir = ''/var/lib/maestro''"

definition opti_s_get_optimizer_cache_path :: "start_env \<Rightarrow> string" where
  "opti_s_get_optimizer_cache_path V =
     (let dir = (case sv_config V 256 ''data.dir'' of
                   Inl e \<Rightarrow> optimizer_cache_default_data_dir
                 | Inr v \<Rightarrow> if cstr v = [] then optimizer_cache_default_data_dir else cstr v)
      in snprintf_trunc 512 (dir @ ''/cache.db''))"

text \<open>The tables exist already or are created empty, which the model does not tell apart.\<close>

definition sql_helper_init_schema :: "bool \<Rightarrow> sql_helper \<Rightarrow> status" where
  "sql_helper_init_schema exec_ok h = (if exec_ok then SUCCESS else ERR_FATAL)"

text \<open>A store that cannot be opened is not disposed of, one without its schema is.\<close>

definition opti_s_init_meter_store :: "start_env \<Rightarrow> meter_db \<Rightarrow> meter_store \<Rightarrow> status \<times> meter_store" where
  "opti_s_init_meter_store V db st0 =
     (case meter_store_init (sv_store_mutex V) st0 of
        (res, st) \<Rightarrow>
          if res \<noteq> SUCCESS then (res, st)
          else (case meter_store_open (sv_store_open V) (sv_store_wal V) db False st of
            (res2, st2) \<Rightarrow>
              if res2 \<noteq> SUCCESS then (res2, st2)
              else (case meter_store_init_schema (sv_store_schema V) st2 of
                (res3, st3) \<Rightarrow>
                  if res3 \<noteq> SUCCESS then (res3, meter_store_close st3) else (SUCCESS, st3))))"

definition opti_s_init_optimizer_cache ::
  "start_env \<Rightarrow> (string \<Rightarrow> cache_tables) \<Rightarrow> sql_helper \<Rightarrow> status \<times> sql_helper" where
  "opti_s_init_optimizer_cache V dbs h0 =
     (case sql_helper_init (sv_cache_mutex V) h0 of
        (res, h) \<Rightarrow>
          if res \<noteq> SUCCESS then (res, h)
          else (case sql_helper_open (sv_cache_open V) (dbs (opti_s_get_optimizer_cache_path V)) h of
            (res2, h2) \<Rightarrow>
              if res2 \<noteq> SUCCESS then (res2, sql_helper_close h2)
              else let res3 = sql_helper_init_schema (sv_cache_schema V) h2
                   in if res3 \<noteq> SUCCESS then (res3, sql_helper_close h2) else (SUCCESS, h2)))"

text \<open>The server opens the file the optimizer writes, when both read the same directory.\<close>

lemma same_cache_file:
  assumes "sv_config V 256 ''data.dir'' = Inr dir" and "cstr dir = dir" and "dir \<noteq> []"
  shows "opti_s_get_optimizer_cache_path V = db_path dir"
  using assms by (simp add: opti_s_get_optimizer_cache_path_def db_path_def)

lemma cache_opened:
  assumes "opti_s_init_optimizer_cache V dbs h0 = (SUCCESS, h)"
  shows "h = \<lparr>sh_db = Some (sql_rest (dbs (opti_s_get_optimizer_cache_path V))), sh_locked = False\<rparr>"
  using assms by (auto simp: opti_s_init_optimizer_cache_def sql_helper_init_def sql_helper_open_def
      sql_helper_init_schema_def Let_def split: if_splits)

section \<open>The process\<close>

text \<open>\<open>sp_task\<close> is whether the pointer to the task of the API server is set; it is never reset. \<open>sp_destroyed\<close>
  counts the times that task was destroyed, \<open>sp_closed\<close> lists the descriptors that calls of \<open>opti_s_dispose\<close>
  have closed, \<open>sp_sent\<close> what was sent to the daemon.\<close>

record server_process =
  sp_server :: server
  sp_store :: meter_store
  sp_cache :: sql_helper
  sp_task :: bool
  sp_destroyed :: nat
  sp_closed :: "int list"
  sp_sent :: "string list"
  sp_stop :: bool

definition zero_process :: server_process where
  "zero_process = \<lparr>sp_server = zero_server, sp_store = \<lparr>ms_db = None, ms_locked = False\<rparr>,
     sp_cache = \<lparr>sh_db = None, sh_locked = False\<rparr>, sp_task = False, sp_destroyed = 0, sp_closed = [],
     sp_sent = [], sp_stop = False\<rparr>"

text \<open>The start, with what \<open>opti_s_init\<close> does about the databases: how far it came is seen from its result
  when they are given.\<close>

definition start_process ::
  "start_env \<Rightarrow> init_input \<Rightarrow> meter_db \<Rightarrow> (string \<Rightarrow> cache_tables) \<Rightarrow> status \<times> server_process" where
  "start_process V i db dbs =
     (let fresh = zero_process;
          (r0, s0) = opti_s_init (i\<lparr>in_meter_store := SUCCESS, in_cache := SUCCESS\<rparr>) zero_server;
          (r1, st) = opti_s_init_meter_store V db (sp_store fresh);
          (r2, h) = opti_s_init_optimizer_cache V dbs (sp_cache fresh);
          (res, s) = opti_s_init (i\<lparr>in_meter_store := r1, in_cache := r2\<rparr>) zero_server
      in if r0 \<noteq> SUCCESS then (r0, fresh\<lparr>sp_server := s0\<rparr>)
         else if r1 \<noteq> SUCCESS then (res, fresh\<lparr>sp_server := s, sp_store := st, sp_task := True, sp_destroyed := 1\<rparr>)
         else if r2 \<noteq> SUCCESS then (res, fresh\<lparr>sp_server := s, sp_store := meter_store_close st, sp_cache := h,
                                      sp_task := True, sp_destroyed := 1\<rparr>)
         else (SUCCESS, fresh\<lparr>sp_server := s, sp_store := st, sp_cache := h, sp_task := True\<rparr>))"

text \<open>\<open>opti_s_dispose\<close> on the process, as the handler of SIGINT calls it. The TCP server closes its descriptor
  unless it is negative; after a disposal it is 0.\<close>

definition dispose_process :: "server_process \<Rightarrow> server_process" where
  "dispose_process p = p\<lparr>sp_server := opti_s_dispose (sp_server p),
     sp_store := meter_store_close (sp_store p), sp_cache := sql_helper_close (sp_cache p),
     sp_destroyed := sp_destroyed p + (if sp_task p then 1 else 0),
     sp_closed := sp_closed p @ (let fd = tcp_fd (tcp (sp_server p)) in if 0 \<le> fd then [fd] else [])\<rparr>"

definition handle_sigint :: "server_process \<Rightarrow> server_process" where
  "handle_sigint p = (dispose_process p)\<lparr>sp_stop := True\<rparr>"

text \<open>One call of \<open>scheduler_work\<close>; a SIGINT may arrive after \<open>k\<close> of its tasks. The tasks are those of the three
  servers: what a connection and an instance do is in \<open>Http_Connection\<close> and \<open>Opti_Instance\<close>. A SIGINT that
  interrupts a task in the middle is not modelled.\<close>

type_synonym main_input = "(server_task list \<times> round_input) \<times> nat option"

definition main_round :: "main_input \<Rightarrow> server_process \<Rightarrow> server_process" where
  "main_round r p =
     (case r of
        (ti, None) \<Rightarrow> p\<lparr>sp_server := run_round ti (sp_server p)\<rparr>
      | ((ts, i), Some k) \<Rightarrow>
          (let p1 = handle_sigint (p\<lparr>sp_server := run_round (take k ts, i) (sp_server p)\<rparr>)
           in p1\<lparr>sp_server := run_round (drop k ts, i) (sp_server p1)\<rparr>))"

text \<open>The loop, \<open>None\<close> while it goes on.\<close>

fun main_loop :: "main_input list \<Rightarrow> server_process \<Rightarrow> server_process option" where
  "main_loop rs p =
     (if sp_stop p then Some (handle_sigint p)
      else case rs of [] \<Rightarrow> None | r # rest \<Rightarrow> main_loop rest (main_round r p))"

declare main_loop.simps [simp del]

text \<open>The results of the start and of the two commands are not looked at.\<close>

definition server_main ::
  "start_env \<Rightarrow> init_input \<Rightarrow> meter_db \<Rightarrow> (string \<Rightarrow> cache_tables) \<Rightarrow> main_input list \<Rightarrow> server_process option" where
  "server_main V i db dbs rs =
     (let (res, p) = start_process V i db dbs;
          sent = (\<lambda>k cmd. fst (snd (uds_client_send (sv_uds_socket V k) (sv_uds_connect V k) (sv_uds_written V k) cmd)))
      in main_loop rs (p\<lparr>sp_sent := [sent 0 uds_reload, sent 1 uds_run]\<rparr>))"

section \<open>Servers on the heap\<close>

text \<open>The pointer variants of the initialisers: the status, the server that is handed out and the one that is
  freed. \<open>s0\<close> is what the allocated memory holds.\<close>

definition tcp_server_init_ptr ::
  "bool \<Rightarrow> attempt list option \<Rightarrow> bool \<Rightarrow> tcp_server \<Rightarrow> status \<times> tcp_server option \<times> tcp_server option" where
  "tcp_server_init_ptr mem_ok addrs task s0 =
     (if \<not> mem_ok then (ERR_NO_MEMORY, None, None)
      else case tcp_server_init addrs task s0 of
        (result, s) \<Rightarrow> if result \<noteq> SUCCESS then (result, None, Some s) else (SUCCESS, Some s, None))"

definition http_server_initiate_ptr ::
  "bool \<Rightarrow> string option \<Rightarrow> attempt list option \<Rightarrow> bool \<Rightarrow> bool \<Rightarrow> bool \<Rightarrow> nat \<Rightarrow> server \<Rightarrow>
     status \<times> server option \<times> server option" where
  "http_server_initiate_ptr mem_ok conf addrs tcp_task_ok args_ok task_ok now s0 =
     (if \<not> mem_ok then (ERR_NO_MEMORY, None, None)
      else case http_server_init conf addrs tcp_task_ok args_ok task_ok now s0 of
        (result, s) \<Rightarrow> if result \<noteq> SUCCESS then (result, None, Some s) else (SUCCESS, Some s, None))"

definition opti_s_init_ptr :: "bool \<Rightarrow> init_input \<Rightarrow> status \<times> server option \<times> server option" where
  "opti_s_init_ptr mem_ok i =
     (if \<not> mem_ok then (ERR_NO_MEMORY, None, None)
      else case opti_s_init i zero_server of
        (result, s) \<Rightarrow> if result \<noteq> SUCCESS then (result, None, Some s) else (SUCCESS, Some s, None))"

text \<open>A server that is freed is not scheduled any more, except when the TCP server failed: its retry task
  stays in the scheduler, with the freed server as its context.\<close>

lemma freed_server_scheduled:
  assumes "opti_s_init_ptr mem_ok i = (result, kept, Some s)"
  shows "http_task (http s) \<longleftrightarrow>
    fst (tcp_server_init (in_bind i) (in_tcp_task i) (tcp zero_server)) \<noteq> SUCCESS \<and> in_retry_mem i \<and> in_http_task i"
  using assms
  by (auto simp: opti_s_init_ptr_def opti_s_init_def http_server_init_def http_server_dispose_def set_opti_def
      zero_server_def Let_def split: if_splits prod.splits)

section \<open>The end\<close>

text \<open>Rounds without a signal.\<close>

definition quiet :: "main_input \<Rightarrow> bool" where
  "quiet r \<longleftrightarrow> snd r = None"

lemma main_round_frame [simp]:
  "sp_task (main_round r p) = sp_task p" "sp_sent (main_round r p) = sp_sent p"
  by (auto simp: main_round_def handle_sigint_def dispose_process_def Let_def split: prod.split option.split)

lemma quiet_round:
  assumes "quiet r"
  shows "main_round r p = p\<lparr>sp_server := run_round (fst r) (sp_server p)\<rparr>"
  using assms by (auto simp: main_round_def quiet_def split: prod.split option.split)

lemma quiet_rounds:
  assumes "\<not> sp_stop p" and "list_all quiet qs"
  shows "main_loop (qs @ rs) p = main_loop rs (p\<lparr>sp_server := run_rounds (map fst qs) (sp_server p)\<rparr>)"
  using assms
proof (induction qs arbitrary: p)
  case (Cons q qs)
  then have "main_loop ((q # qs) @ rs) p = main_loop (qs @ rs) (p\<lparr>sp_server := run_round (fst q) (sp_server p)\<rparr>)"
    by (subst main_loop.simps) (simp add: quiet_round)
  with Cons show ?case by simp
qed simp

text \<open>A disposed server has no tasks and stays as it is.\<close>

definition disposed :: "server \<Rightarrow> bool" where
  "disposed s \<longleftrightarrow> \<not> tcp_task (tcp s) \<and> \<not> http_task (http s) \<and> \<not> opti_task (opti s)"

lemma disposed_after: "disposed (opti_s_dispose s)" "tcp_fd (tcp (opti_s_dispose s)) = 0"
  by (simp_all add: disposed_def opti_s_dispose_def http_server_dispose_def tcp_server_dispose_def Let_def)

lemma disposed_round: "disposed s \<Longrightarrow> run_round (ts, i) s = s"
  unfolding run_round_def
  by (induction ts) (auto simp: disposed_def run_server_task_def split: server_task.split)

lemma sigint_round:
  "main_round ((ts, i), Some k) p =
     handle_sigint (p\<lparr>sp_server := run_round (take k ts, i) (sp_server p)\<rparr>)"
  by (simp add: main_round_def Let_def handle_sigint_def dispose_process_def disposed_round disposed_after)

text \<open>C27: SIGINT ends the server: with the round in which it arrives, whatever the tasks did before and
  whatever would come after. Both databases are closed then and no task is left. But everything is
  disposed of twice: the task of the API server is destroyed twice more, and behind the listening
  descriptor the standard input is closed.\<close>

theorem sigint_ends_server:
  assumes "\<not> sp_stop p" and "list_all quiet qs"
  shows "\<exists>p'. main_loop (qs @ ((ts, i), Some k) # rs) p = Some p' \<and>
    disposed (sp_server p') \<and> ms_db (sp_store p') = None \<and> sh_db (sp_cache p') = None \<and>
    sp_destroyed p' = sp_destroyed p + (if sp_task p then 2 else 0) \<and>
    sp_closed p' = sp_closed p @
      (let fd = tcp_fd (tcp (run_round (take k ts, i) (run_rounds (map fst qs) (sp_server p)))) in
         if 0 \<le> fd then [fd] else []) @ [0]"
proof -
  let ?p = "p\<lparr>sp_server := run_rounds (map fst qs) (sp_server p)\<rparr>"
  let ?q = "?p\<lparr>sp_server := run_round (take k ts, i) (sp_server ?p)\<rparr>"
  have "main_loop (qs @ ((ts, i), Some k) # rs) p = main_loop (((ts, i), Some k) # rs) ?p"
    by (rule quiet_rounds [OF assms])
  also have "\<dots> = main_loop rs (handle_sigint ?q)" using assms(1) by (subst main_loop.simps) (simp add: sigint_round)
  also have "\<dots> = Some (handle_sigint (handle_sigint ?q))" by (subst main_loop.simps) (simp add: handle_sigint_def)
  finally show ?thesis
    by (simp add: handle_sigint_def dispose_process_def disposed_after meter_store_close_def sql_helper_close_def Let_def)
qed

definition idle_input :: round_input where
  "idle_input = \<lparr>in_accept = NothingPending, in_conn = SUCCESS, in_instance = SUCCESS, in_now = 0,
     in_addrs = None, in_task = True\<rparr>"

definition listening_process :: server_process where
  "listening_process = zero_process\<lparr>sp_task := True, sp_server := zero_server\<lparr>tcp :=
     \<lparr>tcp_fd = 3, tcp_client_fd = - 1, tcp_state = TCP_SERVER_LISTENING, tcp_task = True\<rparr>\<rparr>\<rparr>"

theorem sigint_ends_server_witness:
  "\<exists>p'. main_loop [(([TcpTask], idle_input), None), (([TcpTask], idle_input), Some 1),
         (([TcpTask], idle_input), None)] listening_process = Some p' \<and>
     sp_destroyed p' = 2 \<and> sp_closed p' = [3, 0]"
proof -
  have go: "\<not> sp_stop listening_process" "sp_task listening_process" "sp_closed listening_process = []"
    "sp_destroyed listening_process = 0"
    by (simp_all add: listening_process_def zero_process_def)
  have "list_all quiet [(([TcpTask], idle_input), None)]" by (simp add: quiet_def)
  from sigint_ends_server [OF go(1) this, of "[TcpTask]" idle_input 1 "[(([TcpTask], idle_input), None)]"]
  obtain p' where p': "main_loop ([(([TcpTask], idle_input), None)] @
        (([TcpTask], idle_input), Some 1) # [(([TcpTask], idle_input), None)]) listening_process = Some p'"
    "sp_destroyed p' = sp_destroyed listening_process + (if sp_task listening_process then 2 else 0)"
    "sp_closed p' = sp_closed listening_process @
      (let fd = tcp_fd (tcp (run_round (take 1 [TcpTask], idle_input)
         (run_rounds (map fst [(([TcpTask], idle_input), None :: nat option)]) (sp_server listening_process))))
       in if 0 \<le> fd then [fd] else []) @ [0]"
    by blast
  have "tcp_fd (tcp (run_round (take 1 [TcpTask], idle_input)
         (run_rounds (map fst [(([TcpTask], idle_input), None :: nat option)]) (sp_server listening_process)))) = 3"
    by (simp add: run_round_def pipeline_defs listening_process_def zero_process_def zero_server_def idle_input_def)
  with p' go show ?thesis by (intro exI [of _ p']) (simp add: Let_def)
qed

end
