(* ===== verification/Cache_Readings.thy ===== *)
theory Cache_Readings
  imports Cache_Integrity
begin

text \<open>
  The meter readings in the cache database (\<open>sql_helper_insert_meter_reading\<close>,
  \<open>sql_helper_read_latest_meter_reading\<close> in \<open>optimizer/src/sqlite_helpers.c\<close>), which no program calls. Unlike
  the store of the server this insert binds every field, whatever the bits of the reading are. The theorems:
  the reading that was inserted last is read back whole, a failing insert changes nothing, and an insert after a
  failed insert of prices commits or removes what that one left in its transaction.
\<close>

section \<open>Inserting\<close>

fun bind_value :: "meter_reading \<Rightarrow> meter_field \<Rightarrow> sqlval" where
  "bind_value r (Str f) = SQL_TEXT (mr_str r f)"
| "bind_value r (Dbl f) = SQL_REAL (mr_dbl r f)"
| "bind_value r (U32 f) = SQL_INT (uint (mr_u32 r f))"
| "bind_value r Protocol = SQL_INT (uint (mr_protocol r))"
| "bind_value r Tariff = SQL_INT (uint (mr_tariff r))"

text \<open>The columns are bound in the order in which \<open>select_columns\<close> reads them.\<close>

definition reading_values :: "meter_reading \<Rightarrow> sqlval list" where
  "reading_values r = SQL_INT (sint (mr_flags r)) # map (bind_value r) select_columns"

definition sql_helper_insert_meter_reading ::
  "cache_env \<Rightarrow> meter_reading \<Rightarrow> sql_helper \<Rightarrow> status \<times> sql_helper" where
  "sql_helper_insert_meter_reading e r h =
     (case sh_db h of
        None \<Rightarrow> (ERR_INVALID_ARG, h)
      | Some c \<Rightarrow>
          if \<not> ce_prepare e then (ERR_FATAL, h)
          else let c1 = tx_begin (ce_begin e) c
               in if \<not> ce_step e 0 then (ERR_FATAL, h\<lparr>sh_db := Some (tx_rollback c1)\<rparr>)
                  else let c2 = tx_write (\<lambda>t. t\<lparr>ct_readings := ct_readings t @ [reading_values r]\<rparr>) c1
                       in (SUCCESS, h\<lparr>sh_db := Some (tx_end e c2)\<rparr>))"

section \<open>Reading\<close>

definition sql_helper_copy_column_text :: "columns \<Rightarrow> sqlval \<Rightarrow> nat \<Rightarrow> string" where
  "sql_helper_copy_column_text C v n = (case col_text C v of None \<Rightarrow> [] | Some s \<Rightarrow> snprintf_trunc n (cstr s))"

fun read_cell :: "columns \<Rightarrow> sqlval \<Rightarrow> meter_field \<Rightarrow> meter_reading \<Rightarrow> meter_reading" where
  "read_cell C v (Dbl f) r = r\<lparr>mr_dbl := (mr_dbl r)(f := col_double C v)\<rparr>"
| "read_cell C v (Str f) r = r\<lparr>mr_str := (mr_str r)(f := sql_helper_copy_column_text C v (str_size f))\<rparr>"
| "read_cell C v (U32 f) r = r\<lparr>mr_u32 := (mr_u32 r)(f := word_of_int (col_int64 C v))\<rparr>"
| "read_cell C v Protocol r = r\<lparr>mr_protocol := word_of_int (col_int C v)\<rparr>"
| "read_cell C v Tariff r = r\<lparr>mr_tariff := word_of_int (col_int C v)\<rparr>"

fun read_cells :: "columns \<Rightarrow> sqlval list \<Rightarrow> meter_field list \<Rightarrow> meter_reading \<Rightarrow> meter_reading" where
  "read_cells C (v # vs) (f # fs) r = read_cells C vs fs (read_cell C v f r)"
| "read_cells C vs fs r = r"

text \<open>\<open>out\<close> is the reading of the caller; it is cleared before the statement is prepared.
  \<open>ORDER BY id DESC LIMIT 1\<close> delivers the last row; the step fails when no row can be delivered.\<close>

definition sql_helper_read_latest_meter_reading ::
  "cache_env \<Rightarrow> columns \<Rightarrow> sql_helper \<Rightarrow> meter_reading \<Rightarrow> status \<times> meter_reading" where
  "sql_helper_read_latest_meter_reading e C h out =
     (case sh_db h of
        None \<Rightarrow> (ERR_INVALID_ARG, out)
      | Some c \<Rightarrow>
          if \<not> ce_prepare e then (ERR_FATAL, zero_reading)
          else if ce_rows e = Some 0 then (ERR_FATAL, zero_reading)
          else if ct_readings (sc_tables c) = [] then (ERR_NOT_FOUND, zero_reading)
          else let row = last (ct_readings (sc_tables c))
               in (SUCCESS, read_cells C (tl row) select_columns
                     (zero_reading\<lparr>mr_flags := word_of_int (col_int64 C (hd row))\<rparr>)))"

section \<open>Lemmas\<close>

lemma read_value_bound:
  assumes "columns_ok C" "strings_fit r"
  shows "fval (read_cell C (bind_value r f) f q) = (fval q)(f := fval r f)"
  using assms(2)
  by (cases f) (simp_all add: columns_uint [OF assms(1)] columns_null [OF assms(1)] strings_fit_def fval_updates
      sql_helper_copy_column_text_def)

lemma read_value_flags [simp]: "mr_flags (read_cell C v f q) = mr_flags q"
  by (cases f) simp_all

lemma read_values_bound:
  assumes "columns_ok C" "strings_fit r"
  shows "fval (read_cells C (map (bind_value r) fs) fs q) f = (if f \<in> set fs then fval r f else fval q f) \<and>
    mr_flags (read_cells C (map (bind_value r) fs) fs q) = mr_flags q"
  by (induction fs arbitrary: q) (simp_all add: read_value_bound [OF assms])

lemma reading_eqI:
  assumes "mr_flags a = mr_flags b" "fval a = fval b"
  shows "a = (b :: meter_reading)"
proof -
  have "mr_dbl a = mr_dbl b" using fun_cong [OF assms(2), of "Dbl _"] by (auto simp: fun_eq_iff)
  moreover have "mr_str a = mr_str b" using fun_cong [OF assms(2), of "Str _"] by (auto simp: fun_eq_iff)
  moreover have "mr_u32 a = mr_u32 b" using fun_cong [OF assms(2), of "U32 _"] by (auto simp: fun_eq_iff)
  ultimately show ?thesis
    using assms(1) fun_cong [OF assms(2), of Protocol] fun_cong [OF assms(2), of Tariff] by simp
qed

lemma flags_read_back: "columns_ok C \<Longrightarrow> word_of_int (col_int64 C (SQL_INT (sint (w :: 64 word)))) = w"
  using sint_range_size [of w] by (simp add: columns_ok_def sint_greater_eq sint_less word_size)

lemma reading_values_read:
  assumes "columns_ok C" "strings_fit r"
  shows "read_cells C (tl (reading_values r)) select_columns
    (zero_reading\<lparr>mr_flags := word_of_int (col_int64 C (hd (reading_values r)))\<rparr>) = r"
proof (rule reading_eqI)
  note cells = read_values_bound [OF assms, of select_columns
      "zero_reading\<lparr>mr_flags := word_of_int (col_int64 C (hd (reading_values r)))\<rparr>"]
  show "fval (read_cells C (tl (reading_values r)) select_columns
    (zero_reading\<lparr>mr_flags := word_of_int (col_int64 C (hd (reading_values r)))\<rparr>)) = fval r"
    using cells all_columns by (simp add: reading_values_def fun_eq_iff)
  show "mr_flags (read_cells C (tl (reading_values r)) select_columns
    (zero_reading\<lparr>mr_flags := word_of_int (col_int64 C (hd (reading_values r)))\<rparr>)) = mr_flags r"
    using cells flags_read_back [OF assms(1)] by (simp add: reading_values_def)
qed

lemma insert_reading_tables:
  assumes "sh_db h = Some c" "ce_prepare e" "ce_step e 0" and "ce_commit e \<or> \<not> ce_undone e"
  shows "\<exists>c'. sql_helper_insert_meter_reading e r h = (SUCCESS, h\<lparr>sh_db := Some c'\<rparr>) \<and>
    sc_tables c' = (sc_tables c)\<lparr>ct_readings := ct_readings (sc_tables c) @ [reading_values r]\<rparr>"
  using assms unfolding sql_helper_insert_meter_reading_def
  by (intro exI [of _ "tx_end e (tx_write (\<lambda>t. t\<lparr>ct_readings := ct_readings t @ [reading_values r]\<rparr>)
      (tx_begin (ce_begin e) c))"]) (auto simp: Let_def tx_end_def after_failure_def)

section \<open>The properties\<close>

text \<open>The reading that was inserted last is read back as it was, every field of it, also those whose bit is
  not set; the other tables stay. A failing \<open>COMMIT\<close> must not have undone the insert.\<close>

theorem latest_reading_round_trip:
  assumes "sh_db h = Some c" "ce_prepare e" "ce_step e 0" "ce_commit e \<or> \<not> ce_undone e"
    and "ce_prepare e'" "ce_rows e' \<noteq> Some 0" "columns_ok C" "strings_fit r"
  shows "case sql_helper_insert_meter_reading e r h of (res, h') \<Rightarrow> res = SUCCESS \<and>
    sql_helper_read_latest_meter_reading e' C h' out = (SUCCESS, r) \<and>
    (\<exists>c'. sh_db h' = Some c' \<and> sc_tables c' = (sc_tables c)\<lparr>ct_readings := ct_readings (sc_tables c) @ [reading_values r]\<rparr>)"
proof -
  obtain c' where "sql_helper_insert_meter_reading e r h = (SUCCESS, h\<lparr>sh_db := Some c'\<rparr>)"
    "sc_tables c' = (sc_tables c)\<lparr>ct_readings := ct_readings (sc_tables c) @ [reading_values r]\<rparr>"
    using insert_reading_tables [OF assms(1-4)] by blast
  then show ?thesis
    using assms(5,6) reading_values_read [OF assms(7,8)]
    by (simp add: sql_helper_read_latest_meter_reading_def Let_def)
qed

theorem latest_reading_round_trip_witness:
  "\<exists>h'. sql_helper_insert_meter_reading (calls_fine 0) sample_reading
       \<lparr>sh_db = Some (sql_rest no_tables), sh_locked = False\<rparr> = (SUCCESS, h') \<and>
     sql_helper_read_latest_meter_reading (calls_fine 0) ok_columns h' zero_reading = (SUCCESS, sample_reading)"
proof -
  have fit: "columns_ok ok_columns" "strings_fit sample_reading"
    by (simp_all add: columns_ok_def ok_columns_def strings_fit_def sample_reading_def str_size_def)
  have calls: "ce_prepare (calls_fine 0)" "ce_step (calls_fine 0) 0" "ce_rows (calls_fine 0) \<noteq> Some 0"
    "ce_commit (calls_fine 0)" by (simp_all add: calls_fine_def)
  show ?thesis
    using latest_reading_round_trip [of "\<lparr>sh_db = Some (sql_rest no_tables), sh_locked = False\<rparr>" "sql_rest no_tables"
        "calls_fine 0" "calls_fine 0" ok_columns sample_reading zero_reading] fit calls
    by (auto split: prod.splits)
qed

text \<open>A failing insert on a connection at rest changes nothing. After a failed insert of prices that has left
  its transaction open, \<open>BEGIN\<close> fails: a successful insert of a reading commits those prices, and a failing
  one removes them.\<close>

lemma insert_reading_fails:
  assumes "sql_helper_insert_meter_reading e r h = (res, h')" "res \<noteq> SUCCESS"
    and "sh_db h = Some (sql_rest t)"
  shows "h' = h"
  using assms by (cases h) (auto simp: sql_helper_insert_meter_reading_def Let_def tx_begin_def sql_rest_def
      tx_rollback_def split: if_splits)

lemma insert_reading_in_transaction:
  assumes "sh_db h = Some c" "sc_in_tx c" "ce_prepare e" "ce_commit e"
  shows "sql_helper_insert_meter_reading e r h =
    (if ce_step e 0 then (SUCCESS, h\<lparr>sh_db := Some (sql_rest
        ((sc_tables c)\<lparr>ct_readings := ct_readings (sc_tables c) @ [reading_values r]\<rparr>))\<rparr>)
     else (ERR_FATAL, h\<lparr>sh_db := Some (sql_rest (sc_saved c))\<rparr>))"
  using assms by (simp add: sql_helper_insert_meter_reading_def Let_def tx_simps)

end
