(* ===== verification/Readings_Analysed.thy ===== *)
theory Readings_Analysed
  imports Spot_Analysis Opti_Storage
begin

text \<open>
  The two programs together, for the readings of the meter: what is posted to the API of the server
  (\<open>osi_post_ingest\<close>) goes through the JSON parser into the store (\<open>meter_reading_store.c\<close>), from which the
  optimizer takes the rows of its consumption analysis (\<open>consumption_analysis.c\<close>). The theorem is that the
  consumption the report of a facility states for today is the energy of the posted readings.
\<close>

section \<open>What the parser delivers fits the store\<close>

lemma snprintf_fits: "0 < n \<Longrightarrow> NUL \<notin> set (snprintf_trunc n (cstr s)) \<and> length (snprintf_trunc n (cstr s)) < n"
  using set_snprintf_trunc [of n "cstr s"] length_snprintf_trunc [of n "cstr s"] by auto

lemma read_field_fits:
  assumes "read_field J obj keys f r = Some r'" and "strings_fit r"
  shows "strings_fit r'"
proof (cases f)
  case (Str s)
  then obtain t where "r' = r\<lparr>mr_str := (mr_str r)(s := snprintf_trunc (str_size s) (cstr t))\<rparr>"
    using assms(1) by (auto simp: osi_json_read_string_any_def split: option.splits)
  moreover have "0 < str_size s" by (simp add: str_size_def)
  ultimately show ?thesis using assms(2) snprintf_fits [of "str_size s" t] by (simp add: strings_fit_def)
qed (use assms in \<open>auto simp: strings_fit_def\<close>)

lemma read_group_fits: "read_group J obj grp r = Some r' \<Longrightarrow> strings_fit r \<Longrightarrow> strings_fit r'"
  by (induction J obj grp r rule: read_group.induct) (auto split: option.splits intro: read_field_fits)

lemma read_row_fits: "strings_fit r \<Longrightarrow> strings_fit (read_row J obj row r)"
  using read_group_fits [of J obj "fst row" r]
  by (auto simp: read_row_def strings_fit_def split: option.split)

lemma parsed_reading_fits:
  assumes "osi_parse_meter_reading_json J body len = (st, Some r)"
  shows "strings_fit r"
proof -
  have "strings_fit q \<Longrightarrow> strings_fit (fold (read_row J obj) rows q)" for obj rows q
    by (induction rows arbitrary: q) (simp_all add: read_row_fits)
  moreover have "strings_fit zero_reading" by (simp add: strings_fit_def str_size_def)
  ultimately show ?thesis
    using assms by (auto simp: osi_parse_meter_reading_json_def Let_def split: option.splits if_splits)
qed

section \<open>The rows of the store\<close>

definition all_calls :: "insert_env \<Rightarrow> bool" where
  "all_calls e \<longleftrightarrow> ie_prepare_ok e \<and> ie_begin_ok e \<and> ie_step_ok e \<and> ie_commit_ok e"

lemma insert_at_rest:
  assumes "all_calls e"
  shows "meter_store_insert_reading e r (at_rest rows) = (SUCCESS, at_rest (rows @ [(ie_now e, insert_values r)]))"
  using assms by (simp add: all_calls_def meter_store_insert_reading_def at_rest_def sql_begin_def sql_insert_def
      sql_commit_def Let_def)

text \<open>A row that is read back has the readings' bits and the fields they announce.\<close>

definition stored :: "columns \<Rightarrow> meter_point \<Rightarrow> meter_point" where
  "stored C p = meter_store_read_stmt_row C (fst p, insert_values (snd p))"

lemma stored_time [simp]: "fst (stored C p) = fst p"
  by (simp add: stored_def meter_store_read_stmt_row_def)

lemma stored_fields:
  assumes "columns_ok C" "strings_fit (snd p)"
  shows "mr_flags (snd (stored C p)) = mr_flags (snd p)"
    "bit (mr_flags (snd p)) b \<Longrightarrow> (b, Dbl f) \<in> set insert_columns \<Longrightarrow> mr_dbl (snd (stored C p)) f = mr_dbl (snd p) f"
proof -
  obtain q where q: "meter_store_read_stmt_row C (fst p, insert_values (snd p)) = (fst p, q)"
    by (simp add: meter_store_read_stmt_row_def)
  note row = read_stored_row [OF assms q]
  show "mr_flags (snd (stored C p)) = mr_flags (snd p)" using row q by (simp add: stored_def)
  assume "bit (mr_flags (snd p)) b" "(b, Dbl f) \<in> set insert_columns"
  then have "present_part (snd p) (Dbl f) = fval (snd p) (Dbl f)" unfolding present_part_def by metis
  moreover have "fval q (Dbl f) = present_part (snd p) (Dbl f)" using row by simp
  ultimately show "mr_dbl (snd (stored C p)) f = mr_dbl (snd p) f" using q by (simp add: stored_def)
qed

lemma energy_columns:
  "(5, Dbl MR_energy_import_kwh) \<in> set insert_columns" "(31, Dbl MR_average_power_15m_w) \<in> set insert_columns"
  "(15, Dbl MR_power_w) \<in> set insert_columns"
  by (simp_all add: insert_columns_def)

text \<open>The energy between two readings depends on nothing else.\<close>

lemma interval_stored:
  assumes "columns_ok C" "strings_fit (snd p)" "strings_fit (snd c)"
  shows "interval_kwh (stored C p) (stored C c) = interval_kwh p c"
  using stored_fields [OF assms(1,2)] stored_fields [OF assms(1,3)] energy_columns
  by (auto simp: interval_kwh_def Let_def present_energy_import_def present_average_power_15m_def present_power_def)

lemma kwh_stored:
  assumes "columns_ok C" "\<forall>p \<in> set ps. strings_fit (snd p)"
  shows "kwh_between t0 t1 (map (stored C) ps) = kwh_between t0 t1 ps"
  using assms(2)
proof (induction ps rule: induct_list012)
  case (3 p c rest)
  then have "pair_kwh (stored C p, stored C c) = pair_kwh (p, c)"
    using interval_stored [OF assms(1), of p c] by (simp add: pair_kwh_def)
  with 3 show ?case by simp
qed simp_all

section \<open>Posting and loading\<close>

text \<open>A post of a reading: environment and connection of the request, and the reading in its body.\<close>

type_synonym 'j reading_post = "'j api_env \<times> http_conn \<times> meter_reading"

definition accepted_post :: "'j reading_post \<Rightarrow> bool" where
  "accepted_post p = (case p of (E, c, r) \<Rightarrow> all_calls (av_insert E) \<and>
     (case osi_get_request_body c of (body, len) \<Rightarrow>
        body \<noteq> None \<and> 0 < len \<and> osi_parse_meter_reading_json (av_json E) body len = (SUCCESS, Some r)))"

definition point_of :: "'j reading_post \<Rightarrow> meter_point" where
  "point_of p = (case p of (E, c, r) \<Rightarrow> (ie_now (av_insert E), r))"

definition post_reading :: "'j reading_post \<Rightarrow> api \<Rightarrow> api" where
  "post_reading p a = (case p of (E, c, r) \<Rightarrow> snd (snd (osi_post_ingest E (c, a))))"

lemma post_stores:
  assumes "accepted_post p" "ap_store a = at_rest rows"
  shows "ap_store (post_reading p a) = at_rest (rows @ [(fst (point_of p), insert_values (snd (point_of p)))])"
proof -
  obtain E c r where p: "p = (E, c, r)" by (cases p)
  obtain body len where b: "osi_get_request_body c = (body, len)" by fastforce
  note i = insert_at_rest [of "av_insert E" r rows]
  have "snd (snd (respond_with E code ct text (c, x))) = x" for code ct text x by simp
  with assms b i show ?thesis
    by (auto simp: p accepted_post_def post_reading_def point_of_def osi_post_ingest_def Let_def)
qed

lemma posts_store:
  assumes "\<forall>p \<in> set posts. accepted_post p" "ap_store a = at_rest rows"
  shows "ap_store (fold post_reading posts a) =
    at_rest (rows @ map (\<lambda>p. (fst (point_of p), insert_values (snd (point_of p)))) posts)"
  using assms
proof (induction posts arbitrary: a rows)
  case (Cons p posts)
  with post_stores [of p a rows] show ?case by simp
qed simp

lemma accepted_fits: "accepted_post p \<Longrightarrow> strings_fit (snd (point_of p))"
  by (auto simp: accepted_post_def point_of_def split: prod.splits intro: parsed_reading_fits)

text \<open>What another connection sees of the database.\<close>

definition committed_rows :: "meter_db \<Rightarrow> meter_db" where
  "committed_rows d = d\<lparr>db_rows := db_saved d, db_in_tx := False\<rparr>"

definition rows_calls_ok :: "rows_env \<Rightarrow> bool" where
  "rows_calls_ok L \<longleftrightarrow> lr_mutex L \<and> lr_open L \<and> lr_mem L = mem_unlimited \<and> columns_ok (lr_columns L) \<and>
     lr_prepare L \<and> lr_fail L = None"

lemma load_rows:
  assumes "rows_calls_ok L" "db_created d"
  shows "load_global_meter_rows L d today 30 =
    Inr (map (meter_store_read_stmt_row (lr_columns L)) (sql_select_range (today - 30 * 86400) (today + 86400) d))"
  using assms by (simp add: rows_calls_ok_def load_global_meter_rows_def meter_store_init_def meter_store_open_def
      meter_store_read_range_def read_range_loop_ok profile_history_max_days_def)

lemma load_stored:
  assumes "rows_calls_ok L" and old: "\<forall>(t, v) \<in> set rows. t < today - 30 * 86400"
    and window: "\<forall>p \<in> set ps. today - 30 * 86400 \<le> fst p \<and> fst p < today + 86400" and "sorted (map fst ps)"
  shows "load_global_meter_rows L (committed_rows
      \<lparr>db_created = True, db_rows = rs, db_saved = rows @ map (\<lambda>p. (fst p, insert_values (snd p))) ps, db_in_tx = t\<rparr>)
      today 30 = Inr (map (stored (lr_columns L)) ps)"
proof -
  let ?new = "map (\<lambda>p. (fst p, insert_values (snd p))) ps"
  have "filter (\<lambda>(t, v). today - 30 * 86400 \<le> t \<and> t < today + 86400) rows = []"
    using old by (auto simp: filter_empty_conv)
  moreover have "filter (\<lambda>(t, v). today - 30 * 86400 \<le> t \<and> t < today + 86400) ?new = ?new"
    using window by (auto simp: filter_id_conv)
  moreover have "sort_key fst ?new = ?new"
    using assms(4) by (intro sort_key_id_if_sorted) (simp add: comp_def)
  ultimately have "sql_select_range (today - 30 * 86400) (today + 86400) (committed_rows
      \<lparr>db_created = True, db_rows = rs, db_saved = rows @ ?new, db_in_tx = t\<rparr>) = ?new"
    by (simp add: sql_select_range_def committed_rows_def)
  with load_rows [OF assms(1), of "committed_rows \<lparr>db_created = True, db_rows = rs, db_saved = rows @ ?new, db_in_tx = t\<rparr>" today]
  show ?thesis by (simp add: committed_rows_def comp_def stored_def [abs_def])
qed

section \<open>The report\<close>

lemma profile_total:
  assumes "build_profile local today rows 14 P0 = (st, Q)" and "local_ok local" and "2 \<le> length rows"
  shows "cp_today_total_kwh Q = kwh_between today (today + 86400) rows"
  using assms accumulate_loop_ok [OF zero_accumulator_ok(1), of local 14 today "today + 86400" rows]
  by (auto simp: build_profile_def accumulate_readings_def Let_def profile_history_max_days_def zero_accumulator_def
      split: if_splits)

lemma costs_keep_total: "cp_today_total_kwh (apply_spot_costs P today tomorrow) = cp_today_total_kwh P"
proof -
  have "cp_today_total_kwh (fold (\<lambda>i P. P\<lparr>cp_today_cost_sek := cp_today_cost_sek P + f P i,
      cp_predicted_cost_sek := cp_predicted_cost_sek P + g P i\<rparr>) is P) = cp_today_total_kwh P" for f g "is" P
    by (induction "is" arbitrary: P) simp_all
  then show ?thesis by (simp add: apply_spot_costs_def Let_def)
qed

text \<open>The sentence of the text report on the consumption of today.\<close>

definition states_consumption :: "dbl \<Rightarrow> string \<Rightarrow> bool" where
  "states_consumption kwh report \<longleftrightarrow>
     (\<exists>before after. report = before @ ''Dagens forbrukning hittills ar '' @ fmt_fixed 2 kwh @ '' kWh'' @ after)"

lemma txt_report_states: "states_consumption (cp_today_total_kwh P) (txt_report P today F source)"
proof -
  obtain a b c d where w: "minmax_price_windows today = (a, b, c, d)" by (cases "minmax_price_windows today")
  define before where "before = ''Dagens spotpris i SE'' @ dec_int (price_class_int (fc_price_class F) + 1) @
       '' ar som hogst mellan kl '' @ format_hour_range a b 16 @
       '' ('' @ fmt_fixed 3 (spot_at_bucket today (int a * 4)) @ '' SEK/kWh), och som lagst mellan kl '' @
       format_hour_range c d 16 @
       '' ('' @ fmt_fixed 3 (spot_at_bucket today (int c * 4)) @ '' SEK/kWh).'' @ [NL] @
       ''Snittpriset for dygnet ar '' @ fmt_fixed 3 (daily_average_price today) @ '' SEK/kWh.'' @ [NL]"
  have "\<exists>after. txt_report P today F source = before @ ''Dagens forbrukning hittills ar '' @
      fmt_fixed 2 (cp_today_total_kwh P) @ '' kWh'' @ after"
    unfolding txt_report_def txt_report_head_def w prod.case before_def append_assoc
    by (simp only: append.simps same_append_eq list.inject simp_thms)
  then show ?thesis unfolding states_consumption_def by blast
qed

definition txt_name :: "report_env \<Rightarrow> facility_config \<Rightarrow> string" where
  "txt_name E F = re_calcs_dir E @ ''/'' @ fc_name F @ ''-Consumption_'' @ re_date E @ ''.txt''"

lemma facility_report_states:
  assumes "create_facility_report E F P rows = (SUCCESS, files)" and spots: "\<And>t0 t1. re_spots E t0 t1 \<noteq> Inl SUCCESS"
  shows "\<exists>report. (txt_name E F, report) \<in> set files \<and> states_consumption (cp_today_total_kwh P) report"
proof -
  note made = assms(1) [unfolded create_facility_report_def]
  have ok: "\<not> SUCCESS \<noteq> SUCCESS" by simp
  have rows: "rows \<noteq> []" using made by auto
  obtain T where T: "load_spots (re_spots E) (re_today E) (re_today E - 3600) True = Inr T"
    using made rows spots by (auto simp: load_spots_def split: sum.splits)
  obtain S source where S: "tomorrow_spots E F T = (S, source)" by fastforce
  let ?P = "apply_spot_costs P T S" and ?name = "report_name (re_mem E) (re_calcs_dir E) (fc_name F)"
  note made = made [unfolded if_not_P [OF rows] T S sum.case prod.case Let_def]
  obtain n1 where n1: "?name ''json'' (re_date E) = Some n1" using made by (auto split: option.splits)
  obtain f1 where w1: "write_json E (json_report ?P T S F source) n1 = (SUCCESS, f1)"
    using made n1 by (auto split: prod.splits if_splits)
  note made = made [unfolded n1 option.case w1 prod.case if_not_P [OF ok]]
  obtain n2 where n2: "display_report_name (re_mem E) (re_calcs_dir E) (fc_name F) (re_date E) [] = Some n2"
    using made by (auto split: option.splits)
  obtain f2 where w2: "write_json E (display_report ?P T S F source (re_now E)) n2 = (SUCCESS, f2)"
    using made n2 by (auto split: prod.splits if_splits)
  note made = made [unfolded n2 option.case w2 prod.case if_not_P [OF ok]]
  obtain n3 where n3: "?name ''txt'' (re_date E) = Some n3" using made by (auto split: option.splits)
  have "(n3, txt_report ?P T F source) \<in> set files"
    using made n3 by (auto simp: write_txt_report_def split: if_splits)
  moreover have "n3 = txt_name E F" using n3 by (auto simp: report_name_def report_path_def txt_name_def split: if_splits)
  ultimately show ?thesis using txt_report_states [of ?P T F source] by (auto simp: costs_keep_total)
qed

lemma reports_fold:
  assumes "fold (\<lambda>F (res, files). case g F of (r, fs) \<Rightarrow> (if r \<noteq> SUCCESS then r else res, files @ fs)) Fs
      (res0, files0) = (SUCCESS, files)"
  shows "set files0 \<subseteq> set files \<and> res0 = SUCCESS \<and> (\<forall>F \<in> set Fs. \<exists>fs. g F = (SUCCESS, fs) \<and> set fs \<subseteq> set files)"
  using assms
proof (induction Fs arbitrary: res0 files0)
  case (Cons F Fs)
  obtain r fs where g: "g F = (r, fs)" by (cases "g F")
  have "set (files0 @ fs) \<subseteq> set files \<and> (if r \<noteq> SUCCESS then r else res0) = SUCCESS \<and>
      (\<forall>F \<in> set Fs. \<exists>fs. g F = (SUCCESS, fs) \<and> set fs \<subseteq> set files)"
    using Cons.prems g by (intro Cons.IH) simp
  with g show ?case by (auto split: if_splits)
qed simp

text \<open>C4: What the meter posts is what the optimizer reports. Readings that are accepted by POST \<open>/ingest\<close> in
  the order of time are in the window of the analysis; the store had no rows of that window. Then the
  optimizer loads them from the file of the store, and every report it makes of a facility states as the
  consumption of today the energy between the posted readings. (A read of spot prices that fails does not
  return \<open>SUCCESS\<close>.)\<close>

theorem posted_readings_are_reported:
  fixes posts :: "'j reading_post list"
  assumes posts: "\<forall>p \<in> set posts. accepted_post p" "2 \<le> length posts"
    and times: "sorted (map (fst \<circ> point_of) posts)"
      "\<forall>p \<in> set posts. today - 30 * 86400 \<le> fst (point_of p) \<and> fst (point_of p) < today + 86400"
    and store: "ap_store a = at_rest old" "\<forall>(t, v) \<in> set old. t < today - 30 * 86400"
    and load: "rows_calls_ok L" "local_ok local"
  shows "\<exists>d rows. ms_db (ap_store (fold post_reading posts a)) = Some d \<and>
    load_global_meter_rows L (committed_rows d) today 30 = Inr rows \<and>
    map fst rows = map (fst \<circ> point_of) posts \<and>
    (\<forall>env Fs files. (\<forall>F t0 t1. re_spots (env F) t0 t1 \<noteq> Inl SUCCESS) \<and> consumption_analysis_create_reports env local today L (committed_rows d) Fs = (SUCCESS, files) \<longrightarrow>
       (\<forall>F \<in> set Fs. \<exists>report. (txt_name (env F) F, report) \<in> set files \<and>
          states_consumption (kwh_between today (today + 86400) (map point_of posts)) report))"
proof -
  let ?ps = "map point_of posts"
  let ?rows = "map (stored (lr_columns L)) ?ps"
  let ?saved = "old @ map (\<lambda>p. (fst p, insert_values (snd p))) ?ps"
  let ?d = "\<lparr>db_created = True, db_rows = ?saved, db_saved = ?saved, db_in_tx = False\<rparr>"
  have d: "ms_db (ap_store (fold post_reading posts a)) = Some ?d"
    using posts_store [OF posts(1) store(1)] by (simp add: at_rest_def comp_def)
  have rows: "load_global_meter_rows L (committed_rows ?d) today 30 = Inr ?rows"
    using load_stored [OF load(1) store(2), of ?ps ?saved False] times by simp
  have fit: "\<forall>p \<in> set ?ps. strings_fit (snd p)" using posts(1) accepted_fits by auto
  have kwh: "kwh_between today (today + 86400) ?rows = kwh_between today (today + 86400) ?ps"
    using kwh_stored [OF _ fit] load(1) by (simp add: rows_calls_ok_def)
  have "\<exists>report. (txt_name (env F) F, report) \<in> set files \<and>
      states_consumption (kwh_between today (today + 86400) ?ps) report"
    if spots: "\<forall>F t0 t1. re_spots (env F) t0 t1 \<noteq> Inl SUCCESS" and run: "consumption_analysis_create_reports env local today L (committed_rows ?d) Fs = (SUCCESS, files)"
      and F: "F \<in> set Fs" for env Fs files F
  proof -
    obtain P where P: "build_profile local today ?rows 14 zero_profile = (SUCCESS, P)"
      and all: "fold (\<lambda>F (res, files). case create_facility_report (env F) F P ?rows of (r, fs) \<Rightarrow>
          (if r \<noteq> SUCCESS then r else res, files @ fs)) Fs (SUCCESS, []) = (SUCCESS, files)"
      using run rows by (auto simp: consumption_analysis_create_reports_def profile_history_max_days_def
          split: if_splits prod.splits status.splits)
    have "cp_today_total_kwh P = kwh_between today (today + 86400) ?ps"
      using profile_total [OF P load(2)] posts(2) kwh by simp
    moreover obtain fs where "create_facility_report (env F) F P ?rows = (SUCCESS, fs)" "set fs \<subseteq> set files"
      using reports_fold [OF all] F by blast
    moreover from this(1) obtain report where "(txt_name (env F) F, report) \<in> set fs"
      "states_consumption (cp_today_total_kwh P) report" using facility_report_states spots by blast
    ultimately show ?thesis by auto
  qed
  then show ?thesis
    using d rows by (intro exI [of _ ?d] exI [of _ ?rows]) (simp add: comp_def, blast)
qed

lemma profile_made:
  assumes "local_ok local" and "2 \<le> length rows" and "0 < kwh_between today (today + 86400) rows"
  shows "fst (build_profile local today rows 14 P0) = SUCCESS"
  using assms accumulate_loop_ok [OF zero_accumulator_ok(1), of local 14 today "today + 86400" rows]
  by (auto simp: build_profile_def accumulate_readings_def Let_def profile_history_max_days_def zero_accumulator_def
      split: if_splits)

definition posted_reading :: meter_reading where
  "posted_reading = fold (read_row sample_json (Obj sample_items)) meter_rows zero_reading"

definition two_posts :: "tree reading_post list" where
  "two_posts = map (\<lambda>t. (plain_env\<lparr>av_insert := ok_env t\<rparr>, asked HTTP_POST ''/api/v1/ingest'' [] ''{}'', posted_reading))
     [1000000, 1000900]"

definition loading :: rows_env where
  "loading = \<lparr>lr_mutex = True, lr_open = True, lr_mem = mem_unlimited, lr_columns = ok_columns, lr_prepare = True,
     lr_fail = None\<rparr>"

definition reporting :: report_env where
  "reporting = \<lparr>re_mem = mem_unlimited, re_print = (\<lambda>j. Some ''{}''), re_write = (\<lambda>s f. True),
     re_open_txt = (\<lambda>f. True), re_spots = (\<lambda>t0 t1. Inr (flat_spots [1, 2])), re_weather = (\<lambda>t. Inl ERR_NOT_FOUND),
     re_now = 1001000, re_today = 950400, re_date = ''1970-01-12'', re_calcs_dir = ''c''\<rparr>"

lemma posted_reading_fields:
  "\<not> bit (mr_flags posted_reading) 5" "\<not> bit (mr_flags posted_reading) 31" "bit (mr_flags posted_reading) 15"
  "mr_dbl posted_reading MR_power_w = 500"
  by code_simp+

lemma two_posts_accepted: "\<forall>p \<in> set two_posts. accepted_post p"
proof -
  have b: "osi_get_request_body (asked HTTP_POST ''/api/v1/ingest'' [] ''{}'') = (Some ''{}'', 2)"
    by (simp add: osi_get_request_body_def asked_def)
  have "osi_parse_meter_reading_json sample_json (Some ''{}'') 2 = (SUCCESS, Some posted_reading)"
    using posted_reading_fields(3)
    by (simp add: osi_parse_meter_reading_json_def posted_reading_def sample_json_def tree_json_def Let_def present_power_def)
  then show ?thesis by (simp add: two_posts_def accepted_post_def b all_calls_def ok_env_def plain_env_def)
qed

lemma two_posts_points: "map point_of two_posts = [(1000000, posted_reading), (1000900, posted_reading)]"
  by (simp add: two_posts_def point_of_def ok_env_def)

lemma two_posts_kwh: "kwh_between 950400 (950400 + 86400) (map point_of two_posts) = 1 / 8"
  using posted_reading_fields
  by (simp add: two_posts_points pair_kwh_def interval_kwh_def Let_def present_energy_import_def
      present_average_power_15m_def present_power_def)

theorem posted_readings_are_reported_witness:
  "\<exists>d files report. ms_db (ap_store (fold post_reading two_posts plain_api)) = Some d \<and>
     consumption_analysis_create_reports (\<lambda>F. reporting) sample_local 950400 loading (committed_rows d)
       [sample_facility] = (SUCCESS, files) \<and>
     (''c/Home-Consumption_1970-01-12.txt'', report) \<in> set files \<and> states_consumption (1 / 8) report"
proof -
  have times: "2 \<le> length two_posts" "sorted (map (fst \<circ> point_of) two_posts)"
    "\<forall>p \<in> set two_posts. 950400 - 30 * 86400 \<le> fst (point_of p) \<and> fst (point_of p) < 950400 + 86400"
    by (simp_all add: two_posts_def point_of_def ok_env_def)
  have ok: "ap_store plain_api = at_rest []" "\<forall>(t, v) \<in> set []. t < (950400 :: int) - 30 * 86400"
    "rows_calls_ok loading"
    by (simp_all add: plain_api_def rows_calls_ok_def loading_def columns_ok_def ok_columns_def)
  obtain d rows where d: "ms_db (ap_store (fold post_reading two_posts plain_api)) = Some d"
    and rows: "load_global_meter_rows loading (committed_rows d) 950400 30 = Inr rows"
    and all: "\<And>env Fs files. (\<forall>F t0 t1. re_spots (env F) t0 t1 \<noteq> Inl SUCCESS) \<and> consumption_analysis_create_reports env
        sample_local 950400 loading (committed_rows d) Fs = (SUCCESS, files) \<Longrightarrow>
      \<forall>F \<in> set Fs. \<exists>report. (txt_name (env F) F, report) \<in> set files \<and>
        states_consumption (kwh_between 950400 (950400 + 86400) (map point_of two_posts)) report"
    using posted_readings_are_reported [OF two_posts_accepted times ok sample_local_ok] by blast
  let ?ps = "map point_of two_posts" and ?kwh = "kwh_between 950400 (950400 + 86400)"
  let ?saved = "map (\<lambda>p. (fst p, insert_values (snd p))) ?ps"
  have "ap_store (fold post_reading two_posts plain_api) = at_rest ?saved"
    using posts_store [OF two_posts_accepted ok(1)] by (simp add: comp_def)
  then have "d = \<lparr>db_created = True, db_rows = ?saved, db_saved = ?saved, db_in_tx = False\<rparr>"
    using d by (simp add: at_rest_def)
  then have "rows = map (stored ok_columns) ?ps"
    using load_stored [OF ok(3), of "[]" 950400 ?ps ?saved False] times rows by (simp add: loading_def)
  moreover have "?kwh (map (stored ok_columns) ?ps) = ?kwh ?ps"
    using two_posts_accepted accepted_fits ok(3) by (intro kwh_stored) (auto simp: rows_calls_ok_def loading_def)
  ultimately have "fst (build_profile sample_local 950400 rows 14 zero_profile) = SUCCESS" "rows \<noteq> []"
    using two_posts_kwh times(1) by (auto intro!: profile_made sample_local_ok)
  then obtain P where P: "build_profile sample_local 950400 rows 14 zero_profile = (SUCCESS, P)"
    and rows_ne: "rows \<noteq> []"
    by (cases "build_profile sample_local 950400 rows 14 zero_profile") auto
  have names: "report_name mem_unlimited ''c'' ''Home'' ext ''1970-01-12'' \<noteq> None"
    "display_report_name mem_unlimited ''c'' ''Home'' ''1970-01-12'' [] \<noteq> None" if "length ext < 9" for ext
    using that by (simp_all add: report_name_def display_report_name_def report_path_def mem_unlimited_def)
  obtain S source where S: "tomorrow_spots reporting sample_facility (flat_spots [1, 2]) = (S, source)" by fastforce
  have "\<exists>fs. create_facility_report reporting sample_facility P rows = (SUCCESS, fs)"
    using names [of "''json''"] names [of "''txt''"] rows_ne S
    by (auto simp: create_facility_report_def load_spots_def reporting_def sample_facility_def write_json_def
        write_txt_report_def Let_def)
  then obtain files where made: "consumption_analysis_create_reports (\<lambda>F. reporting) sample_local 950400 loading
      (committed_rows d) [sample_facility] = (SUCCESS, files)"
    using rows P by (auto simp: consumption_analysis_create_reports_def profile_history_max_days_def)
  moreover have "re_spots reporting t0 t1 \<noteq> Inl SUCCESS" for t0 t1 by (simp add: reporting_def)
  ultimately obtain report where "(txt_name reporting sample_facility, report) \<in> set files"
    "states_consumption (?kwh ?ps) report"
    using all [of "\<lambda>F. reporting" "[sample_facility]" files] by auto
  moreover have "txt_name reporting sample_facility = ''c/Home-Consumption_1970-01-12.txt''"
    by (simp add: txt_name_def reporting_def sample_facility_def)
  ultimately show ?thesis using d made unfolding two_posts_kwh by auto
qed

end
