(* ===== verification/Server_Memory.thy ===== *)
theory Server_Memory
  imports Price_Calc
begin

text \<open>
  The memory of a connection and of the API instance that works for it: the initialisers and disposals of
  \<open>server/src/http/http_connection.c\<close>, \<open>server/src/opti/opti_instance.c\<close> and the handover and removal of an
  instance in \<open>server/src/opti/opti_server.c\<close>. An object of the heap is live from its allocation until it is
  freed; a pointer is a flag that it is not NULL, so that a pointer to a freed object can be told. Freeing or
  reading an object that is not live, or calling a callback that is NULL, is \<open>Undefined\<close>. The theorem says
  that all is freed exactly once, for every outcome of the allocations. What the library frees of its own (the
  strings of a request, the buffers of the TCP client) is not part of the model, but for the first buffer,
  which the initialiser allocates.
\<close>

section \<open>The heap\<close>

datatype heap_obj =
    O_conn | O_request | O_response | O_body | O_data | O_conn_task | O_inst | O_inst_task | O_item

record server_heap =
  live :: "heap_obj \<Rightarrow> bool"
  pt_request :: bool
  pt_response :: bool
  pt_body :: bool
  pt_conn_task :: bool
  pt_callback :: bool
  pt_inst_task :: bool
  pt_inst_conn :: bool
  pt_item :: bool
  pt_finish :: bool

definition empty_heap :: server_heap where
  "empty_heap = \<lparr>live = (\<lambda>x. False), pt_request = False, pt_response = False, pt_body = False,
     pt_conn_task = False, pt_callback = False, pt_inst_task = False, pt_inst_conn = False, pt_item = False,
     pt_finish = False\<rparr>"

definition new_obj :: "heap_obj \<Rightarrow> server_heap \<Rightarrow> server_heap" where
  "new_obj x m = m\<lparr>live := (live m)(x := True)\<rparr>"

definition free_obj :: "heap_obj \<Rightarrow> server_heap \<Rightarrow> server_heap run" where
  "free_obj x m = (if live m x then Done (m\<lparr>live := (live m)(x := False)\<rparr>) else Undefined)"

text \<open>\<open>if (p) { free(p); p = NULL; }\<close> and an access.\<close>

definition free_if :: "bool \<Rightarrow> heap_obj \<Rightarrow> (server_heap \<Rightarrow> server_heap) \<Rightarrow> server_heap \<Rightarrow> server_heap run" where
  "free_if p x clear m = (if p then then_run (free_obj x m) (\<lambda>m1. Done (clear m1)) else Done m)"

definition reads :: "heap_obj \<Rightarrow> server_heap \<Rightarrow> server_heap run" where
  "reads x m = (if live m x then Done m else Undefined)"

section \<open>The connection\<close>

text \<open>Which allocations succeed.\<close>

record alloc_env =
  al_conn :: bool
  al_request :: bool
  al_response :: bool
  al_data :: bool
  al_conn_task :: bool

definition http_server_connection_init_mem :: "alloc_env \<Rightarrow> int \<Rightarrow> server_heap \<Rightarrow> (status \<times> server_heap) run" where
  "http_server_connection_init_mem A fd m =
     (if fd < 0 then Done (ERR_INVALID_ARG, m)
      else let m1 = (if al_request A then new_obj O_request m else m);
               m2 = (if al_response A then new_obj O_response m1 else m1)
           in if \<not> al_request A \<or> \<not> al_response A
              then then_run (free_if (al_request A) O_request id m2) (\<lambda>m3.
                   then_run (free_if (al_response A) O_response id m3) (\<lambda>m4. Done (ERR_NO_MEMORY, m4)))
              else if \<not> al_data A
              then then_run (free_obj O_request m2) (\<lambda>m3.
                   then_run (free_obj O_response m3) (\<lambda>m4. Done (ERR_NO_MEMORY, m4)))
              else let m3 = (new_obj O_data m2)\<lparr>pt_request := True, pt_response := True\<rparr>
                   in if \<not> al_conn_task A
                      then then_run (free_obj O_data m3) (\<lambda>m4.
                           then_run (free_if (pt_request m4) O_request (pt_request_update (\<lambda>_. False)) m4) (\<lambda>m5.
                           then_run (free_if (pt_response m5) O_response (pt_response_update (\<lambda>_. False)) m5) (\<lambda>m6.
                             Done (ERR_FATAL, m6))))
                      else Done (SUCCESS, (new_obj O_conn_task m3)\<lparr>pt_conn_task := True\<rparr>))"

text \<open>\<open>calloc\<close>: all pointers of the new connection are NULL. The second component of the result is whether the
  pointer of the caller was set.\<close>

definition http_server_connection_init_ptr_mem ::
  "alloc_env \<Rightarrow> int \<Rightarrow> server_heap \<Rightarrow> (status \<times> bool \<times> server_heap) run" where
  "http_server_connection_init_ptr_mem A fd m =
     (if \<not> al_conn A then Done (ERR_NO_MEMORY, False, m)
      else let m1 = (new_obj O_conn m)\<lparr>pt_request := False, pt_response := False, pt_body := False,
                      pt_conn_task := False, pt_callback := False\<rparr>
           in then_run (http_server_connection_init_mem A fd m1) (\<lambda>(res, m2).
                if res \<noteq> SUCCESS then then_run (free_obj O_conn m2) (\<lambda>m3. Done (res, False, m3))
                else Done (SUCCESS, True, m2)))"

text \<open>\<open>tcp_client_dispose\<close> and \<open>http_parser_dispose\<close> read the objects they get; \<open>tcp\<close> is what the former does to
  the buffer. The task is destroyed without a look at the pointer.\<close>

definition http_server_connection_dispose_mem :: "(bool \<Rightarrow> bool) \<Rightarrow> server_heap \<Rightarrow> server_heap run" where
  "http_server_connection_dispose_mem tcp m =
     then_run (reads O_conn m) (\<lambda>m.
     let m1 = m\<lparr>live := (live m)(O_data := tcp (live m O_data))\<rparr>
     in then_run (if pt_response m1 then then_run (reads O_response m1) (\<lambda>m2.
                    free_if (pt_body m2) O_body (pt_body_update (\<lambda>_. False)) m2) else Done m1) (\<lambda>m2.
        then_run (free_if (pt_request m2) O_request (pt_request_update (\<lambda>_. False)) m2) (\<lambda>m3.
        then_run (free_if (pt_response m3) O_response (pt_response_update (\<lambda>_. False)) m3) (\<lambda>m4.
        free_if (pt_conn_task m4) O_conn_task (pt_conn_task_update (\<lambda>_. False)) m4))))"

definition http_server_connection_dispose_ptr_mem :: "(bool \<Rightarrow> bool) \<Rightarrow> server_heap \<Rightarrow> server_heap run" where
  "http_server_connection_dispose_ptr_mem tcp m =
     then_run (http_server_connection_dispose_mem tcp m) (free_obj O_conn)"

definition http_server_connection_set_callback_mem :: "server_heap \<Rightarrow> server_heap run" where
  "http_server_connection_set_callback_mem m = then_run (reads O_conn m) (\<lambda>m1. Done (m1\<lparr>pt_callback := True\<rparr>))"

section \<open>The instance\<close>

definition osi_init_mem :: "server_heap \<Rightarrow> server_heap run" where
  "osi_init_mem m =
     then_run (reads O_inst m) (\<lambda>m.
     http_server_connection_set_callback_mem (m\<lparr>pt_inst_task := False, pt_inst_conn := True, pt_item := False,
       pt_finish := False\<rparr>))"

definition osi_init_ptr_mem :: "bool \<Rightarrow> server_heap \<Rightarrow> (status \<times> server_heap) run" where
  "osi_init_ptr_mem inst_ok m =
     (if \<not> inst_ok then Done (ERR_NO_MEMORY, m)
      else then_run (osi_init_mem (new_obj O_inst m)) (\<lambda>m1. Done (SUCCESS, m1)))"

text \<open>The handover: whether the server is connected. The result of \<open>linked_list_item_add\<close> is not looked at;
  without memory for the item the local pointer to it, which is not initialised, is stored all the same.\<close>

definition opti_server_connection_handover_mem :: "bool \<Rightarrow> bool \<Rightarrow> server_heap \<Rightarrow> (bool \<times> server_heap) run" where
  "opti_server_connection_handover_mem inst_ok item_ok m =
     then_run (osi_init_ptr_mem inst_ok m) (\<lambda>(res, m1).
       if res \<noteq> SUCCESS then Done (False, m1)
       else let m2 = (if item_ok then new_obj O_item m1 else m1)
            in then_run (reads O_inst m2) (\<lambda>m3. Done (True, m3\<lparr>pt_item := True, pt_finish := True\<rparr>)))"

text \<open>The request of the connection: its callback, which is called whether or not it is set.\<close>

definition osi_on_request_mem :: "bool \<Rightarrow> server_heap \<Rightarrow> server_heap run" where
  "osi_on_request_mem task_ok m =
     (if \<not> pt_callback m then Undefined
      else then_run (reads O_inst m) (\<lambda>m1.
        Done ((if task_ok then new_obj O_inst_task m1 else m1)\<lparr>pt_inst_task := task_ok\<rparr>)))"

text \<open>\<open>osi_set_response\<close> replaces a response that is there.\<close>

definition osi_set_response_mem :: "bool \<Rightarrow> server_heap \<Rightarrow> (status \<times> server_heap) run" where
  "osi_set_response_mem mem_ok m =
     then_run (reads O_conn m) (\<lambda>m. then_run (reads O_response m) (\<lambda>m.
     if \<not> mem_ok then Done (ERR_NO_MEMORY, m)
     else then_run (free_if (pt_body m) O_body (pt_body_update (\<lambda>_. False)) m) (\<lambda>m1.
       Done (SUCCESS, (new_obj O_body m1)\<lparr>pt_body := True\<rparr>))))"

section \<open>The end of a connection\<close>

definition osi_dispose_mem :: "server_heap \<Rightarrow> server_heap run" where
  "osi_dispose_mem m =
     then_run (reads O_inst m) (\<lambda>m.
     then_run (free_if (pt_inst_task m) O_inst_task (pt_inst_task_update (\<lambda>_. False)) m) (\<lambda>m1.
       Done (m1\<lparr>pt_inst_conn := False\<rparr>)))"

definition osi_dispose_ptr_mem :: "server_heap \<Rightarrow> server_heap run" where
  "osi_dispose_ptr_mem m = then_run (osi_dispose_mem m) (free_obj O_inst)"

definition opti_s_on_instance_finish_mem :: "server_heap \<Rightarrow> server_heap run" where
  "opti_s_on_instance_finish_mem m =
     then_run (reads O_inst m) (\<lambda>m. then_run (free_if (pt_item m) O_item id m) osi_dispose_ptr_mem)"

definition osi_on_dispose_mem :: "(bool \<Rightarrow> bool) \<Rightarrow> server_heap \<Rightarrow> server_heap run" where
  "osi_on_dispose_mem tcp m =
     then_run (reads O_inst m) (\<lambda>m.
     then_run (free_if (pt_inst_task m) O_inst_task (pt_inst_task_update (\<lambda>_. False)) m) (\<lambda>m1.
     then_run (if pt_inst_conn m1 then http_server_connection_dispose_ptr_mem tcp (m1\<lparr>pt_inst_conn := False\<rparr>)
               else Done m1) (\<lambda>m2.
     then_run (reads O_inst m2) (\<lambda>m3. if pt_finish m3 then opti_s_on_instance_finish_mem m3 else Done m3))))"

text \<open>The last state of the task of the connection.\<close>

definition connection_disposing :: "(bool \<Rightarrow> bool) \<Rightarrow> server_heap \<Rightarrow> server_heap run" where
  "connection_disposing tcp m =
     then_run (reads O_conn m) (\<lambda>m1. if pt_callback m1 then osi_on_dispose_mem tcp m1 else Undefined)"

section \<open>A connection from its begin to its end\<close>

text \<open>What happens to a connection between the handover and its end.\<close>

datatype memory_step = Requested bool | Answered bool

primrec memory_effect :: "memory_step \<Rightarrow> server_heap \<Rightarrow> server_heap run" where
  "memory_effect (Requested task_ok) m = osi_on_request_mem task_ok m"
| "memory_effect (Answered mem_ok) m = then_run (osi_set_response_mem mem_ok m) (\<lambda>(res, m1). Done m1)"

fun memory_steps :: "memory_step list \<Rightarrow> server_heap \<Rightarrow> server_heap run" where
  "memory_steps [] m = Done m"
| "memory_steps (x # xs) m = then_run (memory_effect x m) (memory_steps xs)"

text \<open>The connection requests at most once (\<open>Http_Connection\<close>); the API may set the response often.\<close>

definition requests_once :: "memory_step list \<Rightarrow> bool" where
  "requests_once xs \<longleftrightarrow> length (filter (\<lambda>x. case x of Requested ok \<Rightarrow> True | _ \<Rightarrow> False) xs) \<le> 1"

section \<open>Who owns what\<close>

text \<open>After the handover every pointer is that of a live object, and nothing else is live; \<open>item\<close>: there was
  memory for the item of the list.\<close>

definition owned :: "bool \<Rightarrow> server_heap \<Rightarrow> bool" where
  "owned item m \<longleftrightarrow> pt_request m \<and> pt_response m \<and> pt_conn_task m \<and> pt_callback m \<and> pt_inst_conn m \<and> pt_item m \<and>
     pt_finish m \<and> live m = (\<lambda>x. x \<in> {O_conn, O_request, O_response, O_data, O_conn_task, O_inst} \<or>
       x = O_body \<and> pt_body m \<or> x = O_inst_task \<and> pt_inst_task m \<or> x = O_item \<and> item)"

lemmas memory_defs = free_obj_def free_if_def reads_def new_obj_def

definition fresh_connection :: server_heap where
  "fresh_connection = empty_heap\<lparr>live := (\<lambda>x. x \<in> {O_conn, O_request, O_response, O_data, O_conn_task}),
     pt_request := True, pt_response := True, pt_conn_task := True\<rparr>"

lemma connection_init:
  "\<exists>res m. http_server_connection_init_ptr_mem A fd empty_heap = Done (res, res = SUCCESS, m) \<and>
     (if res = SUCCESS then m = fresh_connection else live m = (\<lambda>x. False))"
  by (cases "al_conn A"; cases "al_request A"; cases "al_response A"; cases "al_data A"; cases "al_conn_task A";
      cases "fd < 0")
    (auto simp: http_server_connection_init_ptr_mem_def http_server_connection_init_mem_def memory_defs
      empty_heap_def fresh_connection_def Let_def fun_eq_iff)

lemma handover:
  "opti_server_connection_handover_mem inst_ok item_ok fresh_connection =
     (if inst_ok then Done (True, m) else Done (False, fresh_connection)) \<and> (inst_ok \<longrightarrow> owned item_ok m \<and> \<not> pt_inst_task m)"
  if "m = (fresh_connection\<lparr>live := (\<lambda>x. x \<in> {O_conn, O_request, O_response, O_data, O_conn_task, O_inst} \<or> x = O_item \<and> item_ok),
    pt_callback := True, pt_inst_conn := True, pt_item := True, pt_finish := True\<rparr>)" for m
  unfolding that
  by (cases inst_ok; cases item_ok)
    (auto simp: opti_server_connection_handover_mem_def osi_init_ptr_mem_def osi_init_mem_def
      http_server_connection_set_callback_mem_def memory_defs fresh_connection_def empty_heap_def owned_def Let_def fun_eq_iff)

lemma answered_owned:
  assumes "owned item m"
  shows "\<exists>res m1. osi_set_response_mem mem_ok m = Done (res, m1) \<and> owned item m1 \<and> pt_inst_task m1 = pt_inst_task m"
  using assms
  by (cases mem_ok; cases "pt_body m") (auto simp: osi_set_response_mem_def memory_defs owned_def fun_eq_iff)

lemma requested_owned:
  assumes "owned item m" "\<not> pt_inst_task m"
  shows "\<exists>m1. osi_on_request_mem task_ok m = Done m1 \<and> owned item m1"
  using assms by (cases task_ok) (auto simp: osi_on_request_mem_def memory_defs owned_def fun_eq_iff)

lemma steps_owned:
  assumes "owned item m" "requests_once xs" "pt_inst_task m \<Longrightarrow> list_all (\<lambda>x. case x of Requested ok \<Rightarrow> False | _ \<Rightarrow> True) xs"
  shows "\<exists>m1. memory_steps xs m = Done m1 \<and> owned item m1"
  using assms
proof (induction xs arbitrary: m)
  case (Cons x xs)
  show ?case
  proof (cases x)
    case (Requested ok)
    then have none: "list_all (\<lambda>x. case x of Requested ok \<Rightarrow> False | _ \<Rightarrow> True) xs" "requests_once xs"
      using Cons.prems(2) by (auto simp: requests_once_def list_all_iff filter_empty_conv split: memory_step.splits)
    have "\<not> pt_inst_task m" using Cons.prems(3) Requested by auto
    then obtain m1 where "osi_on_request_mem ok m = Done m1" "owned item m1"
      using requested_owned [OF Cons.prems(1)] by blast
    with Cons.IH [of m1] none Requested show ?thesis by simp
  next
    case (Answered ok)
    obtain res m1 where "osi_set_response_mem ok m = Done (res, m1)" "owned item m1" "pt_inst_task m1 = pt_inst_task m"
      using answered_owned [OF Cons.prems(1)] by blast
    moreover have "requests_once xs" using Cons.prems(2) Answered by (simp add: requests_once_def)
    ultimately show ?thesis using Cons.IH [of m1] Cons.prems(3) Answered by (auto)
  qed
qed simp

lemma disposing_owned:
  assumes "owned item m"
  shows "if item then \<exists>m1. connection_disposing tcp m = Done m1 \<and> live m1 = (\<lambda>x. x = O_data \<and> tcp True)
    else connection_disposing tcp m = Undefined"
  using assms
  by (cases item; cases "pt_body m"; cases "pt_inst_task m")
    (auto simp: connection_disposing_def osi_on_dispose_mem_def http_server_connection_dispose_ptr_mem_def
      http_server_connection_dispose_mem_def opti_s_on_instance_finish_mem_def osi_dispose_ptr_mem_def osi_dispose_mem_def
      memory_defs owned_def Let_def fun_eq_iff)

section \<open>The property\<close>

text \<open>C15: The memory of a connection. For every outcome of the allocations: an initialiser that fails leaves
  nothing behind; a connection that was handed over, whatever it and the API then do, is disposed of with every
  object freed exactly once and none left, but for the buffer of the TCP client when the library does not
  free it. There are two exceptions. Without memory for the instance the connection stays without callbacks,
  and both its request and its disposal call NULL. Without memory for the item of the list the disposal frees
  through a pointer that was never set.\<close>

theorem connection_freed_once:
  assumes "requests_once xs"
  shows "\<exists>res m1. http_server_connection_init_ptr_mem A fd empty_heap = Done (res, res = SUCCESS, m1) \<and>
    (if res \<noteq> SUCCESS then live m1 = (\<lambda>x. False)
     else \<exists>m2. opti_server_connection_handover_mem inst_ok item_ok m1 = Done (inst_ok, m2) \<and>
       (if \<not> inst_ok then osi_on_request_mem task_ok m2 = Undefined \<and> connection_disposing tcp m2 = Undefined
        else \<exists>m3. memory_steps xs m2 = Done m3 \<and>
          (if item_ok then \<exists>m4. connection_disposing tcp m3 = Done m4 \<and> live m4 = (\<lambda>x. x = O_data \<and> tcp True)
           else connection_disposing tcp m3 = Undefined)))"
proof -
  obtain res m where init: "http_server_connection_init_ptr_mem A fd empty_heap = Done (res, res = SUCCESS, m)"
    and m: "if res = SUCCESS then m = fresh_connection else live m = (\<lambda>x. False)"
    using connection_init by blast
  show ?thesis
  proof (cases "res = SUCCESS \<and> inst_ok")
    case False
    have none: "osi_on_request_mem task_ok fresh_connection = Undefined"
      "connection_disposing tcp fresh_connection = Undefined"
      by (simp_all add: osi_on_request_mem_def connection_disposing_def memory_defs fresh_connection_def empty_heap_def)
    show ?thesis
      using False init m handover [OF refl, of inst_ok item_ok] none by (intro exI [of _ res] exI [of _ m]) auto
  next
    case True
    obtain m2 where h: "opti_server_connection_handover_mem inst_ok item_ok m = Done (inst_ok, m2)"
      and m2: "owned item_ok m2" "\<not> pt_inst_task m2"
      using handover [OF refl, of inst_ok item_ok] True m by auto
    obtain m3 where m3: "memory_steps xs m2 = Done m3" "owned item_ok m3"
      using steps_owned [OF m2(1) assms] m2(2) by blast
    show ?thesis
      using True init h m3(1) disposing_owned [OF m3(2), of tcp]
      by (intro exI [of _ res] exI [of _ m]) (auto split: if_splits)
  qed
qed

theorem connection_freed_once_witness:
  "\<exists>m1 m2 m3 m4. http_server_connection_init_ptr_mem
       \<lparr>al_conn = True, al_request = True, al_response = True, al_data = True, al_conn_task = True\<rparr> 5 empty_heap =
       Done (SUCCESS, True, m1) \<and>
     opti_server_connection_handover_mem True True m1 = Done (True, m2) \<and>
     memory_steps [Requested True, Answered True, Answered True] m2 = Done m3 \<and>
     connection_disposing (\<lambda>b. False) m3 = Done m4 \<and> live m4 = (\<lambda>x. False)"
proof -
  let ?A = "\<lparr>al_conn = True, al_request = True, al_response = True, al_data = True, al_conn_task = True\<rparr>"
  have once: "requests_once [Requested True, Answered True, Answered True]" by (simp add: requests_once_def)
  obtain res m1 where i: "http_server_connection_init_ptr_mem ?A 5 empty_heap = Done (res, res = SUCCESS, m1)"
    and m1: "if res \<noteq> SUCCESS then live m1 = (\<lambda>x. False)
     else \<exists>m2. opti_server_connection_handover_mem True True m1 = Done (True, m2) \<and>
       (\<exists>m3. memory_steps [Requested True, Answered True, Answered True] m2 = Done m3 \<and>
          (\<exists>m4. connection_disposing (\<lambda>b. False) m3 = Done m4 \<and> live m4 = (\<lambda>x. x = O_data \<and> False)))"
    using connection_freed_once [OF once, of ?A 5 True True True "\<lambda>b. False", unfolded not_True_eq_False if_False if_True]
    by blast
  have "res = SUCCESS" using i
    by (simp add: http_server_connection_init_ptr_mem_def http_server_connection_init_mem_def memory_defs
        empty_heap_def Let_def)
  with i m1 show ?thesis by auto
qed

end
