(* ===== verification/Daemon_Start.thy ===== *)
theory Daemon_Start
  imports Prelude
begin

text \<open>
  How the optimizer becomes a daemon (\<open>daemonize\<close> in \<open>optimizer/include/daemon.h\<close>): two forks, a new session,
  the standard descriptors and the file with its process number. The descriptors of the process are a list,
  and \<open>open\<close> takes the lowest one that is free. The theorem says what the daemon begins with: the standard
  output and error are redirected, but its standard input is closed and is given to the first file it opens.
\<close>

section \<open>Descriptors\<close>

datatype descriptor = Inherited | Dev_null | Opened string

type_synonym descriptors = "descriptor option list"

definition fd_at :: "nat \<Rightarrow> descriptors \<Rightarrow> descriptor option" where
  "fd_at k t = (if k < length t then t ! k else None)"

definition fd_put :: "nat \<Rightarrow> descriptor option \<Rightarrow> descriptors \<Rightarrow> descriptors" where
  "fd_put k v t = (if k < length t then t[k := v] else t @ replicate (k - length t) None @ [v])"

fun fd_open :: "descriptor \<Rightarrow> descriptors \<Rightarrow> nat \<times> descriptors" where
  "fd_open x [] = (0, [Some x])"
| "fd_open x (None # t) = (0, Some x # t)"
| "fd_open x (Some y # t) = (let (k, t') = fd_open x t in (Suc k, Some y # t'))"

definition fd_close :: "nat \<Rightarrow> descriptors \<Rightarrow> descriptors" where
  "fd_close k t = (if k < length t then t[k := None] else t)"

section \<open>The start\<close>

text \<open>What \<open>fork\<close> returns in this process (0 in the child), and which other calls succeed.\<close>

record daemonize_env =
  dz_fork1 :: int
  dz_setsid :: bool
  dz_fork2 :: int
  dz_null :: bool
  dz_pidfile :: bool

text \<open>A process ends with a code or goes on with its descriptors; the flag tells that the file with the process
  number was written.\<close>

datatype daemon_start = Exits int | Runs descriptors bool

definition daemonize :: "daemonize_env \<Rightarrow> string \<Rightarrow> descriptors \<Rightarrow> daemon_start" where
  "daemonize E pid_file fds =
     (if dz_fork1 E < 0 then Exits 1
      else if 0 < dz_fork1 E then Exits 0
      else if \<not> dz_setsid E then Exits 1
      else if dz_fork2 E < 0 then Exits 1
      else if 0 < dz_fork2 E then Exits 0
      else let closed = fold fd_close [0, 1, 2] fds;
               (fd, t) = (if dz_null E then (case fd_open Dev_null closed of (k, t) \<Rightarrow> (int k, t)) else (- 1, closed))
           in if fd \<noteq> 0 then Exits 1
              else let t1 = fd_put 1 (fd_at 0 t) t;
                       t2 = fd_put 2 (fd_at 0 t1) t1;
                       t3 = fd_close (nat fd) t2
                   in if dz_pidfile E
                      then (case fd_open (Opened pid_file) t3 of (k, t4) \<Rightarrow> Runs (fd_close k t4) True)
                      else Runs t3 False)"

section \<open>The descriptors of the daemon\<close>

lemma fd_at_put: "fd_at j (fd_put k v t) = (if j = k then v else fd_at j t)"
  by (auto simp: fd_at_def fd_put_def nth_append)

lemma fd_at_close: "fd_at j (fd_close k t) = (if j = k then None else fd_at j t)"
  by (auto simp: fd_at_def fd_close_def)

lemma fd_open_free:
  assumes "fd_at 0 t = None"
  shows "fst (fd_open x t) = 0 \<and> fd_at j (snd (fd_open x t)) = (if j = 0 then Some x else fd_at j t)"
proof (cases t)
  case Nil
  then show ?thesis by (simp add: fd_at_def)
next
  case (Cons v t')
  then have "v = None" using assms by (simp add: fd_at_def)
  with Cons show ?thesis by (cases j) (simp_all add: fd_at_def)
qed

text \<open>What the daemon begins with. It is the grandchild; its standard output and error are
  \<open>/dev/null\<close> and the descriptors from 3 on are inherited. \<open>close(fd)\<close> closes the standard input, which has
  just been redirected, so that the next file that is opened, whatever it is, becomes the standard input.\<close>

theorem daemon_without_stdin:
  assumes "daemonize E pid_file fds = Runs t w"
  shows "dz_fork1 E = 0 \<and> dz_fork2 E = 0 \<and> dz_setsid E \<and> fd_at 1 t = Some Dev_null \<and> fd_at 2 t = Some Dev_null \<and>
    (\<forall>k. 3 \<le> k \<longrightarrow> fd_at k t = fd_at k fds) \<and> fd_at 0 t = None \<and> fst (fd_open x t) = 0"
proof -
  let ?closed = "fold fd_close [0, 1, 2] fds"
  obtain k t0 where o0: "fd_open Dev_null ?closed = (k, t0)" by fastforce
  have "fd_at 0 ?closed = None" by (simp add: fd_at_close)
  then have first: "k = 0" "fd_at j t0 = (if j = 0 then Some Dev_null else fd_at j ?closed)" for j
    using fd_open_free [of ?closed Dev_null j] o0 by simp_all
  let ?t3 = "fd_close 0 (fd_put 2 (fd_at 0 (fd_put 1 (fd_at 0 t0) t0)) (fd_put 1 (fd_at 0 t0) t0))"
  have at3: "fd_at j ?t3 = (if j = 0 then None else if j = 1 \<or> j = 2 then Some Dev_null else fd_at j fds)" for j
    by (simp add: fd_at_close fd_at_put first(2))
  have free: "fd_at 0 ?t3 = None" by (simp add: fd_at_close)
  have pid: "fst (fd_open (Opened pid_file) ?t3) = 0"
    "fd_at j (snd (fd_open (Opened pid_file) ?t3)) = (if j = 0 then Some (Opened pid_file) else fd_at j ?t3)" for j
    using fd_open_free [OF free, of "Opened pid_file" j] by simp_all
  have branch: "dz_fork1 E = 0 \<and> dz_fork2 E = 0 \<and> dz_setsid E \<and>
      t = (if dz_pidfile E then fd_close 0 (snd (fd_open (Opened pid_file) ?t3)) else ?t3)"
    using assms o0 first(1) pid(1) unfolding daemonize_def Let_def by (auto split: if_splits prod.splits)
  then have at: "fd_at j t = fd_at j ?t3" for j using pid(2) free by (simp add: fd_at_close)
  have "fst (fd_open x t) = 0" using fd_open_free [of t x] at free by metis
  with branch at at3 show ?thesis by simp
qed

theorem daemon_without_stdin_witness:
  "daemonize \<lparr>dz_fork1 = 0, dz_setsid = True, dz_fork2 = 0, dz_null = True, dz_pidfile = True\<rparr> ''p''
       [Some Inherited, Some Inherited, Some Inherited] = Runs [None, Some Dev_null, Some Dev_null] True \<and>
     fd_open (Opened ''log'') [None, Some Dev_null, Some Dev_null] = (0, [Some (Opened ''log''), Some Dev_null, Some Dev_null])"
proof -
  have run: "daemonize \<lparr>dz_fork1 = 0, dz_setsid = True, dz_fork2 = 0, dz_null = True, dz_pidfile = True\<rparr> ''p''
       [Some Inherited, Some Inherited, Some Inherited] = Runs [None, Some Dev_null, Some Dev_null] True"
    by (simp add: daemonize_def fd_put_def fd_close_def fd_at_def Let_def)
  from daemon_without_stdin [OF this, of "Opened ''log''"] run show ?thesis by simp
qed

end
