(* ===== verification/Spec2Isabelle.thy ===== *)
theory Spec2Isabelle
  imports Prelude Task_Machine Config_Text Facility_Files Meter_Json Meter_Store Energy_Types
    Facility Consumption Spot_Analysis Http_Connection Server_Pipeline Sql_Tables Cache_Db
    Cache_Integrity Opti_Request Opti_Endpoints Opti_Samples Opti_Answers Opti_Storage Opti_Series
    Opti_Instance Documents Spot_Source Price_Calc Reports_Served Weather_Source Optimizer
    Daemon Cache_Files Cache_Races Server_Main
    Cache_Readings Readings_Analysed Server_Memory Daemon_Start
begin

text \<open>
  OptiMaestro, modelled and verified. The program is two processes of C that share a configuration
  directory, a directory of results and SQLite databases.

  \<^bold>\<open>The optimizer\<close> (\<open>optimizer/src\<close>) is a daemon. Every quarter of an hour, on a signal or on a command of
  its socket it fetches spot prices and weather for every price class and facility into the cache
  database, calculates the tables of the day for every facility, and analyses the consumption. \<^bold>\<open>The
  server\<close> (\<open>server/src\<close>) is a single thread in which a cooperative scheduler runs tasks that are state
  machines: the TCP server accepts a client, the HTTP server makes a connection of it, the connection
  reads a request and calls the API, an instance task answers it from the caches, the files of the
  optimizer, the configuration files and the store of meter readings. \<open>common/\<close> holds what both use.

  \<^bold>\<open>Theories and code.\<close> In the order in which they build on each other:
  \<^item> \<open>Prelude\<close>: status codes, results, C strings, lines of a text, numbers of the C library.
  \<^item> \<open>Task_Machine\<close>: the contract between the scheduler and a task (locale \<open>settling_task\<close>): a measure that
    every round decreases until the task rests. \<open>Sql_Tables\<close>: transactions and keyed tables of SQLite
    (locale \<open>keyed_table\<close>: an upsert is an update of the map from keys to rows).
  \<^item> \<open>Config_Text\<close>, \<open>Facility_Files\<close> (\<open>server/src/opti/opti_instance.c\<close>): the parser and the merge of a
    posted configuration over a growing buffer (locale \<open>append_buffer\<close>), and the search for the file
    of a facility. \<open>Meter_Json\<close>: a meter reading from and to JSON. \<open>Meter_Store\<close>
    (\<open>common/src/meter_reading_store.c\<close>): its database.
  \<^item> \<open>Energy_Types\<close>, \<open>Facility\<close> (\<open>common/src/facility.c\<close>): the shared structs and the facility files as the
    optimizer reads them. \<open>Documents\<close>: numbers as text, JSON documents, names and content of files.
  \<^item> \<open>Cache_Db\<close>, \<open>Cache_Integrity\<close> (\<open>optimizer/src/sqlite_helpers.c\<close>): the cache of prices and weather.
    \<open>Spot_Source\<close> (\<open>elprisjustnu.c\<close>, \<open>electricity_cache_handler.c\<close>) and \<open>Weather_Source\<close> (\<open>meteo.c\<close>,
    \<open>weather_cache_handler.c\<close>): the clients of the two services and the handlers that fill the cache.
    \<open>Cache_Files\<close>: the JSON files of the same handlers. \<open>Cache_Readings\<close>: the meter readings of the cache.
  \<^item> \<open>Consumption\<close>, \<open>Spot_Analysis\<close> (\<open>consumption_analysis.c\<close>): the profile of the consumption, the windows
    of prices, the estimate of tomorrow, the reports. \<open>Price_Calc\<close> (\<open>calculations.c\<close>): the tables of the
    day and the mutex of their files.
  \<^item> \<open>Optimizer\<close> (\<open>optimizer.c\<close>): configuration and run, composed of the above; the tasks of a run are
    interleaved by steps that keep the contract of the locale \<open>cache_worker\<close>. \<open>Daemon\<close> (\<open>main.c\<close>, \<open>common/src/unix_domain_socket.c\<close>): the
    main loop with its signals, timer and socket; \<open>Daemon_Start\<close> (\<open>daemon.h\<close>): how it becomes a daemon. \<open>Cache_Races\<close>: a run whose tasks disturb each other.
  \<^item> \<open>Http_Connection\<close> (\<open>http_connection.c\<close>), \<open>Server_Pipeline\<close> (\<open>tcp_server.c\<close>, \<open>http_server.c\<close>,
    \<open>opti_server.c\<close>): the tasks of the server up to the API. \<open>Server_Main\<close> (\<open>server/src/main.c\<close> and the start
    in \<open>opti_server.c\<close>): the databases the server opens, its main loop and its end.
  \<^item> \<open>Opti_Request\<close>, \<open>Opti_Endpoints\<close>, \<open>Opti_Samples\<close>, \<open>Opti_Answers\<close>, \<open>Opti_Storage\<close>, \<open>Opti_Series\<close>,
    \<open>Opti_Instance\<close> (\<open>opti_instance.c\<close>): the accessors of a request, the 17 endpoints and their table, a
    concrete state of the API, what the endpoints answer and store, and the instance task together with
    the connection it works for. \<open>Server_Memory\<close>: what a connection and its instance own on the heap.
  \<^item> \<open>Reports_Served\<close>, \<open>Readings_Analysed\<close> and this theory: properties that span the two programs.

  \<^bold>\<open>How state and operations correspond.\<close> A struct is a record, an enumeration a datatype with the names of
  the source, and a function of C a definition of the same name; a piece of a long function has a
  name of its own and the text above it says which piece. State that a function changes is an argument
  and a component of the result. Errors are the status codes of the source or the left side of a sum.
  Where an execution can read or free what is not there, lock a mutex for ever or divide by 0, the
  result type says so: an outer \<open>option\<close> in \<open>Spot_Source\<close> and \<open>Weather_Source\<close>, the type \<open>run\<close> from \<open>Price_Calc\<close>
  on, whose values are \<open>Done\<close>, \<open>Blocks\<close> and \<open>Undefined\<close>. Integers of 8 to 32 bits are words or have their
  wrap-around written out; \<open>float\<close> and \<open>double\<close> are rationals with exact arithmetic, and where the code
  divides by a value that can be 0 the quotient is a value of its own.

  \<^bold>\<open>Parameters.\<close> What is not in the repository is an argument of the definitions: the scheduler's rounds,
  sockets, the HTTP parser, cJSON, \<open>maestroutils\<close> and \<open>maestromodules\<close> (files, configuration, the HTTP
  client, the thread pool), the calendar and the clock, allocation, the order in which SQLite scans a
  table and whether its calls succeed. The threads of the pool interleave the steps of the tasks of a run in
  any order, a step being an operation on the database, which holds its mutex, with what the task does before
  its next one; signals arrive in any part of an iteration of the daemon's loop.

  \<^bold>\<open>What the theorems show.\<close>
  \<^item> The server answers: a connection is handed over or answered within 49 of any 50 rounds with memory and
    is disposed of with its instance within 58, with exactly one response; no accepted client is lost
    in the slots between the tasks in any order of scheduling. The bounds are the values of the
    measures at the start, one for each state that is left and each buffer that is still to be read.
    What a connection owns is freed exactly once, but after two failing allocations; a SIGINT ends the server within its round.
  \<^item> The API: routing is a map, each endpoint answers in form and GET changes nothing; a posted
    configuration is the specified merge and is read back unless it is glued to a last line without newline; a posted reading is found again.
  \<^item> The data: the cache refines a map of prices and keeps the integrity of its tables under every failure;
    prices and weather come back from it as the services gave them; the tables of the day are the
    averages they claim to be, and are served under the name they were written if the directory is the default.
  \<^item> The composition: what the optimizer fetches is what the server lists (below), however the tasks are
    interleaved; what it calculates is what the server serves, in the default directory only (\<open>Reports_Served\<close>); what the meter posts to the
    server is what the optimizer reports (\<open>Readings_Analysed\<close>).
  \<^item> The limits: exactly when a calculation reads behind its input, blocks for ever or has no defined outcome,
    which reloads of the configuration are safe, what a failing run leaves open, which signals are
    lost, and after which errors a socket stays closed.

  \<^bold>\<open>Not modelled.\<close> The vendored SQLite, whose statements are modelled by their documented meaning; logging;
  the entry point for fuzzing of the connection, which does not compile; what the library owns on the heap.
\<close>

section \<open>From the price service to the client of the API\<close>

text \<open>C3: The prices the optimizer fetched are the prices the server shows. After a run of the optimizer that
  returns, let the cache connection of the server, which has the same data directory in its configuration,
  be at the file the server opens, as the run has left it. Then GET
  \<open>/spot-price/cache\<close> with a time range and a zone lists exactly the prices in that range that the
  price service gave for the zone, over those that were in the file before, or only those that were in
  the file when it had a price of the wanted day: once each, in the order of time, however the
  threads of the pool interleaved the tasks of the run.\<close>

theorem prices_are_served:
  assumes run: "oc_data_dir (op_config Z) = Valid dir" "oc_facilities (op_config Z) = Some fs"
      "ru_open R" "ru_schema R" "ru_pool R (oc_max_threads (op_config Z))"
      "\<forall>n. ru_mem R n" "\<forall>i. ru_add R i" "\<forall>k < 4 + 2 * length fs. 2 \<le> count_list (ru_schedule R) k"
      "\<forall>pc. prices_fine (ru_ech R (class_index pc)) B pc (P pc)"
      "\<forall>F \<in> set fs. \<forall>b i. weather_fine (ru_wch R i) B (wch_conf_for F b)"
      "keys_distinct spot_key (ct_spots (ow_db w (db_path dir)))"
    and "optimizer_run R Z w = Done (res, Z', w')"
    and server: "sv_config V 256 ''data.dir'' = Inr dir" "cstr dir = dir" "dir \<noteq> []"
    and cache: "ap_cache a = \<lparr>sh_db = Some (sql_rest (ow_db w' (opti_s_get_optimizer_cache_path V))), sh_locked = l\<rparr>"
    and "calls_ok (av_reads E 0)" and "\<And>d. av_print E d \<noteq> None"
    and "osi_parse_time_range (av_now E) (request c) = Inr (t0, t1)" and "B \<le> t0"
    and "request_zone E (ap_fs a) (request c) = Inr zone"
  shows "\<exists>ps js. osi_get_spot_cache E (c, a) = respond_with E 200 ''application/json'' js (c, a) \<and>
    av_print E (spots_doc \<lparr>es_prices = ps, es_unit = None, es_currency = SPOT_SEK,
      es_price_class = zone_class zone, es_interval = 0\<rparr>) = Some js \<and>
    sorted_wrt (<) (map sp_time_start ps) \<and>
    (\<forall>p. p \<in> set ps \<longleftrightarrow> t0 \<le> sp_time_start p \<and> sp_time_start p < t1 \<and>
       day_filled (ru_ech R (class_index (zone_class zone))) (P (zone_class zone))
         (spot_map (ow_db w (db_path dir)) (zone_class zone) SPOT_SEK) (sp_time_start p) = Some p)"
proof -
  let ?t = "ow_db w (db_path dir)" and ?cl = "zone_class zone"
  obtain t' where keys: "keys_distinct spot_key (ct_spots t')"
    and m: "\<And>cl cu time. B \<le> time \<Longrightarrow> spot_map t' cl cu time =
       (if cu = SPOT_SEK then day_filled (ru_ech R (class_index cl)) (P cl) (spot_map ?t cl SPOT_SEK) time
        else spot_map ?t cl cu time)"
    and left: "ow_db w' (db_path dir) = t'"
    using run_fills [OF run] assms(12) by blast
  obtain ps js where answer: "osi_get_spot_cache E (c, a) = respond_with E 200 ''application/json'' js (c, a)"
    "av_print E (spots_doc \<lparr>es_prices = ps, es_unit = None, es_currency = SPOT_SEK, es_price_class = ?cl,
      es_interval = 0\<rparr>) = Some js" "sorted_wrt (<) (map sp_time_start ps)"
    and mem: "\<And>p. p \<in> set ps \<longleftrightarrow> t0 \<le> sp_time_start p \<and> sp_time_start p < t1 \<and>
       spot_map t' ?cl SPOT_SEK (sp_time_start p) = Some p"
    using spot_cache_answers [OF assms(17) keys cache [unfolded same_cache_file [OF server] left] assms(19,21,18)] by blast
  have "p \<in> set ps \<longleftrightarrow> t0 \<le> sp_time_start p \<and> sp_time_start p < t1 \<and>
      day_filled (ru_ech R (class_index ?cl)) (P ?cl) (spot_map ?t ?cl SPOT_SEK) (sp_time_start p) = Some p" for p
    using m [of "sp_time_start p" ?cl SPOT_SEK] assms(20) unfolding mem by auto
  with answer show ?thesis by blast
qed

text \<open>A run whose price service knows one price, of the day that the server is asked for.\<close>

definition fetched_env :: "json_doc spot_env" where
  "fetched_env = (plain_spot_env one_price_reply)\<lparr>se_epoch := (\<lambda>s. if s = ''a'' then 950400 else 951300),
     se_today := 950400\<rparr>"

definition fetched_price :: epjn_price where
  "fetched_price = \<lparr>ep_time_start = 950400, ep_time_end = 951300, ep_sek = 1, ep_eur = 1 / 10, ep_exr = 10\<rparr>"

definition fetching_run :: "json_doc run_env" where
  "fetching_run = (plain_run_env True)\<lparr>ru_ech := (\<lambda>i. fetched_env),
     ru_calc := (plain_tasks (\<lambda>f. True))\<lparr>te_add := (\<lambda>k. False)\<rparr>\<rparr>"

lemma fetched_prices_fine: "prices_fine fetched_env 0 pc \<lparr>en_prices = [fetched_price], en_price_class = pc\<rparr>"
proof -
  have "epjn_update fetched_env pc date = Some (Inr \<lparr>en_prices = [fetched_price], en_price_class = pc\<rparr>)" for date
    unfolding fetched_price_def by (rule one_price_fetched) (simp_all add: fetched_env_def plain_spot_env_def)
  then show ?thesis
    by (simp add: prices_fine_def cutoff_of_def retention_days_def day_start_def)
      (simp add: fetched_env_def plain_spot_env_def mem_unlimited_def target_day_def)
qed

lemma fetching_run_simps:
  "ru_open fetching_run" "ru_schema fetching_run" "ru_pool fetching_run n" "\<forall>n. ru_mem fetching_run n"
  "\<forall>i. ru_add fetching_run i" "\<forall>k < 4 + 2 * length [plain_facility]. 2 \<le> count_list (ru_schedule fetching_run) k"
  "ru_ech fetching_run i = fetched_env" "ru_wch fetching_run i = plain_meteo_env (J_obj [])"
  using all_twice by (simp_all add: fetching_run_def plain_run_env_def mem_unlimited_def)

lemma plain_optimizer_simps:
  "oc_data_dir (op_config plain_optimizer) = Valid ''d''"
  "oc_facilities (op_config plain_optimizer) = Some [plain_facility]"
  "ow_db empty_world path = no_tables"
  by (simp_all add: plain_optimizer_def live_config_def empty_world_def)

lemma fetching_report:
  "\<exists>Z' w'. report_phase fetching_run path dir h (reopen plain_optimizer) empty_world = Done (SUCCESS, Z', w')"
  by (simp add: report_phase_def make_reports_def calc_create_reports_def plain_optimizer_def live_config_def
      fetching_run_def plain_tasks_def mem_unlimited_def calc_tasks_def Let_def)

definition plain_start :: start_env where
  "plain_start = \<lparr>sv_config = \<lambda>n key. Inr ''d'', sv_store_mutex = True, sv_store_open = True, sv_store_wal = True,
     sv_store_schema = True, sv_cache_mutex = True, sv_cache_open = True, sv_cache_schema = True,
     sv_uds_socket = \<lambda>k. True, sv_uds_connect = \<lambda>k. True, sv_uds_written = \<lambda>k. 6\<rparr>"

theorem prices_are_served_witness:
  "\<exists>Z' w' ps js. optimizer_run fetching_run plain_optimizer empty_world = Done (SUCCESS, Z', w') \<and>
     osi_get_spot_cache plain_env (ask_zone, plain_api\<lparr>ap_cache :=
         \<lparr>sh_db = Some (sql_rest (ow_db w' (opti_s_get_optimizer_cache_path plain_start))), sh_locked = False\<rparr>\<rparr>) =
       respond_with plain_env 200 ''application/json'' js (ask_zone, plain_api\<lparr>ap_cache :=
         \<lparr>sh_db = Some (sql_rest (ow_db w' (opti_s_get_optimizer_cache_path plain_start))), sh_locked = False\<rparr>\<rparr>) \<and>
     \<lparr>sp_time_start = 950400, sp_time_end = 951300, sp_price = 1\<rparr> \<in> set ps"
proof -
  let ?P = "\<lambda>pc. \<lparr>en_prices = [fetched_price], en_price_class = pc\<rparr>"
  have fine: "\<forall>pc. prices_fine (ru_ech fetching_run (class_index pc)) 0 pc (?P pc)"
    "\<forall>F \<in> set [plain_facility]. \<forall>b i. weather_fine (ru_wch fetching_run i) 0 (wch_conf_for F b)"
    "keys_distinct spot_key (ct_spots (ow_db empty_world (db_path ''d'')))"
    unfolding fetching_run_simps plain_optimizer_simps using fetched_prices_fine plain_weather_fine
    by (simp_all add: no_tables_def keys_distinct_def)
  note run = plain_optimizer_simps(1,2) fetching_run_simps(1,2) fetching_run_simps(3) fetching_run_simps(4,5,6) fine
  obtain Z' w' where returned: "optimizer_run fetching_run plain_optimizer empty_world = Done (SUCCESS, Z', w')"
    using run_fills [OF run] fetching_report by metis
  let ?a = "plain_api\<lparr>ap_cache := \<lparr>sh_db = Some (sql_rest (ow_db w' (opti_s_get_optimizer_cache_path plain_start))), sh_locked = False\<rparr>\<rparr>"
  have a: "ap_cache ?a = \<lparr>sh_db = Some (sql_rest (ow_db w' (opti_s_get_optimizer_cache_path plain_start))), sh_locked = False\<rparr>" by simp
  have server: "sv_config plain_start 256 ''data.dir'' = Inr ''d''" "cstr ''d'' = ''d''" "''d'' \<noteq> []"
    by (simp_all add: plain_start_def)
  have ok: "calls_ok (av_reads plain_env 0)" "\<And>d. av_print plain_env d \<noteq> None" by simp_all
  have r: "osi_parse_time_range (av_now plain_env) (request ask_zone) = Inr (913600, 1000000)"
    by (simp add: osi_parse_time_range_def given_time_def range_days_def osi_get_query_param_def ask_zone_def)
  have "strtol10 ''1'' = Some (1, [])" by code_simp
  then have z: "request_zone plain_env (ap_fs ?a) (request ask_zone) = Inr 1"
    by (simp add: request_zone_def osi_parse_query_int_def osi_get_query_param_def ask_zone_def zone_keys_def
        int_of_long_id)
  obtain ps js where answer: "osi_get_spot_cache plain_env (ask_zone, ?a) =
      respond_with plain_env 200 ''application/json'' js (ask_zone, ?a)"
    and mem: "\<And>p. p \<in> set ps \<longleftrightarrow> 913600 \<le> sp_time_start p \<and> sp_time_start p < 1000000 \<and>
       day_filled (ru_ech fetching_run (class_index (zone_class 1))) (?P (zone_class 1))
         (spot_map (ow_db empty_world (db_path ''d'')) (zone_class 1) SPOT_SEK) (sp_time_start p) = Some p"
    using prices_are_served [OF run returned server a ok r _ z] by auto
  have "spot_map no_tables cl cu time = None" for cl cu time by (simp add: spot_map_def no_tables_def)
  then have "\<lparr>sp_time_start = 950400, sp_time_end = 951300, sp_price = 1\<rparr> \<in> set ps"
    unfolding mem by (simp add: plain_optimizer_simps day_filled_def fetched_prices_def fetched_price_def)
  with returned answer show ?thesis by blast
qed

end
